(* ===== verification/Prelude.thy ===== *)
theory Prelude
  imports Complex_Main "HOL-Library.Word"
begin

text \<open>
  Shared vocabulary of the development: the byte and word types of the driver, the
  little- and big-endian readers its packet parsers are written with, the value of a
  C++ \<^verbatim>\<open>char\<close> under either signedness, guarded reads of a byte buffer, and the
  collections of rewrite rules the component theories extend.

  \<^item> \<open>fp_simps\<close>: value-level facts of the floating-point operations (theory
    \<open>Ieee_Floats\<close>);
  \<^item> \<open>ring_simps\<close>: index arithmetic of the bounded queue;
  \<^item> \<open>byte_simps\<close>: reassembly of integers from bytes.
\<close>

named_theorems fp_simps
named_theorems ring_simps
named_theorems byte_simps

unbundle bit_operations_syntax

type_synonym byte = "8 word"
type_synonym u16 = "16 word"
type_synonym u32 = "32 word"
type_synonym u64 = "64 word"

section \<open>Integers from bytes\<close>

text \<open>
  \<^verbatim>\<open>(b[i] & 0xff) | ((b[i+1] & 0xff) << 8)\<close> and its four-byte and big-endian
  variants. The operands are promoted to \<^verbatim>\<open>int\<close>; the result is stored in an unsigned
  type of the stated width, so it is computed at that width.
\<close>

definition le16 :: "byte \<Rightarrow> byte \<Rightarrow> u16" where
  "le16 b0 b1 = ucast b0 OR push_bit 8 (ucast b1)"

definition be16 :: "byte \<Rightarrow> byte \<Rightarrow> u16" where
  "be16 b0 b1 = push_bit 8 (ucast b0) OR ucast b1"

definition le32 :: "byte \<Rightarrow> byte \<Rightarrow> byte \<Rightarrow> byte \<Rightarrow> u32" where
  "le32 b0 b1 b2 b3 =
     ucast b0 OR push_bit 8 (ucast b1) OR push_bit 16 (ucast b2) OR push_bit 24 (ucast b3)"

definition be32 :: "byte \<Rightarrow> byte \<Rightarrow> byte \<Rightarrow> byte \<Rightarrow> u32" where
  "be32 b0 b1 b2 b3 =
     push_bit 24 (ucast b0) OR push_bit 16 (ucast b1) OR push_bit 8 (ucast b2) OR ucast b3"

text \<open>The byte \<open>k\<close> of an integer, \<^verbatim>\<open>(n >> 8*k) & 0xff\<close>.\<close>

definition byte_of :: "nat \<Rightarrow> 'a::len word \<Rightarrow> byte" where
  "byte_of k n = ucast (drop_bit (8 * k) n)"

lemma le16_byte_of [byte_simps]: "le16 (byte_of 0 n) (byte_of 1 n) = (n :: u16)"
  unfolding le16_def byte_of_def
  by (rule bit_word_eqI) (auto simp: bit_simps)

lemma be16_byte_of [byte_simps]: "be16 (byte_of 1 n) (byte_of 0 n) = (n :: u16)"
  unfolding be16_def byte_of_def
  by (rule bit_word_eqI) (auto simp: bit_simps)

lemma le32_byte_of [byte_simps]:
  "le32 (byte_of 0 n) (byte_of 1 n) (byte_of 2 n) (byte_of 3 n) = (n :: u32)"
proof (rule bit_word_eqI)
  fix k assume "k < LENGTH(32)"
  then consider "k < 8" | "8 \<le> k" "k < 16" | "16 \<le> k" "k < 24" | "24 \<le> k" "k < 32"
    by force
  then show "bit (le32 (byte_of 0 n) (byte_of 1 n) (byte_of 2 n) (byte_of 3 n)) k \<longleftrightarrow> bit n k"
    by cases (auto simp: le32_def byte_of_def bit_simps)
qed

lemma be32_byte_of [byte_simps]:
  "be32 (byte_of 3 n) (byte_of 2 n) (byte_of 1 n) (byte_of 0 n) = (n :: u32)"
proof (rule bit_word_eqI)
  fix k assume "k < LENGTH(32)"
  then consider "k < 8" | "8 \<le> k" "k < 16" | "16 \<le> k" "k < 24" | "24 \<le> k" "k < 32"
    by force
  then show "bit (be32 (byte_of 3 n) (byte_of 2 n) (byte_of 1 n) (byte_of 0 n)) k \<longleftrightarrow> bit n k"
    by cases (auto simp: be32_def byte_of_def bit_simps)
qed

lemmas le16_byte_of_Suc [byte_simps] = le16_byte_of [unfolded One_nat_def]
lemmas be16_byte_of_Suc [byte_simps] = be16_byte_of [unfolded One_nat_def]
lemmas le32_byte_of_Suc [byte_simps] = le32_byte_of [unfolded One_nat_def]
lemmas be32_byte_of_Suc [byte_simps] = be32_byte_of [unfolded One_nat_def]

text \<open>
  Whether a plain \<^verbatim>\<open>char\<close> is signed is implementation-defined (it is on x86-64, it is
  not on the aarch64 targets the driver is built for), so it is an argument of every
  definition that reads one.
\<close>

definition char_val :: "bool \<Rightarrow> byte \<Rightarrow> int" where
  "char_val char_signed b = (if char_signed then sint b else uint b)"

lemma char_val_unsigned: "char_val False b = int (unat b)"
  by (simp add: char_val_def)

lemma char_val_small: "unat b < 128 \<Longrightarrow> char_val cs b = int (unat b)"
proof -
  assume b: "unat b < 128"
  have u: "uint b = int (unat b)" by simp
  with b have "uint b < 128" by linarith
  then have "sint b = uint b"
    using uint_bounded [of b] by (simp add: sint_uint signed_take_bit_int_eq_self order_trans [of _ 0])
  with u show ?thesis by (simp add: char_val_def)
qed

lemma char_val_bounds: "- 128 \<le> char_val cs b" "char_val cs b < 256"
proof -
  have "sint b < 2 ^ (LENGTH(8) - 1)" and "- (2 ^ (LENGTH(8) - 1)) \<le> sint b"
    by (rule sint_lt, rule sint_ge)
  moreover have "uint b < 2 ^ LENGTH(8)" and "0 \<le> uint b"
    using uint_bounded [of b] by simp_all
  ultimately show "- 128 \<le> char_val cs b" "char_val cs b < 256"
    by (auto simp: char_val_def intro: order_trans [of _ 0])
qed

lemma unat_of_nat_small:
  "n < 2 ^ LENGTH('a::len) \<Longrightarrow> unat (of_nat n :: 'a word) = n"
  by (simp add: unsigned_of_nat take_bit_nat_eq_self)

lemma of_nat_word_inj:
  assumes "m < 2 ^ LENGTH('a::len)" and "n < 2 ^ LENGTH('a)"
  shows "(of_nat m :: 'a word) = of_nat n \<longleftrightarrow> m = n"
  using assms by (metis unat_of_nat_small)

lemma unat_byte_of: "unat (byte_of k w) = unat w div 256 ^ k mod 256"
proof -
  have "unat (byte_of k w) = take_bit 8 (drop_bit (8 * k) (unat w))"
    by (simp add: byte_of_def unsigned_ucast_eq unsigned_drop_bit_eq take_bit_nat_eq_self)
  also have "\<dots> = unat w div 2 ^ (8 * k) mod 2 ^ 8"
    by (simp only: take_bit_eq_mod drop_bit_eq_div)
  finally show ?thesis by (simp add: power_mult)
qed

section \<open>Buffers\<close>

text \<open>
  A read of a byte array outside its bounds is undefined behaviour in C++; the model
  makes it the value \<^term>\<open>None\<close>, so that every parser says whether it stays inside the
  buffer it is given.
\<close>

definition rd :: "'a list \<Rightarrow> nat \<Rightarrow> 'a option" where
  "rd xs i = (if i < length xs then Some (xs ! i) else None)"

lemma rd_in [simp]: "i < length xs \<Longrightarrow> rd xs i = Some (xs ! i)"
  by (simp add: rd_def)

lemma rd_out [simp]: "length xs \<le> i \<Longrightarrow> rd xs i = None"
  by (simp add: rd_def)

lemma rd_Some_iff: "rd xs i = Some x \<longleftrightarrow> i < length xs \<and> xs ! i = x"
  by (auto simp: rd_def)

lemma rd_append_right [simp]: "rd (xs @ ys) (length xs + i) = rd ys i"
  by (simp add: rd_def)

text \<open>A write to an array element, with the same convention.\<close>

definition wr :: "'a list \<Rightarrow> nat \<Rightarrow> 'a \<Rightarrow> 'a list option" where
  "wr xs i x = (if i < length xs then Some (xs[i := x]) else None)"

lemma wr_in [simp]: "i < length xs \<Longrightarrow> wr xs i x = Some (xs[i := x])"
  by (simp add: wr_def)

lemma wr_out [simp]: "length xs \<le> i \<Longrightarrow> wr xs i x = None"
  by (simp add: wr_def)

definition rd_le16 :: "byte list \<Rightarrow> nat \<Rightarrow> u16 option" where
  "rd_le16 buf i = Option.bind (rd buf i) (\<lambda>b0. map_option (le16 b0) (rd buf (i + 1)))"

definition rd_be16 :: "byte list \<Rightarrow> nat \<Rightarrow> u16 option" where
  "rd_be16 buf i = Option.bind (rd buf i) (\<lambda>b0. map_option (be16 b0) (rd buf (i + 1)))"

definition rd_le32 :: "byte list \<Rightarrow> nat \<Rightarrow> u32 option" where
  "rd_le32 buf i =
     Option.bind (rd buf i) (\<lambda>b0.
     Option.bind (rd buf (i + 1)) (\<lambda>b1.
     Option.bind (rd buf (i + 2)) (\<lambda>b2.
     map_option (le32 b0 b1 b2) (rd buf (i + 3)))))"

text \<open>\<open>n\<close> consecutive bytes.\<close>

fun rd_bytes :: "byte list \<Rightarrow> nat \<Rightarrow> nat \<Rightarrow> byte list option" where
  "rd_bytes buf i 0 = Some []"
| "rd_bytes buf i (Suc n) =
     Option.bind (rd buf i) (\<lambda>b. map_option (\<lambda>bs. b # bs) (rd_bytes buf (Suc i) n))"

lemma rd_bytes_in [simp]: "i + n \<le> length buf \<Longrightarrow> rd_bytes buf i n = Some (take n (drop i buf))"
  by (induction n arbitrary: i) (auto simp: take_Suc_conv_app_nth Cons_nth_drop_Suc [symmetric])

lemma rd_le16_in [simp]: "i + 1 < length buf \<Longrightarrow> rd_le16 buf i = Some (le16 (buf ! i) (buf ! (i + 1)))"
  by (simp add: rd_le16_def)

lemma rd_be16_in [simp]: "i + 1 < length buf \<Longrightarrow> rd_be16 buf i = Some (be16 (buf ! i) (buf ! (i + 1)))"
  by (simp add: rd_be16_def)

lemma rd_le32_in [simp]:
  "i + 3 < length buf \<Longrightarrow>
     rd_le32 buf i = Some (le32 (buf ! i) (buf ! (i + 1)) (buf ! (i + 2)) (buf ! (i + 3)))"
  by (simp add: rd_le32_def)

section \<open>Lists\<close>

lemma take_Suc_snoc: "i < length xs \<Longrightarrow> take (Suc i) xs = take i xs @ [xs ! i]"
  by (rule take_Suc_conv_app_nth)

lemma nth_append_here [simp]: "(xs @ y # ys) ! length xs = y"
  by simp

lemma sorted_wrt_snoc:
  "sorted_wrt P (xs @ [x]) \<longleftrightarrow> sorted_wrt P xs \<and> (\<forall>y \<in> set xs. P y x)"
  by (simp add: sorted_wrt_append)

end
