(* ===== verification/Spsc_Queue.thy ===== *)
theory Spsc_Queue
  imports Prelude
begin

text \<open>
  The bounded single-producer/single-consumer queue of \<^verbatim>\<open>bounded_spsc_queue.h\<close>, one
  call at a time: the ring storage, the two indices, \<^verbatim>\<open>try_push\<close>, \<^verbatim>\<open>try_pop\<close>,
  \<^verbatim>\<open>reset\<close> and \<^verbatim>\<open>approximate_size\<close>. The template arguments \<^verbatim>\<open>StorageCapacity\<close> and
  \<^verbatim>\<open>MaxDepth\<close> are the arguments \<open>cap\<close> and \<open>md\<close>; the class's static assertions are part
  of the invariant. The locale \<open>bounded_fifo\<close> is what the packet loop relies on: a FIFO
  list of at most \<open>md\<close> elements. Theory \<open>Spsc_Concurrency\<close> refines the calls into
  their memory accesses and interleaves them.
\<close>

section \<open>The class\<close>

record 'a spsc =
  storage :: "'a list"
  read_index :: nat
  write_index :: nat

definition spsc_next :: "nat \<Rightarrow> nat \<Rightarrow> nat" where
  "spsc_next cap index = (let index' = index + 1 in if index' = cap then 0 else index')"

definition spsc_distance :: "nat \<Rightarrow> nat \<Rightarrow> nat \<Rightarrow> nat" where
  "spsc_distance cap r w = (if r \<le> w then w - r else cap - r + w)"

definition spsc_new :: "nat \<Rightarrow> 'a \<Rightarrow> 'a spsc" where
  "spsc_new cap init = \<lparr>storage = replicate cap init, read_index = 0, write_index = 0\<rparr>"

text \<open>The result of a push: the Boolean, \<^verbatim>\<open>*size_after_push\<close> when written, the queue.\<close>

definition try_push :: "nat \<Rightarrow> nat \<Rightarrow> 'a \<Rightarrow> 'a spsc \<Rightarrow> bool \<times> nat option \<times> 'a spsc" where
  "try_push cap md v q =
     (let w = write_index q;
          r = read_index q;
          current_size = spsc_distance cap r w
      in if md \<le> current_size then (False, None, q)
         else (True, Some (current_size + 1),
               q\<lparr>storage := (storage q)[w := v], write_index := spsc_next cap w\<rparr>))"

definition try_pop :: "nat \<Rightarrow> 'a spsc \<Rightarrow> 'a option \<times> 'a spsc" where
  "try_pop cap q =
     (let r = read_index q;
          w = write_index q
      in if r = w then (None, q)
         else (Some (storage q ! r), q\<lparr>read_index := spsc_next cap r\<rparr>))"

definition spsc_reset :: "'a spsc \<Rightarrow> 'a spsc" where
  "spsc_reset q = q\<lparr>read_index := 0, write_index := 0\<rparr>"

definition approximate_size :: "nat \<Rightarrow> 'a spsc \<Rightarrow> nat" where
  "approximate_size cap q = spsc_distance cap (read_index q) (write_index q)"

section \<open>Index arithmetic\<close>

lemma spsc_next_mod [ring_simps]: "i < cap \<Longrightarrow> spsc_next cap i = Suc i mod cap"
  by (auto simp: spsc_next_def Let_def)

lemma spsc_next_less: "0 < cap \<Longrightarrow> i < cap \<Longrightarrow> spsc_next cap i < cap"
  by (simp add: ring_simps)

lemma spsc_next_abs: "0 < cap \<Longrightarrow> spsc_next cap (n mod cap) = Suc n mod cap"
  by (simp add: ring_simps mod_Suc_eq)

lemma mod_add_small:
  fixes r d cap :: nat
  assumes "r < cap" and "d < cap"
  shows "(r + d) mod cap = (if r + d < cap then r + d else r + d - cap)"
  using assms by (simp add: mod_if)

lemma spsc_distance_abs [ring_simps]:
  assumes "d < cap"
  shows "spsc_distance cap (n mod cap) ((n + d) mod cap) = d"
proof -
  have r: "n mod cap < cap" using assms by simp
  have "(n + d) mod cap = (n mod cap + d) mod cap" by (simp add: mod_add_left_eq)
  also have "\<dots> = (if n mod cap + d < cap then n mod cap + d else n mod cap + d - cap)"
    using r assms by (rule mod_add_small)
  finally show ?thesis using r assms by (auto simp: spsc_distance_def)
qed

lemma spsc_distance_less: "r < cap \<Longrightarrow> w < cap \<Longrightarrow> spsc_distance cap r w < cap"
  by (auto simp: spsc_distance_def)

lemma spsc_distance_0: "r < cap \<Longrightarrow> w < cap \<Longrightarrow> spsc_distance cap r w = 0 \<longleftrightarrow> r = w"
  by (auto simp: spsc_distance_def)

lemma spsc_write_pos:
  "r < cap \<Longrightarrow> w < cap \<Longrightarrow> (r + spsc_distance cap r w) mod cap = w"
  by (auto simp: spsc_distance_def)

lemma ring_slot_inj:
  fixes i j n cap :: nat
  assumes "(n + i) mod cap = (n + j) mod cap" and "i < cap" and "j < cap"
  shows "i = j"
  using assms by (metis spsc_distance_abs)

section \<open>The queue as a list\<close>

definition spsc_inv :: "nat \<Rightarrow> nat \<Rightarrow> 'a spsc \<Rightarrow> bool" where
  "spsc_inv cap md q \<longleftrightarrow>
     1 < cap \<and> 0 < md \<and> md < cap \<and> length (storage q) = cap \<and>
     read_index q < cap \<and> write_index q < cap \<and>
     spsc_distance cap (read_index q) (write_index q) \<le> md"

definition spsc_list :: "nat \<Rightarrow> 'a spsc \<Rightarrow> 'a list" where
  "spsc_list cap q =
     map (\<lambda>k. storage q ! ((read_index q + k) mod cap))
       [0..<spsc_distance cap (read_index q) (write_index q)]"

lemma length_spsc_list [simp]: "length (spsc_list cap q) = approximate_size cap q"
  by (simp add: spsc_list_def approximate_size_def)

lemma spsc_distance_next_write:
  assumes "spsc_inv cap md q" and "spsc_distance cap (read_index q) (write_index q) < md"
  shows "spsc_distance cap (read_index q) (spsc_next cap (write_index q)) =
     Suc (spsc_distance cap (read_index q) (write_index q))"
proof -
  let ?r = "read_index q" and ?w = "write_index q"
  let ?d = "spsc_distance cap ?r ?w"
  from assms have b: "?r < cap" "?w < cap" "Suc ?d < cap" by (auto simp: spsc_inv_def)
  have "spsc_next cap ?w = (?r + Suc ?d) mod cap"
    using b spsc_write_pos [of ?r cap ?w] by (simp add: ring_simps) (metis mod_Suc_eq)
  then show ?thesis using spsc_distance_abs [of "Suc ?d" cap ?r] b by simp
qed

lemma spsc_distance_next_read:
  assumes "r < cap" and "w < cap" and "r \<noteq> w"
  shows "Suc (spsc_distance cap (spsc_next cap r) w) = spsc_distance cap r w"
  using assms by (auto simp: spsc_distance_def spsc_next_def Let_def)

lemma try_push_full:
  "md \<le> approximate_size cap q \<Longrightarrow> try_push cap md v q = (False, None, q)"
  by (simp add: try_push_def approximate_size_def)

lemma try_push_ok:
  assumes inv: "spsc_inv cap md q" and room: "approximate_size cap q < md"
  obtains q' where "try_push cap md v q = (True, Some (Suc (approximate_size cap q)), q')"
    and "spsc_inv cap md q'" and "spsc_list cap q' = spsc_list cap q @ [v]"
proof -
  let ?r = "read_index q" and ?w = "write_index q"
  let ?d = "spsc_distance cap ?r ?w"
  let ?q' = "q\<lparr>storage := (storage q)[?w := v], write_index := spsc_next cap ?w\<rparr>"
  from inv room have b: "?r < cap" "?w < cap" "?d < md" "?d < cap" "length (storage q) = cap"
    by (auto simp: spsc_inv_def approximate_size_def)
  have d': "spsc_distance cap ?r (spsc_next cap ?w) = Suc ?d"
    using inv b(3) by (rule spsc_distance_next_write)
  have old: "(storage q)[?w := v] ! ((?r + k) mod cap) = storage q ! ((?r + k) mod cap)"
    if "k < ?d" for k
  proof -
    have "(?r + k) mod cap \<noteq> (?r + ?d) mod cap"
      using ring_slot_inj [of ?r k cap ?d] that b(4) by auto
    then have "(?r + k) mod cap \<noteq> ?w" using spsc_write_pos [OF b(1,2)] by simp
    then show ?thesis by simp
  qed
  have "spsc_list cap ?q' = spsc_list cap q @ [v]"
    using old b spsc_write_pos [OF b(1,2)] by (simp add: spsc_list_def d')
  moreover have "spsc_inv cap md ?q'"
    using inv b d' by (simp add: spsc_inv_def spsc_next_less)
  moreover have "try_push cap md v q = (True, Some (Suc (approximate_size cap q)), ?q')"
    using b by (simp add: try_push_def approximate_size_def Let_def)
  ultimately show ?thesis using that by simp
qed

lemma try_pop_empty:
  assumes "spsc_inv cap md q" and "spsc_list cap q = []"
  shows "try_pop cap q = (None, q)"
proof -
  have "spsc_distance cap (read_index q) (write_index q) = 0"
    using arg_cong [OF assms(2), of length] by (simp add: approximate_size_def)
  with assms(1) have "read_index q = write_index q"
    by (auto simp: spsc_inv_def spsc_distance_0)
  then show ?thesis by (simp add: try_pop_def)
qed

lemma try_pop_ok:
  assumes inv: "spsc_inv cap md q" and xs: "spsc_list cap q = x # xs"
  obtains q' where "try_pop cap q = (Some x, q')" and "spsc_inv cap md q'" and "spsc_list cap q' = xs"
proof -
  let ?r = "read_index q" and ?w = "write_index q"
  let ?q' = "q\<lparr>read_index := spsc_next cap ?r\<rparr>"
  from inv have b: "?r < cap" "?w < cap" "0 < cap" by (auto simp: spsc_inv_def)
  have "?r \<noteq> ?w" using xs by (auto simp: spsc_list_def spsc_distance_def)
  note d = spsc_distance_next_read [OF b(1,2) this]
  have step: "(spsc_next cap ?r + k) mod cap = (?r + Suc k) mod cap" for k
    using b by (simp add: ring_simps) (metis add_Suc_right mod_add_left_eq add_Suc)
  have "spsc_list cap q = storage q ! ?r # spsc_list cap ?q'"
    unfolding spsc_list_def d [symmetric]
    using b by (simp add: upt_conv_Cons map_Suc_upt [symmetric] step del: upt_Suc)
  with xs have "x = storage q ! ?r" and "spsc_list cap ?q' = xs" by auto
  moreover have "try_pop cap q = (Some (storage q ! ?r), ?q')"
    using \<open>?r \<noteq> ?w\<close> by (simp add: try_pop_def Let_def)
  moreover have "spsc_inv cap md ?q'"
    using inv b d by (auto simp: spsc_inv_def spsc_next_less)
  ultimately show ?thesis using that by simp
qed

section \<open>The contract of the packet loop\<close>

text \<open>
  The calls the receive thread and the processing thread make, as one sequence; the outcome
  of each call; and the abstract queue, a list of at most \<open>depth\<close> elements.
\<close>

datatype 'a qop = QPush 'a | QPop | QReset

datatype 'a qres = Pushed bool "nat option" | Popped "'a option" | ResetDone

fun queue_run ::
  "('a \<Rightarrow> 's \<Rightarrow> bool \<times> nat option \<times> 's) \<Rightarrow> ('s \<Rightarrow> 'a option \<times> 's) \<Rightarrow> ('s \<Rightarrow> 's) \<Rightarrow>
   'a qop list \<Rightarrow> 's \<Rightarrow> 'a qres list \<times> 's" where
  "queue_run push pop reset [] s = ([], s)"
| "queue_run push pop reset (QPush v # ops) s =
     (let (ok, n, s') = push v s; (rs, t) = queue_run push pop reset ops s'
      in (Pushed ok n # rs, t))"
| "queue_run push pop reset (QPop # ops) s =
     (let (v, s') = pop s; (rs, t) = queue_run push pop reset ops s'
      in (Popped v # rs, t))"
| "queue_run push pop reset (QReset # ops) s =
     (let (rs, t) = queue_run push pop reset ops (reset s)
      in (ResetDone # rs, t))"

definition list_push :: "nat \<Rightarrow> 'a \<Rightarrow> 'a list \<Rightarrow> bool \<times> nat option \<times> 'a list" where
  "list_push depth v xs =
     (if length xs < depth then (True, Some (Suc (length xs)), xs @ [v]) else (False, None, xs))"

definition list_pop :: "'a list \<Rightarrow> 'a option \<times> 'a list" where
  "list_pop xs = (case xs of [] \<Rightarrow> (None, []) | y # ys \<Rightarrow> (Some y, ys))"

locale bounded_fifo =
  fixes inv :: "'s \<Rightarrow> bool"
    and content :: "'s \<Rightarrow> 'a list"
    and push :: "'a \<Rightarrow> 's \<Rightarrow> bool \<times> nat option \<times> 's"
    and pop :: "'s \<Rightarrow> 'a option \<times> 's"
    and reset :: "'s \<Rightarrow> 's"
    and depth :: nat
  assumes content_bound: "inv s \<Longrightarrow> length (content s) \<le> depth"
    and push_full: "inv s \<Longrightarrow> depth \<le> length (content s) \<Longrightarrow> push v s = (False, None, s)"
    and push_room: "inv s \<Longrightarrow> length (content s) < depth \<Longrightarrow>
      \<exists>s'. push v s = (True, Some (Suc (length (content s))), s') \<and> inv s' \<and>
           content s' = content s @ [v]"
    and pop_empty: "inv s \<Longrightarrow> content s = [] \<Longrightarrow> pop s = (None, s)"
    and pop_Cons: "inv s \<Longrightarrow> content s = x # xs \<Longrightarrow>
      \<exists>s'. pop s = (Some x, s') \<and> inv s' \<and> content s' = xs"
    and reset_empty: "inv s \<Longrightarrow> inv (reset s) \<and> content (reset s) = []"
begin

lemma push_simulates:
  assumes "inv s" and "push v s = (ok, n, s')"
  shows "inv s' \<and> list_push depth v (content s) = (ok, n, content s')"
proof (cases "length (content s) < depth")
  case True
  then show ?thesis using push_room [OF assms(1) True, of v] assms(2) by (auto simp: list_push_def)
next
  case False
  then show ?thesis using push_full [OF assms(1), of v] assms by (auto simp: list_push_def)
qed

lemma pop_simulates:
  assumes "inv s" and "pop s = (v, s')"
  shows "inv s' \<and> list_pop (content s) = (v, content s')"
proof (cases "content s")
  case Nil
  then show ?thesis using pop_empty [OF assms(1) Nil] assms by (auto simp: list_pop_def)
next
  case (Cons x xs)
  then show ?thesis using pop_Cons [OF assms(1) Cons] assms by (auto simp: list_pop_def)
qed

lemma run_simulates:
  assumes "inv s" and "queue_run push pop reset ops s = (rs, t)"
  shows "inv t \<and> queue_run (list_push depth) list_pop (\<lambda>_. []) ops (content s) = (rs, content t)"
  using assms
proof (induction ops arbitrary: s rs)
  case (Cons op ops)
  show ?case
  proof (cases op)
    case (QPush v)
    obtain ok n s' where p: "push v s = (ok, n, s')" by (cases "push v s") auto
    obtain rs' where r: "queue_run push pop reset ops s' = (rs', t)" "rs = Pushed ok n # rs'"
      using Cons.prems(2) by (auto simp: QPush p split: prod.splits)
    show ?thesis
      using push_simulates [OF Cons.prems(1) p] Cons.IH [OF _ r(1)] by (auto simp: QPush r(2))
  next
    case QPop
    obtain v s' where p: "pop s = (v, s')" by (cases "pop s") auto
    obtain rs' where r: "queue_run push pop reset ops s' = (rs', t)" "rs = Popped v # rs'"
      using Cons.prems(2) by (auto simp: QPop p split: prod.splits)
    show ?thesis
      using pop_simulates [OF Cons.prems(1) p] Cons.IH [OF _ r(1)] by (auto simp: QPop r(2))
  next
    case QReset
    obtain rs' where r: "queue_run push pop reset ops (reset s) = (rs', t)" "rs = ResetDone # rs'"
      using Cons.prems(2) by (auto simp: QReset split: prod.splits)
    show ?thesis
      using reset_empty [OF Cons.prems(1)] Cons.IH [OF _ r(1)] by (auto simp: QReset r(2))
  qed
qed auto

end

text \<open>The template instance, static assertions included, as a predicate on queues.\<close>

lemma spsc_new_inv:
  assumes "0 < md" and "md < cap"
  shows "spsc_inv cap md (spsc_new cap v)" and "spsc_list cap (spsc_new cap v) = []"
  using assms by (simp_all add: spsc_inv_def spsc_new_def spsc_list_def spsc_distance_def)

lemma spsc_reset_ok:
  "spsc_inv cap md q \<Longrightarrow> spsc_inv cap md (spsc_reset q) \<and> spsc_list cap (spsc_reset q) = []"
  by (simp add: spsc_inv_def spsc_reset_def spsc_list_def spsc_distance_def)

interpretation packetq: bounded_fifo
  "spsc_inv cap md" "spsc_list cap" "try_push cap md" "try_pop cap" spsc_reset md
  for cap md
proof unfold_locales
  fix q :: "'a spsc" and v x :: 'a and xs
  assume inv: "spsc_inv cap md q"
  then show "length (spsc_list cap q) \<le> md" by (simp add: spsc_inv_def approximate_size_def)
  show "md \<le> length (spsc_list cap q) \<Longrightarrow> try_push cap md v q = (False, None, q)"
    by (simp add: try_push_full)
  show "length (spsc_list cap q) < md \<Longrightarrow>
      \<exists>s'. try_push cap md v q = (True, Some (Suc (length (spsc_list cap q))), s') \<and>
           spsc_inv cap md s' \<and> spsc_list cap s' = spsc_list cap q @ [v]"
    using try_push_ok [OF inv, of v] by (metis length_spsc_list)
  show "spsc_list cap q = [] \<Longrightarrow> try_pop cap q = (None, q)" by (rule try_pop_empty [OF inv])
  show "spsc_list cap q = x # xs \<Longrightarrow>
      \<exists>s'. try_pop cap q = (Some x, s') \<and> spsc_inv cap md s' \<and> spsc_list cap s' = xs"
    using try_pop_ok [OF inv] by metis
  show "spsc_inv cap md (spsc_reset q) \<and> spsc_list cap (spsc_reset q) = []"
    by (rule spsc_reset_ok [OF inv])
qed

text \<open>
  C11. Refinement of the sequential queue: for any template arguments that pass the static
  assertions and any sequence of \<^verbatim>\<open>try_push\<close>, \<^verbatim>\<open>try_pop\<close> and \<^verbatim>\<open>reset\<close> calls on a fresh
  queue, every call returns what the abstract bounded list returns (a push is accepted exactly
  when fewer than \<open>md\<close> elements wait, and then reports the new size; a pop returns the
  oldest element), the ring holds exactly the abstract list afterwards, and at most \<open>md\<close>
  elements wait.
\<close>

theorem spsc_refines_bounded_list:
  assumes "0 < md" and "md < cap"
    and "queue_run (try_push cap md) (try_pop cap) spsc_reset ops (spsc_new cap v0) = (rs, q)"
  shows "queue_run (list_push md) list_pop (\<lambda>_. []) ops [] = (rs, spsc_list cap q) \<and>
    approximate_size cap q = length (spsc_list cap q) \<and> length (spsc_list cap q) \<le> md"
  using packetq.run_simulates [OF spsc_new_inv(1) [OF assms(1,2)] assms(3)]
    spsc_new_inv(2) [OF assms(1,2), of v0] packetq.content_bound
  by auto

theorem spsc_refines_bounded_list_witness:
  "queue_run (list_push 2) list_pop (\<lambda>_. []) [QPush 7, QPush 8, QPush 9, QPop, QPush (5::nat)] [] =
     ([Pushed True (Some 1), Pushed True (Some 2), Pushed False None, Popped (Some 7),
       Pushed True (Some 2)], [8, 5]) \<and>
   approximate_size 3 \<lparr>storage = [7::nat, 8, 5], read_index = 1, write_index = 0\<rparr> = 2"
proof -
  have run: "queue_run (try_push 3 2) (try_pop 3) spsc_reset
      [QPush 7, QPush 8, QPush 9, QPop, QPush (5::nat)] (spsc_new 3 0) =
      ([Pushed True (Some 1), Pushed True (Some 2), Pushed False None, Popped (Some 7),
        Pushed True (Some 2)], \<lparr>storage = [7, 8, 5], read_index = 1, write_index = 0\<rparr>)"
    by code_simp
  have l: "spsc_list 3 \<lparr>storage = [7::nat, 8, 5], read_index = 1, write_index = 0\<rparr> = [8, 5]"
    by code_simp
  show ?thesis
    using spsc_refines_bounded_list [OF _ _ run, unfolded l] by (auto simp del: queue_run.simps)
qed

end
