(* ===== verification/Spsc_Concurrency.thy ===== *)
theory Spsc_Concurrency
  imports Spsc_Queue
begin

text \<open>
  The same queue under concurrency. Each \<^verbatim>\<open>try_push\<close> and \<^verbatim>\<open>try_pop\<close> is split into its
  memory accesses, in program order, and the accesses of the producer and of the consumer
  interleave freely. The atomics follow the C++ release/acquire rules: each index keeps its
  modification order as a list; a relaxed load by the index's only writer returns its last
  store; an acquire load of the other side's index may return \<^emph>\<open>any\<close> store that is not older
  than the one this thread has already seen, and orders everything before that store before
  what follows the load. The plain accesses to \<^verbatim>\<open>storage_\<close> are checked for data races against
  that order: \<open>last_write\<close> and \<open>last_read\<close> remember, per slot, the release store that
  publishes the latest access, and an access whose thread has not acquired that store sets
  \<open>raced\<close>.
\<close>

section \<open>Threads and memory\<close>

datatype 'a producer_pc =
  PIdle                      \<comment> \<open>outside \<^verbatim>\<open>try_push\<close>\<close>
| PCalled 'a nat             \<comment> \<open>\<^verbatim>\<open>write\<close> loaded\<close>
| PRoom 'a nat nat           \<comment> \<open>\<^verbatim>\<open>current_size < MaxDepth\<close> found\<close>
| PCopied 'a nat nat         \<comment> \<open>slot written, index not yet published\<close>

datatype 'a consumer_pc =
  CIdle
| CCalled nat                \<comment> \<open>\<^verbatim>\<open>read\<close> loaded\<close>
| CNonEmpty nat              \<comment> \<open>\<^verbatim>\<open>read != write\<close> found\<close>
| CCopied nat 'a             \<comment> \<open>slot copied out, index not yet published\<close>

record 'a conc =
  cells :: "'a list"
  rhist :: "nat list"
  whist :: "nat list"
  pview :: nat
  cview :: nat
  ppc :: "'a producer_pc"
  cpc :: "'a consumer_pc"
  last_write :: "nat \<Rightarrow> nat"
  last_read :: "nat \<Rightarrow> nat"
  raced :: bool
  pushed :: "'a list"
  popped :: "'a list"
  sizes :: "nat list"
  refused :: nat

datatype 'a action =
  PushCall 'a | PushAcquire nat | PushStore | PushRelease
| PopCall | PopAcquire nat | PopLoad | PopRelease
| StoppedReset

text \<open>
  One access. \<^term>\<open>None\<close>: the thread is not at that point of its code, or the load would
  return a store that coherence forbids. \<open>pushed\<close>, \<open>popped\<close>, \<open>sizes\<close>, \<open>refused\<close> and the
  race bookkeeping are auxiliary: no guard reads them.
\<close>

fun conc_step :: "nat \<Rightarrow> nat \<Rightarrow> 'a action \<Rightarrow> 'a conc \<Rightarrow> 'a conc option" where
  "conc_step cap md (PushCall v) s =
     (if ppc s = PIdle then Some (s\<lparr>ppc := PCalled v (last (whist s))\<rparr>) else None)"
| "conc_step cap md (PushAcquire k) s =
     (case ppc s of
        PCalled v w \<Rightarrow>
          if pview s \<le> k \<and> k < length (rhist s) then
            (let current_size = spsc_distance cap (rhist s ! k) w in
             if md \<le> current_size
             then Some (s\<lparr>pview := k, ppc := PIdle, refused := Suc (refused s)\<rparr>)
             else Some (s\<lparr>pview := k, ppc := PRoom v w current_size\<rparr>))
          else None
      | _ \<Rightarrow> None)"
| "conc_step cap md PushStore s =
     (case ppc s of
        PRoom v w n \<Rightarrow>
          Some (s\<lparr>cells := (cells s)[w := v],
                  raced := (raced s \<or> pview s < last_read s w),
                  last_write := (last_write s)(w := length (whist s)),
                  ppc := PCopied v w n\<rparr>)
      | _ \<Rightarrow> None)"
| "conc_step cap md PushRelease s =
     (case ppc s of
        PCopied v w n \<Rightarrow>
          Some (s\<lparr>whist := whist s @ [spsc_next cap w], ppc := PIdle,
                  pushed := pushed s @ [v], sizes := sizes s @ [n + 1]\<rparr>)
      | _ \<Rightarrow> None)"
| "conc_step cap md PopCall s =
     (if cpc s = CIdle then Some (s\<lparr>cpc := CCalled (last (rhist s))\<rparr>) else None)"
| "conc_step cap md (PopAcquire k) s =
     (case cpc s of
        CCalled r \<Rightarrow>
          if cview s \<le> k \<and> k < length (whist s) then
            (if r = whist s ! k
             then Some (s\<lparr>cview := k, cpc := CIdle\<rparr>)
             else Some (s\<lparr>cview := k, cpc := CNonEmpty r\<rparr>))
          else None
      | _ \<Rightarrow> None)"
| "conc_step cap md PopLoad s =
     (case cpc s of
        CNonEmpty r \<Rightarrow>
          Some (s\<lparr>cpc := CCopied r (cells s ! r),
                  raced := (raced s \<or> cview s < last_write s r),
                  last_read := (last_read s)(r := length (rhist s))\<rparr>)
      | _ \<Rightarrow> None)"
| "conc_step cap md PopRelease s =
     (case cpc s of
        CCopied r v \<Rightarrow>
          Some (s\<lparr>rhist := rhist s @ [spsc_next cap r], cpc := CIdle,
                  popped := popped s @ [v]\<rparr>)
      | _ \<Rightarrow> None)"
| "conc_step cap md StoppedReset s =
     (if ppc s = PIdle \<and> cpc s = CIdle
      then Some (s\<lparr>rhist := [0], whist := [0], pview := 0, cview := 0,
                   last_write := (\<lambda>_. 0), last_read := (\<lambda>_. 0), pushed := [], popped := [],
                   sizes := []\<rparr>)
      else None)"

definition conc_init :: "nat \<Rightarrow> 'a \<Rightarrow> 'a conc" where
  "conc_init cap v =
     \<lparr>cells = replicate cap v, rhist = [0], whist = [0], pview = 0, cview = 0,
      ppc = PIdle, cpc = CIdle, last_write = (\<lambda>_. 0), last_read = (\<lambda>_. 0), raced = False,
      pushed = [], popped = [], sizes = [], refused = 0\<rparr>"

fun conc_run :: "nat \<Rightarrow> nat \<Rightarrow> 'a action list \<Rightarrow> 'a conc \<Rightarrow> 'a conc option" where
  "conc_run cap md [] s = Some s"
| "conc_run cap md (a # as) s = Option.bind (conc_step cap md a s) (conc_run cap md as)"

inductive conc_reach :: "nat \<Rightarrow> nat \<Rightarrow> 'a conc \<Rightarrow> bool" for cap md where
  start: "conc_reach cap md (conc_init cap v)"
| step: "conc_reach cap md s \<Longrightarrow> conc_step cap md a s = Some t \<Longrightarrow> conc_reach cap md t"

section \<open>The invariant\<close>

text \<open>
  Counting stores instead of reducing them modulo the capacity: \<open>rcount\<close> and \<open>wcount\<close> are
  the numbers of completed pops and pushes since the last reset.
\<close>

abbreviation rcount :: "'a conc \<Rightarrow> nat" where "rcount s \<equiv> length (rhist s) - 1"
abbreviation wcount :: "'a conc \<Rightarrow> nat" where "wcount s \<equiv> length (whist s) - 1"

definition ring_hist :: "nat \<Rightarrow> nat list \<Rightarrow> bool" where
  "ring_hist cap h \<longleftrightarrow> h \<noteq> [] \<and> (\<forall>i < length h. h ! i = i mod cap)"

definition counts_inv :: "nat \<Rightarrow> 'a conc \<Rightarrow> bool" where
  "counts_inv md s \<longleftrightarrow>
     rcount s \<le> wcount s \<and> pview s \<le> rcount s \<and> rcount s \<le> cview s \<and> cview s \<le> wcount s \<and>
     wcount s \<le> pview s + md"

definition data_inv :: "nat \<Rightarrow> 'a conc \<Rightarrow> bool" where
  "data_inv cap s \<longleftrightarrow>
     length (cells s) = cap \<and> length (pushed s) = wcount s \<and> popped s = take (rcount s) (pushed s) \<and>
     (\<forall>i. rcount s \<le> i \<and> i < wcount s \<longrightarrow> cells s ! (i mod cap) = pushed s ! i)"

fun producer_inv :: "nat \<Rightarrow> nat \<Rightarrow> nat \<Rightarrow> nat \<Rightarrow> 'a list \<Rightarrow> 'a producer_pc \<Rightarrow> bool" where
  "producer_inv cap md wc pv cs PIdle \<longleftrightarrow> True"
| "producer_inv cap md wc pv cs (PCalled v w) \<longleftrightarrow> w = wc mod cap"
| "producer_inv cap md wc pv cs (PRoom v w n) \<longleftrightarrow> w = wc mod cap \<and> wc = pv + n \<and> n < md"
| "producer_inv cap md wc pv cs (PCopied v w n) \<longleftrightarrow>
     w = wc mod cap \<and> wc = pv + n \<and> n < md \<and> cs ! w = v"

fun consumer_inv :: "nat \<Rightarrow> nat \<Rightarrow> nat \<Rightarrow> 'a list \<Rightarrow> 'a consumer_pc \<Rightarrow> bool" where
  "consumer_inv cap rc cv hs CIdle \<longleftrightarrow> True"
| "consumer_inv cap rc cv hs (CCalled r) \<longleftrightarrow> r = rc mod cap"
| "consumer_inv cap rc cv hs (CNonEmpty r) \<longleftrightarrow> r = rc mod cap \<and> rc < cv"
| "consumer_inv cap rc cv hs (CCopied r v) \<longleftrightarrow> r = rc mod cap \<and> rc < cv \<and> v = hs ! rc"

fun p_mid :: "'a producer_pc \<Rightarrow> bool" where
  "p_mid (PCopied v w n) = True" | "p_mid pc = False"

fun c_mid :: "'a consumer_pc \<Rightarrow> bool" where
  "c_mid (CCopied r v) = True" | "c_mid pc = False"

text \<open>
  The access stamps: a non-zero stamp \<open>k\<close> of slot \<open>j\<close> is the access of element \<open>k - 1\<close>,
  which lives in that slot and is already published, or is the one being published.
\<close>

definition stamp_inv :: "nat \<Rightarrow> (nat \<Rightarrow> nat) \<Rightarrow> nat \<Rightarrow> bool \<Rightarrow> bool" where
  "stamp_inv cap stamp n mid \<longleftrightarrow>
     (\<forall>j k. stamp j = Suc k \<longrightarrow> k mod cap = j \<and> (k < n \<or> k = n \<and> mid))"

definition conc_inv :: "nat \<Rightarrow> nat \<Rightarrow> 'a conc \<Rightarrow> bool" where
  "conc_inv cap md s \<longleftrightarrow>
     1 < cap \<and> 0 < md \<and> md < cap \<and> ring_hist cap (rhist s) \<and> ring_hist cap (whist s) \<and>
     counts_inv md s \<and> data_inv cap s \<and>
     producer_inv cap md (wcount s) (pview s) (cells s) (ppc s) \<and>
     consumer_inv cap (rcount s) (cview s) (pushed s) (cpc s) \<and>
     stamp_inv cap (last_write s) (wcount s) (p_mid (ppc s)) \<and>
     stamp_inv cap (last_read s) (rcount s) (c_mid (cpc s)) \<and>
     \<not> raced s \<and> list_all (\<lambda>n. n \<le> md) (sizes s)"

lemma mod_window:
  fixes a b cap :: nat
  assumes "a mod cap = b mod cap" and "a \<le> b" and "b < a + cap"
  shows "a = b"
  using assms ring_slot_inj [of a 0 cap "b - a"] by (cases "b - a < cap") auto

lemma ring_hist_snoc:
  assumes "ring_hist cap h" and "0 < cap"
  shows "ring_hist cap (h @ [spsc_next cap ((length h - 1) mod cap)])"
proof -
  have "spsc_next cap ((length h - 1) mod cap) = length h mod cap"
    using assms spsc_next_abs [of cap "length h - 1"] by (simp add: ring_hist_def)
  with assms(1) show ?thesis by (auto simp: ring_hist_def nth_append less_Suc_eq)
qed

lemma ring_hist_last: "ring_hist cap h \<Longrightarrow> last h = (length h - 1) mod cap"
  by (simp add: ring_hist_def last_conv_nth)

lemma ring_hist_nth: "ring_hist cap h \<Longrightarrow> k < length h \<Longrightarrow> h ! k = k mod cap"
  by (simp add: ring_hist_def)

lemma ring_hist_pos: "ring_hist cap h \<Longrightarrow> length h = Suc (length h - 1)"
  by (cases h) (auto simp: ring_hist_def)

lemma stamp_inv_enter: "stamp_inv cap f n False \<Longrightarrow> stamp_inv cap (f(n mod cap := Suc n)) n True"
  by (auto simp: stamp_inv_def split: if_splits)

lemma stamp_inv_leave: "stamp_inv cap f n True \<Longrightarrow> stamp_inv cap f (Suc n) False"
  by (auto simp: stamp_inv_def less_Suc_eq)

lemma conc_inv_init: "0 < md \<Longrightarrow> md < cap \<Longrightarrow> conc_inv cap md (conc_init cap v)"
  by (simp add: conc_inv_def conc_init_def ring_hist_def counts_inv_def data_inv_def stamp_inv_def)

lemma conc_inv_PushCall:
  assumes "conc_inv cap md s" and "conc_step cap md (PushCall v) s = Some t"
  shows "conc_inv cap md t"
proof -
  from assms(2) have t: "ppc s = PIdle" "t = s\<lparr>ppc := PCalled v (last (whist s))\<rparr>"
    by (simp_all split: if_splits)
  moreover have "last (whist s) = wcount s mod cap"
    using assms(1) by (intro ring_hist_last) (simp add: conc_inv_def)
  ultimately show ?thesis using assms(1)
    by (simp add: conc_inv_def counts_inv_def data_inv_def)
qed

lemma conc_inv_PopCall:
  assumes "conc_inv cap md s" and "conc_step cap md PopCall s = Some t"
  shows "conc_inv cap md t"
proof -
  from assms(2) have t: "cpc s = CIdle" "t = s\<lparr>cpc := CCalled (last (rhist s))\<rparr>"
    by (simp_all split: if_splits)
  moreover have "last (rhist s) = rcount s mod cap"
    using assms(1) by (intro ring_hist_last) (simp add: conc_inv_def)
  ultimately show ?thesis using assms(1)
    by (simp add: conc_inv_def counts_inv_def data_inv_def)
qed

text \<open>What the producer computes from a stale index is the distance to the stale store.\<close>

lemma stale_distance:
  assumes "conc_inv cap md s" and "pview s \<le> k" and "k < length (rhist s)"
  shows "spsc_distance cap (rhist s ! k) (wcount s mod cap) = wcount s - k \<and> k \<le> wcount s \<and>
    wcount s \<le> k + md"
proof -
  from assms have b: "k \<le> wcount s" "wcount s \<le> k + md" "md < cap" "ring_hist cap (rhist s)"
    using ring_hist_pos [of cap "rhist s"] by (auto simp: conc_inv_def counts_inv_def)
  then have "spsc_distance cap (k mod cap) ((k + (wcount s - k)) mod cap) = wcount s - k"
    by (intro spsc_distance_abs) simp
  then have "spsc_distance cap (k mod cap) (wcount s mod cap) = wcount s - k"
    using b(1) by (metis le_add_diff_inverse)
  with b show ?thesis using ring_hist_nth [OF b(4) assms(3)] by simp
qed

lemma conc_inv_PushAcquire:
  assumes "conc_inv cap md s" and "conc_step cap md (PushAcquire k) s = Some t"
  shows "conc_inv cap md t"
proof -
  from assms(2) obtain v w where c: "ppc s = PCalled v w" "pview s \<le> k" "k < length (rhist s)"
    by (auto split: producer_pc.splits if_splits)
  note d = stale_distance [OF assms(1) c(2,3)]
  have w: "w = wcount s mod cap" using assms(1) c(1) by (simp add: conc_inv_def)
  have k: "k \<le> rcount s" using c(3) by simp
  show ?thesis
  proof (cases "md \<le> wcount s - k")
    case True
    then have "t = s\<lparr>pview := k, ppc := PIdle, refused := Suc (refused s)\<rparr>"
      using assms(2) c d w by simp
    with assms(1) c d k show ?thesis by (simp add: conc_inv_def counts_inv_def data_inv_def)
  next
    case False
    then have "t = s\<lparr>pview := k, ppc := PRoom v w (wcount s - k)\<rparr>"
      using assms(2) c d w by simp
    moreover have "length (whist s) - Suc 0 = k + (length (whist s) - Suc k)" using d by linarith
    ultimately show ?thesis using assms(1) c d k w False
      by (simp add: conc_inv_def counts_inv_def data_inv_def)
  qed
qed

lemma conc_inv_PopAcquire:
  assumes "conc_inv cap md s" and "conc_step cap md (PopAcquire k) s = Some t"
  shows "conc_inv cap md t"
proof -
  from assms(2) obtain r where c: "cpc s = CCalled r" "cview s \<le> k" "k < length (whist s)"
    by (auto split: consumer_pc.splits if_splits)
  have k: "rcount s \<le> k" "k \<le> wcount s" "whist s ! k = k mod cap" "r = rcount s mod cap"
    using assms(1) c by (auto simp: conc_inv_def counts_inv_def ring_hist_nth)
  show ?thesis
  proof (cases "r = whist s ! k")
    case True
    then have "t = s\<lparr>cview := k, cpc := CIdle\<rparr>" using assms(2) c by simp
    with assms(1) c k show ?thesis by (simp add: conc_inv_def counts_inv_def data_inv_def)
  next
    case False
    then have "t = s\<lparr>cview := k, cpc := CNonEmpty r\<rparr>" using assms(2) c by simp
    moreover have "rcount s < k" using False k by (cases "rcount s = k") auto
    ultimately show ?thesis using assms(1) c k
      by (simp add: conc_inv_def counts_inv_def data_inv_def)
  qed
qed

text \<open>
  The two plain accesses: the slot the producer writes holds no live element and its last
  reader is already acquired; the slot the consumer reads was last written by the push the
  consumer has acquired.
\<close>

lemma push_store_safe:
  assumes inv: "conc_inv cap md s" and c: "ppc s = PRoom v w n"
  shows "last_read s w \<le> pview s"
    and "\<And>i. rcount s \<le> i \<Longrightarrow> i < wcount s \<Longrightarrow> i mod cap \<noteq> w"
proof -
  from inv c have b: "w = wcount s mod cap" "wcount s = pview s + n" "n < md" "md < cap"
    "rcount s \<le> wcount s" "pview s \<le> rcount s" "cview s \<le> wcount s"
    "stamp_inv cap (last_read s) (rcount s) (c_mid (cpc s))"
    "consumer_inv cap (rcount s) (cview s) (pushed s) (cpc s)"
    by (auto simp: conc_inv_def counts_inv_def)
  show "last_read s w \<le> pview s"
  proof (cases "last_read s w")
    case (Suc k)
    with b(8) have k: "k mod cap = wcount s mod cap" "k < rcount s \<or> k = rcount s \<and> c_mid (cpc s)"
      unfolding stamp_inv_def b(1) by auto
    have "k < wcount s"
      using k(2) b(5,7,9) by (cases "cpc s") auto
    with k(1) mod_window [of k cap "wcount s"] have "k + cap \<le> wcount s" by force
    with b Suc show ?thesis by linarith
  qed simp
  show "i mod cap \<noteq> w" if "rcount s \<le> i" "i < wcount s" for i
    using mod_window [of i cap "wcount s"] that b by auto
qed

lemma pop_load_safe:
  assumes inv: "conc_inv cap md s" and c: "cpc s = CNonEmpty r"
  shows "last_write s r \<le> cview s" and "cells s ! r = pushed s ! rcount s"
proof -
  from inv c have b: "r = rcount s mod cap" "rcount s < cview s" "cview s \<le> wcount s"
    "wcount s \<le> pview s + md" "pview s \<le> rcount s" "md < cap"
    "stamp_inv cap (last_write s) (wcount s) (p_mid (ppc s))" "data_inv cap s"
    by (auto simp: conc_inv_def counts_inv_def)
  then show "cells s ! r = pushed s ! rcount s" by (simp add: data_inv_def)
  show "last_write s r \<le> cview s"
  proof (cases "last_write s r")
    case (Suc k)
    with b(7) have k: "rcount s mod cap = k mod cap" "k \<le> wcount s"
      unfolding stamp_inv_def b(1) by fastforce+
    have "k \<le> rcount s"
      using mod_window [OF k(1)] k(2) b by (cases "k \<le> rcount s") auto
    with b(2) Suc show ?thesis by simp
  qed simp
qed

lemma conc_inv_PushStore:
  assumes inv: "conc_inv cap md s" and "conc_step cap md PushStore s = Some t"
  shows "conc_inv cap md t"
proof -
  from assms(2) obtain v w n where c: "ppc s = PRoom v w n"
    and t: "t = s\<lparr>cells := (cells s)[w := v], raced := (raced s \<or> pview s < last_read s w),
              last_write := (last_write s)(w := length (whist s)), ppc := PCopied v w n\<rparr>"
    by (auto split: producer_pc.splits)
  note safe = push_store_safe [OF inv c]
  have w: "w = wcount s mod cap" "length (cells s) = cap" "0 < cap"
    "length (whist s) = Suc (wcount s)"
    using inv c ring_hist_pos [of cap "whist s"] by (auto simp: conc_inv_def data_inv_def)
  have "stamp_inv cap ((last_write s)(w := length (whist s))) (wcount s) True"
    using inv c stamp_inv_enter [of cap "last_write s" "wcount s"] w by (simp add: conc_inv_def)
  moreover have "(cells s)[w := v] ! (i mod cap) = cells s ! (i mod cap)"
    if "rcount s \<le> i" "i < wcount s" for i
    using safe(2) [OF that] by simp
  then have "data_inv cap t"
    using inv by (simp add: conc_inv_def data_inv_def t)
  ultimately show ?thesis
    using inv c safe(1) w by (simp add: conc_inv_def counts_inv_def t)
qed

lemma conc_inv_PushRelease:
  assumes inv: "conc_inv cap md s" and "conc_step cap md PushRelease s = Some t"
  shows "conc_inv cap md t"
proof -
  from assms(2) obtain v w n where c: "ppc s = PCopied v w n"
    and t: "t = s\<lparr>whist := whist s @ [spsc_next cap w], ppc := PIdle,
              pushed := pushed s @ [v], sizes := sizes s @ [n + 1]\<rparr>"
    by (auto split: producer_pc.splits)
  have w: "w = wcount s mod cap" "wcount s = pview s + n" "n < md" "cells s ! w = v"
    "length (whist s) = Suc (wcount s)" "0 < cap" "length (pushed s) = wcount s"
    using inv c ring_hist_pos [of cap "whist s"] by (auto simp: conc_inv_def data_inv_def)
  have h: "ring_hist cap (whist s @ [spsc_next cap w])"
    using inv ring_hist_snoc [of cap "whist s"] w(1,6) by (simp add: conc_inv_def)
  have n: "length (whist t) - 1 = Suc (wcount s)" using w(5) by (simp add: t)
  have st: "stamp_inv cap (last_write s) (Suc (wcount s)) False"
    using inv unfolding conc_inv_def c p_mid.simps by (blast intro: stamp_inv_leave)
  have "consumer_inv cap (rcount s) (cview s) (pushed s @ [v]) (cpc s)"
    using inv w(7) by (cases "cpc s") (auto simp: conc_inv_def counts_inv_def nth_append)
  moreover have "counts_inv md t"
    using inv n w(2,3) by (simp add: conc_inv_def counts_inv_def t)
  moreover have "data_inv cap t"
    using inv n w by (auto simp: conc_inv_def counts_inv_def data_inv_def t nth_append less_Suc_eq)
  ultimately show ?thesis
    using inv h n st w(3) by (simp add: conc_inv_def t)
qed

lemma conc_inv_PopLoad:
  assumes inv: "conc_inv cap md s" and "conc_step cap md PopLoad s = Some t"
  shows "conc_inv cap md t"
proof -
  from assms(2) obtain r where c: "cpc s = CNonEmpty r"
    and t: "t = s\<lparr>cpc := CCopied r (cells s ! r), raced := (raced s \<or> cview s < last_write s r),
              last_read := (last_read s)(r := length (rhist s))\<rparr>"
    by (auto split: consumer_pc.splits)
  note safe = pop_load_safe [OF inv c]
  have r: "r = rcount s mod cap" "length (rhist s) = Suc (rcount s)"
    using inv c ring_hist_pos [of cap "rhist s"] by (auto simp: conc_inv_def)
  have "stamp_inv cap ((last_read s)(r := length (rhist s))) (rcount s) True"
    using inv c stamp_inv_enter [of cap "last_read s" "rcount s"] r by (simp add: conc_inv_def)
  then show ?thesis
    using inv c safe by (simp add: conc_inv_def counts_inv_def data_inv_def t)
qed

lemma conc_inv_PopRelease:
  assumes inv: "conc_inv cap md s" and "conc_step cap md PopRelease s = Some t"
  shows "conc_inv cap md t"
proof -
  from assms(2) obtain r v where c: "cpc s = CCopied r v"
    and t: "t = s\<lparr>rhist := rhist s @ [spsc_next cap r], cpc := CIdle, popped := popped s @ [v]\<rparr>"
    by (auto split: consumer_pc.splits)
  have r: "r = rcount s mod cap" "rcount s < cview s" "v = pushed s ! rcount s"
    "length (rhist s) = Suc (rcount s)" "0 < cap" "rcount s < length (pushed s)"
    using inv c ring_hist_pos [of cap "rhist s"]
    by (auto simp: conc_inv_def counts_inv_def data_inv_def)
  have h: "ring_hist cap (rhist s @ [spsc_next cap r])"
    using inv ring_hist_snoc [of cap "rhist s"] r(1,5) by (simp add: conc_inv_def)
  have n: "length (rhist t) - 1 = Suc (rcount s)" using r(4) by (simp add: t)
  have st: "stamp_inv cap (last_read s) (Suc (rcount s)) False"
    using inv c by (intro stamp_inv_leave) (simp add: conc_inv_def)
  have "counts_inv md t"
    using inv n r(2) by (auto simp: conc_inv_def counts_inv_def t)
  moreover have "popped t = take (Suc (rcount s)) (pushed t)"
    using inv r(3,6) by (simp add: t conc_inv_def data_inv_def take_Suc_conv_app_nth)
  then have "data_inv cap t"
    using inv unfolding data_inv_def n by (simp add: conc_inv_def data_inv_def t)
  ultimately show ?thesis
    using inv h n st by (simp add: conc_inv_def t)
qed

lemma conc_inv_StoppedReset:
  assumes "conc_inv cap md s" and "conc_step cap md StoppedReset s = Some t"
  shows "conc_inv cap md t"
proof -
  from assms(2) have "ppc s = PIdle" "cpc s = CIdle"
    "t = s\<lparr>rhist := [0], whist := [0], pview := 0, cview := 0,
           last_write := (\<lambda>_. 0), last_read := (\<lambda>_. 0), pushed := [], popped := [], sizes := []\<rparr>"
    by (simp_all split: if_splits)
  with assms(1) show ?thesis
    by (simp add: conc_inv_def counts_inv_def data_inv_def ring_hist_def stamp_inv_def)
qed

lemmas conc_inv_steps =
  conc_inv_PushCall conc_inv_PushAcquire conc_inv_PushStore conc_inv_PushRelease
  conc_inv_PopCall conc_inv_PopAcquire conc_inv_PopLoad conc_inv_PopRelease
  conc_inv_StoppedReset

lemma conc_inv_step:
  "conc_inv cap md s \<Longrightarrow> conc_step cap md a s = Some t \<Longrightarrow> conc_inv cap md t"
  by (cases a) (blast intro: conc_inv_steps)+

lemma conc_reach_inv:
  assumes "conc_reach cap md s" and "0 < md" and "md < cap"
  shows "conc_inv cap md s"
  using assms by (induction rule: conc_reach.induct) (auto intro: conc_inv_init conc_inv_step simp del: conc_step.simps)

lemma conc_run_reach:
  "conc_reach cap md s \<Longrightarrow> conc_run cap md as s = Some t \<Longrightarrow> conc_reach cap md t"
  by (induction "as" arbitrary: s) (auto intro: conc_reach.step simp: bind_eq_Some_conv simp del: conc_step.simps)

section \<open>What the driver's two threads get\<close>

text \<open>
  C5. Safety of the lock-free queue: in every state reachable under any interleaving and any
  stale values the memory model permits, the values handed to the consumer are the
  first values the producer published, in order, without loss or repetition; the values still
  waiting are intact in their slots and number at most \<open>md\<close>; every reported size is at
  most \<open>md\<close>; and no access to the storage races with an access of the other thread.
\<close>

theorem spsc_concurrent_safety:
  assumes "conc_reach cap md s" and "0 < md" and "md < cap"
  shows "popped s = take (length (popped s)) (pushed s) \<and>
    map (\<lambda>i. cells s ! (i mod cap)) [length (popped s)..<length (pushed s)] =
      drop (length (popped s)) (pushed s) \<and>
    length (pushed s) \<le> length (popped s) + md \<and> list_all (\<lambda>n. n \<le> md) (sizes s) \<and> \<not> raced s"
proof -
  have inv: "conc_inv cap md s" using assms by (rule conc_reach_inv)
  then have n: "length (popped s) = rcount s" "length (pushed s) = wcount s"
    by (auto simp: conc_inv_def data_inv_def counts_inv_def)
  have "map (\<lambda>i. cells s ! (i mod cap)) [rcount s..<wcount s] = drop (rcount s) (pushed s)"
  proof (rule nth_equalityI)
    fix i assume "i < length (map (\<lambda>i. cells s ! (i mod cap)) [rcount s..<wcount s])"
    then have "rcount s + i < wcount s" by simp
    with inv n show "map (\<lambda>i. cells s ! (i mod cap)) [rcount s..<wcount s] ! i =
        drop (rcount s) (pushed s) ! i"
      by (simp add: conc_inv_def data_inv_def)
  qed (simp add: n)
  with inv n show ?thesis
    by (auto simp: conc_inv_def data_inv_def counts_inv_def)
qed

text \<open>
  Three pushes against a consumer that is in the middle of a pop, with a stale view of the read
  index in the producer: the third push is refused although the slot has just been freed.
\<close>

definition demo_actions :: "nat action list" where
  "demo_actions =
     [PushCall 7, PushAcquire 0, PushStore, PopCall, PushRelease, PopAcquire 1, PushCall 8,
      PopLoad, PushAcquire 0, PushStore, PopRelease, PushRelease, PushCall 9, PushAcquire 0]"

theorem spsc_concurrent_safety_witness:
  "conc_reach 3 2 (the (conc_run 3 2 demo_actions (conc_init 3 0))) \<and>
   popped (the (conc_run 3 2 demo_actions (conc_init 3 0))) = [7] \<and>
   cells (the (conc_run 3 2 demo_actions (conc_init 3 0))) ! 1 = 8 \<and>
   \<not> raced (the (conc_run 3 2 demo_actions (conc_init 3 0)))"
proof -
  let ?s = "the (conc_run 3 2 demo_actions (conc_init 3 0))"
  have "\<not> Option.is_none (conc_run 3 2 demo_actions (conc_init 3 0))" by code_simp
  then have some: "conc_run 3 2 demo_actions (conc_init 3 0) = Some ?s"
    by (simp add: Option.is_none_def)
  have v: "pushed ?s = [7, 8]" "popped ?s = [7]" by code_simp+
  have reach: "conc_reach 3 2 ?s" by (rule conc_run_reach [OF conc_reach.start some])
  show ?thesis
    using spsc_concurrent_safety [OF reach] v reach by simp
qed

text \<open>Steps of the producer and of the consumer, and how far a call is from its end.\<close>

fun push_action :: "'a action \<Rightarrow> bool" where
  "push_action (PushCall v) = True"
| "push_action (PushAcquire k) = True"
| "push_action PushStore = True"
| "push_action PushRelease = True"
| "push_action a = False"

fun pop_action :: "'a action \<Rightarrow> bool" where
  "pop_action PopCall = True"
| "pop_action (PopAcquire k) = True"
| "pop_action PopLoad = True"
| "pop_action PopRelease = True"
| "pop_action a = False"

fun p_left :: "'a producer_pc \<Rightarrow> nat" where
  "p_left PIdle = 0"
| "p_left (PCalled v w) = 3"
| "p_left (PRoom v w n) = 2"
| "p_left (PCopied v w n) = 1"

fun c_left :: "'a consumer_pc \<Rightarrow> nat" where
  "c_left CIdle = 0"
| "c_left (CCalled r) = 3"
| "c_left (CNonEmpty r) = 2"
| "c_left (CCopied r v) = 1"

lemma push_enabled:
  assumes "conc_inv cap md s" and "ppc s \<noteq> PIdle"
  shows "\<exists>a t. push_action a \<and> conc_step cap md a s = Some t"
proof (cases "ppc s")
  case (PCalled v w)
  have "pview s \<le> rcount s" "rcount s < length (rhist s)"
    using assms(1) ring_hist_pos [of cap "rhist s"] by (auto simp: conc_inv_def counts_inv_def)
  then have "conc_step cap md (PushAcquire (rcount s)) s \<noteq> None"
    using PCalled by (simp add: Let_def)
  then show ?thesis using push_action.simps(2) by blast
next
  case (PRoom v w n)
  then have "conc_step cap md PushStore s \<noteq> None" by simp
  then show ?thesis using push_action.simps(3) by blast
next
  case (PCopied v w n)
  then have "conc_step cap md PushRelease s \<noteq> None" by simp
  then show ?thesis using push_action.simps(4) by blast
qed (use assms(2) in simp)

lemma pop_enabled:
  assumes "conc_inv cap md s" and "cpc s \<noteq> CIdle"
  shows "\<exists>a t. pop_action a \<and> conc_step cap md a s = Some t"
proof (cases "cpc s")
  case (CCalled r)
  have "cview s \<le> wcount s" "wcount s < length (whist s)"
    using assms(1) ring_hist_pos [of cap "whist s"] by (auto simp: conc_inv_def counts_inv_def)
  then have "conc_step cap md (PopAcquire (wcount s)) s \<noteq> None"
    using CCalled by simp
  then show ?thesis using pop_action.simps(2) by blast
next
  case (CNonEmpty r)
  then have "conc_step cap md PopLoad s \<noteq> None" by simp
  then show ?thesis using pop_action.simps(3) by blast
next
  case (CCopied r v)
  then have "conc_step cap md PopRelease s \<noteq> None" by simp
  then show ?thesis using pop_action.simps(4) by blast
qed (use assms(2) in simp)

lemma push_decreases:
  assumes "conc_step cap md a s = Some t" and "push_action a" and "ppc s \<noteq> PIdle"
  shows "p_left (ppc t) < p_left (ppc s) \<and> cpc t = cpc s"
  using assms by (cases a) (auto simp: Let_def split: producer_pc.splits if_splits)

lemma pop_decreases:
  assumes "conc_step cap md a s = Some t" and "pop_action a" and "cpc s \<noteq> CIdle"
  shows "c_left (cpc t) < c_left (cpc s) \<and> ppc t = ppc s"
  using assms by (cases a) (auto simp: Let_def split: consumer_pc.splits if_splits)

text \<open>
  C28. Wait-freedom: in every reachable state a thread that is inside \<^verbatim>\<open>try_push\<close>
  (\<^verbatim>\<open>try_pop\<close>) can take its next step whatever the other thread is doing, each of its steps
  brings the call closer to its end (at most three remain after the first load), and the
  other thread's position is untouched.
\<close>

theorem spsc_wait_free:
  assumes "conc_reach cap md s" and "0 < md" and "md < cap"
  shows "(ppc s \<noteq> PIdle \<longrightarrow>
      (\<exists>a t. push_action a \<and> conc_step cap md a s = Some t) \<and> p_left (ppc s) \<le> 3 \<and>
      (\<forall>a t. push_action a \<and> conc_step cap md a s = Some t \<longrightarrow>
        p_left (ppc t) < p_left (ppc s) \<and> cpc t = cpc s)) \<and>
    (cpc s \<noteq> CIdle \<longrightarrow>
      (\<exists>a t. pop_action a \<and> conc_step cap md a s = Some t) \<and> c_left (cpc s) \<le> 3 \<and>
      (\<forall>a t. pop_action a \<and> conc_step cap md a s = Some t \<longrightarrow>
        c_left (cpc t) < c_left (cpc s) \<and> ppc t = ppc s))"
proof -
  have "p_left (ppc s) \<le> 3" by (cases "ppc s") auto
  moreover have "c_left (cpc s) \<le> 3" by (cases "cpc s") auto
  ultimately show ?thesis
    using conc_reach_inv [OF assms] push_enabled pop_enabled push_decreases pop_decreases by blast
qed

theorem spsc_wait_free_witness:
  "ppc (the (conc_run 3 2 [PushCall (7::nat), PopCall] (conc_init 3 0))) = PCalled 7 0 \<and>
   (\<exists>a t. push_action a \<and>
      conc_step 3 2 a (the (conc_run 3 2 [PushCall (7::nat), PopCall] (conc_init 3 0))) = Some t)"
proof -
  let ?s = "the (conc_run 3 2 [PushCall (7::nat), PopCall] (conc_init 3 0))"
  have "\<not> Option.is_none (conc_run 3 2 [PushCall (7::nat), PopCall] (conc_init 3 0))"
    by code_simp
  then have some: "conc_run 3 2 [PushCall (7::nat), PopCall] (conc_init 3 0) = Some ?s"
    unfolding Option.is_none_def by (rule option.collapse [symmetric])
  have pc: "ppc ?s = PCalled 7 0" by code_simp
  have reach: "conc_reach 3 2 ?s" by (rule conc_run_reach [OF conc_reach.start some])
  have "ppc ?s \<noteq> PIdle" unfolding pc by simp
  with spsc_wait_free [OF reach] have "\<exists>a t. push_action a \<and> conc_step 3 2 a ?s = Some t"
    by (simp only: zero_less_numeral numeral_less_iff less_num_simps if_True simp_thms)
  with pc show ?thesis ..
qed

text \<open>The sequential queue a concurrent state stands for when no call is in progress.\<close>

definition spsc_of :: "'a conc \<Rightarrow> 'a spsc" where
  "spsc_of s = \<lparr>storage = cells s, read_index = last (rhist s), write_index = last (whist s)\<rparr>"

definition push_alone :: "nat \<Rightarrow> nat \<Rightarrow> 'a \<Rightarrow> 'a conc \<Rightarrow> 'a action list" where
  "push_alone cap md v s =
     [PushCall v, PushAcquire (rcount s)] @
     (if md \<le> approximate_size cap (spsc_of s) then [] else [PushStore, PushRelease])"

definition pop_alone :: "'a conc \<Rightarrow> 'a action list" where
  "pop_alone s =
     [PopCall, PopAcquire (wcount s)] @
     (if last (rhist s) = last (whist s) then [] else [PopLoad, PopRelease])"

lemma hist_nth_last: "ring_hist cap h \<Longrightarrow> h ! (length h - 1) = last h"
  by (simp add: ring_hist_def last_conv_nth)

text \<open>
  The split into memory accesses agrees with the calls of theory \<open>Spsc_Queue\<close>: from every reachable state with both
  threads outside the queue, a call that runs alone and reads the newest indices does exactly
  what the one-step \<^term>\<open>try_push\<close> (\<^term>\<open>try_pop\<close>) does to the queue the state stands for,
  with the same answer.
\<close>

lemma spsc_calls_alone:
  assumes "conc_reach cap md s" and "0 < md" and "md < cap"
    and "ppc s = PIdle" and "cpc s = CIdle"
  shows "(\<exists>t. conc_run cap md (push_alone cap md v s) s = Some t \<and>
      spsc_of t = snd (snd (try_push cap md v (spsc_of s))) \<and>
      pushed t = pushed s @ (if fst (try_push cap md v (spsc_of s)) then [v] else [])) \<and>
    (\<exists>t. conc_run cap md (pop_alone s) s = Some t \<and>
      spsc_of t = snd (try_pop cap (spsc_of s)) \<and>
      popped t = popped s @ (case fst (try_pop cap (spsc_of s)) of None \<Rightarrow> [] | Some x \<Rightarrow> [x]))"
proof -
  have inv: "conc_inv cap md s" using assms(1-3) by (rule conc_reach_inv)
  then have "ring_hist cap (rhist s)" "ring_hist cap (whist s)" by (auto simp: conc_inv_def)
  note h = this [THEN hist_nth_last]
  have b: "pview s \<le> rcount s" "rcount s < length (rhist s)"
      "cview s \<le> wcount s" "wcount s < length (whist s)"
    using inv ring_hist_pos [of cap "rhist s"] ring_hist_pos [of cap "whist s"]
    by (auto simp: conc_inv_def counts_inv_def)
  show ?thesis
    using assms(4,5) h b
    by (simp add: push_alone_def pop_alone_def spsc_of_def approximate_size_def try_push_def
        try_pop_def Let_def)
qed

end
