(* ===== verification/Ieee_Floats.thy ===== *)
theory Ieee_Floats
  imports Prelude
begin

text \<open>
  The \<^verbatim>\<open>float\<close> and \<^verbatim>\<open>double\<close> arithmetic the driver computes with: IEEE 754 binary32
  and binary64, round to nearest with ties to even. A floating-point number is a NaN,
  a signed infinity, or a sign and a non-negative rational magnitude (so the two zeros
  differ); every arithmetic operation computes the exact rational result and rounds it
  once. All definitions execute on rationals.

  The laws the components rely on are the locale \<open>rounding\<close>: a rounding function is
  monotone, odd and the identity on its own results. The locale is interpreted for both
  formats, and what the timestamp guards need (a comparison of a rounded difference
  with a representable bound decides the comparison of the exact difference, up to one
  rounding) is proved once inside it.
\<close>

section \<open>Binary exponents and rounding to an integer\<close>

abbreviation pow2 :: "int \<Rightarrow> rat" where
  "pow2 e \<equiv> 2 powi e"

fun ilog2 :: "int \<Rightarrow> int" where
  "ilog2 n = (if n \<le> 1 then 0 else 1 + ilog2 (n div 2))"

declare ilog2.simps [simp del]

definition rat_expo :: "rat \<Rightarrow> int" where
  "rat_expo r =
     (let (n, d) = quotient_of r; k = ilog2 n - ilog2 d
      in if pow2 k \<le> r then k else k - 1)"

definition rne :: "rat \<Rightarrow> int" where
  "rne x =
     (let f = floor x; r = x - of_int f
      in if r < 1 / 2 then f else if 1 / 2 < r then f + 1
         else if even f then f else f + 1)"

lemma pow2_pos [simp]: "0 < pow2 e"
  by simp

lemma pow2_add: "pow2 (a + b) = pow2 a * pow2 b"
  by (simp add: power_int_add)

lemma pow2_diff: "pow2 (a - b) = pow2 a / pow2 b"
  by (simp add: power_int_diff)

lemma pow2_mono: "a \<le> b \<Longrightarrow> pow2 a \<le> pow2 b"
  by (rule power_int_increasing) simp_all

lemma pow2_strict_mono: "a < b \<Longrightarrow> pow2 a < pow2 b"
  by (rule power_int_strict_increasing) simp_all

lemma pow2_int: "0 \<le> e \<Longrightarrow> pow2 e = of_int (2 ^ nat e)"
  by (simp add: power_int_def)

lemma ilog2_nonneg: "0 \<le> ilog2 n"
proof (induction n rule: ilog2.induct)
  case (1 n)
  then show ?case by (subst ilog2.simps) auto
qed

lemma ilog2_bounds:
  "1 \<le> n \<Longrightarrow> pow2 (ilog2 n) \<le> of_int n \<and> of_int n < pow2 (ilog2 n + 1)"
proof (induction n rule: ilog2.induct)
  case (1 n)
  show ?case
  proof (cases "n \<le> 1")
    case True
    with "1.prems" have "n = 1" by simp
    then show ?thesis by (simp add: ilog2.simps)
  next
    case False
    then have IH: "pow2 (ilog2 (n div 2)) \<le> of_int (n div 2)"
      "of_int (n div 2) < pow2 (ilog2 (n div 2) + 1)"
      using "1.IH" by simp_all
    let ?k = "ilog2 (n div 2)"
    have l: "ilog2 n = 1 + ?k" using False by (simp add: ilog2.simps [of n])
    have k0: "0 \<le> ?k" by (rule ilog2_nonneg)
    have "of_int (n div 2) < (of_int (2 ^ nat (?k + 1)) :: rat)"
      using IH(2) k0 by (simp only: pow2_int [of "?k + 1", symmetric])
    then have "n div 2 + 1 \<le> 2 ^ nat (?k + 1)" by (simp only: of_int_less_iff)
    then have "2 * (n div 2 + 1) \<le> 2 * 2 ^ nat (?k + 1)" by simp
    moreover have "n < 2 * (n div 2 + 1)" by simp
    ultimately have "n < 2 * 2 ^ nat (?k + 1)" by linarith
    then have "of_int n < (of_int (2 * 2 ^ nat (?k + 1)) :: rat)" by (simp only: of_int_less_iff)
    then have u: "of_int n < 2 * pow2 (?k + 1)" using k0 by (simp add: pow2_int)
    have "2 * (n div 2) \<le> n" by simp
    then have "of_int (2 * (n div 2)) \<le> (of_int n :: rat)" by (simp only: of_int_le_iff)
    with IH(1) have "2 * pow2 ?k \<le> of_int n" by simp
    with u show ?thesis by (simp add: l pow2_add)
  qed
qed

lemma rat_expo_bounds:
  assumes "0 < r"
  shows "pow2 (rat_expo r) \<le> r" and "r < pow2 (rat_expo r + 1)"
proof -
  obtain n d where q: "quotient_of r = (n, d)" by (cases "quotient_of r")
  then have d: "0 < d" by (rule quotient_of_denom_pos)
  have r: "r = of_int n / of_int d" using q by (rule quotient_of_div)
  with assms d have n: "0 < n" by (simp add: zero_less_divide_iff)
  let ?k = "ilog2 n - ilog2 d"
  from n ilog2_bounds [of n] have N: "pow2 (ilog2 n) \<le> of_int n" "of_int n < pow2 (ilog2 n + 1)"
    by simp_all
  from d ilog2_bounds [of d] have D: "pow2 (ilog2 d) \<le> of_int d" "of_int d < pow2 (ilog2 d + 1)"
    by simp_all
  have "r * pow2 (ilog2 d) \<le> r * of_int d" using D(1) assms by simp
  also have "\<dots> = of_int n" using r d by simp
  also have "\<dots> < pow2 (ilog2 n + 1)" by (rule N(2))
  finally have up: "r < pow2 (?k + 1)"
    by (simp add: pow2_add pow2_diff field_simps)
  have "pow2 (ilog2 n) \<le> of_int n" by (rule N(1))
  also have "\<dots> = r * of_int d" using r d by simp
  also have "\<dots> \<le> r * pow2 (ilog2 d + 1)" using D(2) assms by simp
  finally have lo: "pow2 (?k - 1) \<le> r"
    by (simp add: pow2_add pow2_diff field_simps)
  from up lo show "pow2 (rat_expo r) \<le> r" "r < pow2 (rat_expo r + 1)"
    by (auto simp: rat_expo_def q Let_def not_le)
qed

lemma rat_expo_unique:
  assumes "pow2 k \<le> r" and "r < pow2 (k + 1)"
  shows "rat_expo r = k"
proof -
  have "0 < r" using pow2_pos [of k] assms(1) by (rule less_le_trans)
  note b = rat_expo_bounds [OF this]
  show ?thesis
  proof (rule ccontr)
    assume "rat_expo r \<noteq> k"
    then consider "rat_expo r + 1 \<le> k" | "k + 1 \<le> rat_expo r" by linarith
    then show False
      using assms b by cases (auto dest!: pow2_mono)
  qed
qed

lemma rat_expo_mono: "0 < x \<Longrightarrow> x \<le> y \<Longrightarrow> rat_expo x \<le> rat_expo y"
proof (rule ccontr)
  assume "0 < x" "x \<le> y" and "\<not> rat_expo x \<le> rat_expo y"
  then have "pow2 (rat_expo y + 1) \<le> pow2 (rat_expo x)" by (intro pow2_mono) simp
  also have "\<dots> \<le> x" using \<open>0 < x\<close> by (rule rat_expo_bounds)
  also have "\<dots> \<le> y" by fact
  also have "\<dots> < pow2 (rat_expo y + 1)"
    using \<open>0 < x\<close> \<open>x \<le> y\<close> by (intro rat_expo_bounds) simp
  finally show False by simp
qed

lemma rat_expo_ge_iff: "0 < x \<Longrightarrow> k \<le> rat_expo x \<longleftrightarrow> pow2 k \<le> x"
proof
  assume "0 < x" "k \<le> rat_expo x"
  then show "pow2 k \<le> x"
    using pow2_mono [of k "rat_expo x"] rat_expo_bounds(1) [of x] by simp
next
  assume "0 < x" "pow2 k \<le> x"
  then show "k \<le> rat_expo x"
    using rat_expo_bounds(2) [of x] pow2_mono [of "rat_expo x + 1" k] by force
qed

subsection \<open>Nearest integer, ties to even\<close>

lemma rne_of_int [simp]: "rne (of_int n) = n"
  by (simp add: rne_def)

lemma rne_cases:
  obtains "rne x = \<lfloor>x\<rfloor>" "x - of_int \<lfloor>x\<rfloor> \<le> 1 / 2"
    | "rne x = \<lfloor>x\<rfloor> + 1" "1 / 2 \<le> x - of_int \<lfloor>x\<rfloor>"
  by (cases "x - of_int \<lfloor>x\<rfloor> < 1 / 2"; cases "1 / 2 < x - of_int \<lfloor>x\<rfloor>"; cases "even \<lfloor>x\<rfloor>")
    (auto simp: rne_def Let_def)

lemma rne_error: "\<bar>of_int (rne x) - x\<bar> \<le> 1 / 2"
proof (cases x rule: rne_cases)
  case 1
  moreover have "of_int \<lfloor>x\<rfloor> \<le> x" by simp
  ultimately show ?thesis by simp
next
  case 2
  moreover have "x < of_int \<lfloor>x\<rfloor> + 1" by linarith
  ultimately show ?thesis by simp
qed

lemma rne_bounds: "\<lfloor>x\<rfloor> \<le> rne x" "rne x \<le> \<lfloor>x\<rfloor> + 1"
  by (cases x rule: rne_cases, simp_all)+

lemma rne_mono: "x \<le> y \<Longrightarrow> rne x \<le> rne y"
proof -
  assume xy: "x \<le> y"
  then have "\<lfloor>x\<rfloor> \<le> \<lfloor>y\<rfloor>" by (rule floor_mono)
  then consider "\<lfloor>x\<rfloor> = \<lfloor>y\<rfloor>" | "\<lfloor>x\<rfloor> + 1 \<le> \<lfloor>y\<rfloor>" by linarith
  then show "rne x \<le> rne y"
  proof cases
    case 1
    with xy show ?thesis by (auto simp: rne_def Let_def)
  next
    case 2
    then show ?thesis using rne_bounds(2) [of x] rne_bounds(1) [of y] by linarith
  qed
qed

lemma rne_minus: "rne (- x) = - rne x"
proof (cases "x = of_int \<lfloor>x\<rfloor>")
  case True
  then obtain n where "x = of_int n" by blast
  then show ?thesis by (simp only: of_int_minus [symmetric] rne_of_int)
next
  case False
  then have "\<lceil>x\<rceil> = \<lfloor>x\<rfloor> + 1" by (metis ceiling_altdef)
  then have f: "\<lfloor>- x\<rfloor> = - \<lfloor>x\<rfloor> - 1" by (simp add: floor_minus)
  show ?thesis
    by (simp add: rne_def Let_def f)
qed

lemma rne_le_int: "x \<le> of_int n \<Longrightarrow> rne x \<le> n"
  using rne_mono [of x "of_int n"] by simp

lemma rne_ge_int: "of_int n \<le> x \<Longrightarrow> n \<le> rne x"
  using rne_mono [of "of_int n" x] by simp


section \<open>Formats and rounding\<close>

text \<open>
  A format is its precision in bits, the exponent of its least positive value and the
  exponent at which it overflows. \<open>rnd F\<close> rounds a rational to the nearest
  multiple of the unit in the last place, with no upper bound; \<open>fp_round\<close> adds the
  overflow to infinity and the sign of a zero result.
\<close>

datatype fmt = Fmt (prec: int) (emin: int) (emax: int)

definition binary64 :: fmt where "binary64 = Fmt 53 (- 1074) 1024"

definition binary32 :: fmt where "binary32 = Fmt 24 (- 149) 128"

datatype fp = NaN | Inf bool | Fin bool rat

definition ulp_expo :: "fmt \<Rightarrow> rat \<Rightarrow> int" where
  "ulp_expo F x = max (rat_expo x - (prec F - 1)) (emin F)"

definition rnd :: "fmt \<Rightarrow> rat \<Rightarrow> rat" where
  "rnd F x =
     (if x = 0 then 0
      else let u = pow2 (ulp_expo F \<bar>x\<bar>) in of_int (rne (x / u)) * u)"

definition fp_round :: "fmt \<Rightarrow> bool \<Rightarrow> rat \<Rightarrow> fp" where
  "fp_round F z x =
     (let y = rnd F x; s = (if x = 0 then z else x < 0)
      in if y \<noteq> 0 \<and> emax F \<le> rat_expo \<bar>y\<bar> then Inf s else Fin s \<bar>y\<bar>)"

lemma rnd_0 [simp]: "rnd F 0 = 0"
  by (simp add: rnd_def)

lemma rnd_minus: "rnd F (- x) = - rnd F x"
  by (simp add: rnd_def Let_def rne_minus)

lemma rnd_nonneg: "0 \<le> x \<Longrightarrow> 0 \<le> rnd F x"
  using rne_ge_int [of 0 "x / pow2 (ulp_expo F \<bar>x\<bar>)"]
  by (simp add: rnd_def Let_def)

lemma rnd_nonpos: "x \<le> 0 \<Longrightarrow> rnd F x \<le> 0"
  using rnd_nonneg [of "- x" F] by (simp add: rnd_minus)

lemma rnd_error:
  "x \<noteq> 0 \<Longrightarrow> \<bar>rnd F x - x\<bar> \<le> pow2 (ulp_expo F \<bar>x\<bar>) / 2"
proof -
  assume x: "x \<noteq> 0"
  let ?u = "pow2 (ulp_expo F \<bar>x\<bar>)"
  have "rnd F x - x = (of_int (rne (x / ?u)) - x / ?u) * ?u"
    using x by (simp add: rnd_def Let_def algebra_simps)
  then have "\<bar>rnd F x - x\<bar> = \<bar>of_int (rne (x / ?u)) - x / ?u\<bar> * ?u"
    by (simp add: abs_mult)
  also have "\<dots> \<le> 1 / 2 * ?u"
    by (rule mult_right_mono [OF rne_error]) simp
  finally show ?thesis by simp
qed

text \<open>A bound that is a multiple of every smaller unit in the last place is respected.\<close>

lemma rnd_le_pow2:
  assumes "0 < x" and "x \<le> pow2 k" and "ulp_expo F x \<le> k"
  shows "rnd F x \<le> pow2 k"
proof -
  let ?e = "ulp_expo F x"
  have "x / pow2 ?e \<le> pow2 k / pow2 ?e" using assms(2) by (simp add: divide_right_mono)
  also have "\<dots> = of_int (2 ^ nat (k - ?e))"
    using assms(3) by (simp only: pow2_diff [symmetric]) (simp add: pow2_int)
  finally have "rne (x / pow2 ?e) \<le> 2 ^ nat (k - ?e)" by (rule rne_le_int)
  then have "of_int (rne (x / pow2 ?e)) \<le> pow2 (k - ?e)"
    using assms(3) by (simp only: pow2_int [of "k - ?e"] of_int_le_iff)
  then have "of_int (rne (x / pow2 ?e)) * pow2 ?e \<le> pow2 (k - ?e) * pow2 ?e"
    by (rule mult_right_mono) simp
  then show ?thesis using assms(1) by (simp add: rnd_def Let_def pow2_diff)
qed

lemma rnd_ge_pow2:
  assumes "0 < x" and "pow2 k \<le> x" and "ulp_expo F x \<le> k"
  shows "pow2 k \<le> rnd F x"
proof -
  let ?e = "ulp_expo F x"
  have "of_int (2 ^ nat (k - ?e)) = pow2 k / pow2 ?e"
    using assms(3) by (simp only: pow2_diff [symmetric]) (simp add: pow2_int)
  also have "\<dots> \<le> x / pow2 ?e" using assms(2) by (simp add: divide_right_mono)
  finally have "2 ^ nat (k - ?e) \<le> rne (x / pow2 ?e)" by (rule rne_ge_int)
  then have "pow2 (k - ?e) \<le> of_int (rne (x / pow2 ?e))"
    using assms(3) by (simp only: pow2_int [of "k - ?e"] of_int_le_iff)
  then have "pow2 (k - ?e) * pow2 ?e \<le> of_int (rne (x / pow2 ?e)) * pow2 ?e"
    by (rule mult_right_mono) simp
  then show ?thesis using assms(1) by (simp add: rnd_def Let_def pow2_diff)
qed

lemma rnd_mono_pos:
  assumes F: "1 \<le> prec F" and x: "0 < x" and xy: "x \<le> y"
  shows "rnd F x \<le> rnd F y"
proof -
  from x xy have y: "0 < y" by simp
  have e: "rat_expo x \<le> rat_expo y" using x xy by (rule rat_expo_mono)
  then have u: "ulp_expo F x \<le> ulp_expo F y" by (simp add: ulp_expo_def)
  show ?thesis
  proof (cases "ulp_expo F x = ulp_expo F y")
    case True
    have "x / pow2 (ulp_expo F y) \<le> y / pow2 (ulp_expo F y)"
      using xy by (simp add: divide_right_mono)
    then have "rne (x / pow2 (ulp_expo F y)) \<le> rne (y / pow2 (ulp_expo F y))" by (rule rne_mono)
    then show ?thesis using x y True by (simp add: rnd_def Let_def)
  next
    case False
    with u have lt: "ulp_expo F x < ulp_expo F y" by simp
    then have uy: "ulp_expo F y = rat_expo y - (prec F - 1)" and "rat_expo x < rat_expo y"
      by (auto simp: ulp_expo_def max_def split: if_splits)
    have ux: "ulp_expo F x \<le> rat_expo y" using lt uy F by linarith
    have "x \<le> pow2 (rat_expo x + 1)" using rat_expo_bounds(2) [OF x] by simp
    also have "\<dots> \<le> pow2 (rat_expo y)"
      using \<open>rat_expo x < rat_expo y\<close> by (intro pow2_mono) simp
    finally have "rnd F x \<le> pow2 (rat_expo y)" using x ux by (intro rnd_le_pow2)
    also have "\<dots> \<le> rnd F y"
      using y rat_expo_bounds(1) [OF y] uy F by (intro rnd_ge_pow2) simp_all
    finally show ?thesis .
  qed
qed

lemma rnd_mono:
  assumes F: "1 \<le> prec F" and xy: "x \<le> y"
  shows "rnd F x \<le> rnd F y"
proof -
  consider "0 < x" | "y < 0" | "x \<le> 0" "0 \<le> y" by linarith
  then show ?thesis
  proof cases
    case 1
    then show ?thesis using F xy by (intro rnd_mono_pos)
  next
    case 2
    then have "rnd F (- y) \<le> rnd F (- x)" using F xy by (intro rnd_mono_pos) auto
    then show ?thesis by (simp add: rnd_minus)
  next
    case 3
    then have "0 \<le> rnd F (- x)" and "0 \<le> rnd F y" by (simp_all add: rnd_nonneg)
    then show ?thesis by (simp add: rnd_minus)
  qed
qed


lemma rnd_multiple:
  assumes "y \<noteq> 0" and "y = of_int m * pow2 e" and "ulp_expo F \<bar>y\<bar> \<le> e"
  shows "rnd F y = y"
proof -
  let ?u = "ulp_expo F \<bar>y\<bar>"
  have "y / pow2 ?u = of_int m * pow2 (e - ?u)"
    by (subst assms(2)) (simp add: pow2_diff)
  also have "\<dots> = of_int (m * 2 ^ nat (e - ?u))"
    using assms(3) by (simp add: pow2_int)
  finally have "of_int (rne (y / pow2 ?u)) = y / pow2 ?u"
    by (simp only: rne_of_int)
  then show ?thesis using assms(1) by (simp add: rnd_def Let_def)
qed

lemma rnd_repr:
  assumes F: "1 \<le> prec F" and m: "\<bar>m\<bar> \<le> 2 ^ nat (prec F)" and e: "emin F \<le> e"
  shows "rnd F (of_int m * pow2 e) = of_int m * pow2 e"
proof (cases "m = 0")
  case True
  then show ?thesis by simp
next
  case m0: False
  let ?y = "of_int m * pow2 e :: rat"
  have y0: "?y \<noteq> 0" using m0 by simp
  have a: "\<bar>?y\<bar> = of_int \<bar>m\<bar> * pow2 e" by (simp add: abs_mult)
  have top: "of_int (2 ^ nat (prec F)) * pow2 e = pow2 (e + prec F)"
    using F by (simp only: pow2_int [symmetric]) (simp add: pow2_int [symmetric] pow2_add)
  show ?thesis
  proof (cases "\<bar>m\<bar> = 2 ^ nat (prec F)")
    case True
    then have y: "\<bar>?y\<bar> = pow2 (e + prec F)" using a top by simp
    have "rat_expo \<bar>?y\<bar> = e + prec F"
      unfolding y by (rule rat_expo_unique) (simp_all add: pow2_strict_mono del: of_int_abs)
    then have "ulp_expo F \<bar>?y\<bar> = max (e + 1) (emin F)" by (simp add: ulp_expo_def)
    then have u: "ulp_expo F \<bar>?y\<bar> = e + 1" using e by simp
    have "2 dvd m"
    proof -
      have "2 dvd (2 :: int) ^ nat (prec F)" using F by (intro dvd_power) auto
      then show ?thesis using True by (metis dvd_abs_iff)
    qed
    then obtain k where "m = 2 * k" by blast
    then have "?y = of_int k * pow2 (e + 1)" by (simp add: pow2_add)
    moreover have "ulp_expo F \<bar>?y\<bar> \<le> e + 1" by (simp only: u)
    ultimately show ?thesis using y0 by (rule rnd_multiple [rotated 1])
  next
    case False
    with m have "\<bar>m\<bar> < 2 ^ nat (prec F)" by simp
    then have "of_int \<bar>m\<bar> * pow2 e < of_int (2 ^ nat (prec F)) * pow2 e"
      by (intro mult_strict_right_mono) (simp_all only: of_int_less_iff pow2_pos)
    then have lt: "\<bar>?y\<bar> < pow2 (e + prec F)" by (simp only: a top)
    have "\<not> e + prec F \<le> rat_expo \<bar>?y\<bar>"
      using lt y0 by (subst rat_expo_ge_iff) auto
    then have "ulp_expo F \<bar>?y\<bar> \<le> e" using e by (simp add: ulp_expo_def)
    with y0 show ?thesis by (intro rnd_multiple) simp_all
  qed
qed

lemma rnd_mantissa:
  assumes F: "1 \<le> prec F" and x: "x \<noteq> 0"
  shows "\<bar>rne (x / pow2 (ulp_expo F \<bar>x\<bar>))\<bar> \<le> 2 ^ nat (prec F)"
proof -
  let ?u = "ulp_expo F \<bar>x\<bar>"
  have "\<bar>x\<bar> < pow2 (rat_expo \<bar>x\<bar> + 1)" using x by (intro rat_expo_bounds) simp
  also have "\<dots> \<le> pow2 (?u + prec F)" by (intro pow2_mono) (simp add: ulp_expo_def)
  finally have "\<bar>x\<bar> / pow2 ?u \<le> pow2 (prec F)" by (simp add: pow2_add field_simps)
  then have "\<bar>x / pow2 ?u\<bar> \<le> of_int (2 ^ nat (prec F))"
    using F by (simp add: pow2_int abs_divide)
  note b = abs_le_D1 [OF this] abs_le_D2 [OF this]
  from b(2) have "of_int (- (2 ^ nat (prec F))) \<le> x / pow2 ?u"
    by (simp only: of_int_minus minus_le_iff)
  with b(1) have "rne (x / pow2 ?u) \<le> 2 ^ nat (prec F)" "- (2 ^ nat (prec F)) \<le> rne (x / pow2 ?u)"
    by (blast intro: rne_le_int rne_ge_int)+
  then show ?thesis by simp
qed

lemma rnd_idem:
  assumes "1 \<le> prec F"
  shows "rnd F (rnd F x) = rnd F x"
proof (cases "x = 0")
  case False
  then have "rnd F x = of_int (rne (x / pow2 (ulp_expo F \<bar>x\<bar>))) * pow2 (ulp_expo F \<bar>x\<bar>)"
    by (simp add: rnd_def Let_def)
  moreover have "emin F \<le> ulp_expo F \<bar>x\<bar>" by (simp add: ulp_expo_def)
  ultimately show ?thesis
    using rnd_repr [OF assms rnd_mantissa [OF assms False]] by metis
qed simp

lemma rnd_of_int:
  assumes "1 \<le> prec F" and "\<bar>m\<bar> \<le> 2 ^ nat (prec F)" and "emin F \<le> 0"
  shows "rnd F (of_int m) = of_int m"
  using rnd_repr [OF assms(1,2), of 0] assms(3) by simp

section \<open>What the components rely on\<close>

locale rounding =
  fixes rd :: "rat \<Rightarrow> rat"
  assumes mono: "x \<le> y \<Longrightarrow> rd x \<le> rd y"
    and odd: "rd (- x) = - rd x"
    and idem: "rd (rd x) = rd x"
begin

lemma zero: "rd 0 = 0"
  using odd [of 0] by simp

lemma nonneg: "0 \<le> x \<Longrightarrow> 0 \<le> rd x"
  using mono [of 0 x] zero by simp

lemma nonpos: "x \<le> 0 \<Longrightarrow> rd x \<le> 0"
  using mono [of x 0] zero by simp

lemma le_repr: "rd b = b \<Longrightarrow> x \<le> b \<Longrightarrow> rd x \<le> b"
  using mono [of x b] by simp

lemma ge_repr: "rd b = b \<Longrightarrow> b \<le> x \<Longrightarrow> b \<le> rd x"
  using mono [of b x] by simp

lemma gt_reprD: "rd b = b \<Longrightarrow> b < rd x \<Longrightarrow> b < x"
  using le_repr [of b x] by force

text \<open>
  The comparison the timestamp guards make: a difference is rounded and compared with a
  representable tolerance. An exact difference within the tolerance is never reported,
  and one that reaches the next representable bound always is.
\<close>

lemma excess_reported:
  assumes "rd c = c" and "b < c" and "c \<le> x"
  shows "b < rd x"
  using assms(2) ge_repr [OF assms(1,3)] by simp

lemma within_not_reported: "rd b = b \<Longrightarrow> x \<le> b \<Longrightarrow> \<not> b < rd x"
  using le_repr [of b x] by simp

end

interpretation r64: rounding "rnd binary64"
  by unfold_locales (auto simp: binary64_def rnd_mono rnd_minus rnd_idem)

interpretation r32: rounding "rnd binary32"
  by unfold_locales (auto simp: binary32_def rnd_mono rnd_minus rnd_idem)


section \<open>Operations\<close>

text \<open>
  \<open>fval\<close> is the rational value of a finite number. Comparisons are false on NaN;
  \<open>fp_rank\<close> puts the infinities outside the finite numbers. A conversion to an
  integer type whose range does not hold the truncated value is undefined behaviour
  and gives \<^term>\<open>None\<close>.
\<close>

fun isfinite :: "fp \<Rightarrow> bool" where
  "isfinite (Fin _ _) = True"
| "isfinite _ = False"

fun fval :: "fp \<Rightarrow> rat" where
  "fval (Fin s m) = (if s then - m else m)"
| "fval _ = 0"

fun fp_neg :: "fp \<Rightarrow> fp" where
  "fp_neg NaN = NaN"
| "fp_neg (Inf s) = Inf (\<not> s)"
| "fp_neg (Fin s m) = Fin (\<not> s) m"

fun fp_add :: "fmt \<Rightarrow> fp \<Rightarrow> fp \<Rightarrow> fp" where
  "fp_add F NaN _ = NaN"
| "fp_add F _ NaN = NaN"
| "fp_add F (Inf s) (Inf t) = (if s = t then Inf s else NaN)"
| "fp_add F (Inf s) (Fin _ _) = Inf s"
| "fp_add F (Fin _ _) (Inf t) = Inf t"
| "fp_add F (Fin s a) (Fin t b) = fp_round F (s \<and> t) (fval (Fin s a) + fval (Fin t b))"

definition fp_sub :: "fmt \<Rightarrow> fp \<Rightarrow> fp \<Rightarrow> fp" where
  "fp_sub F a b = fp_add F a (fp_neg b)"

fun fp_mul :: "fmt \<Rightarrow> fp \<Rightarrow> fp \<Rightarrow> fp" where
  "fp_mul F NaN _ = NaN"
| "fp_mul F _ NaN = NaN"
| "fp_mul F (Inf s) (Inf t) = Inf (s \<noteq> t)"
| "fp_mul F (Inf s) (Fin t b) = (if b = 0 then NaN else Inf (s \<noteq> t))"
| "fp_mul F (Fin s a) (Inf t) = (if a = 0 then NaN else Inf (s \<noteq> t))"
| "fp_mul F (Fin s a) (Fin t b) = fp_round F (s \<noteq> t) (fval (Fin s a) * fval (Fin t b))"

fun fp_div :: "fmt \<Rightarrow> fp \<Rightarrow> fp \<Rightarrow> fp" where
  "fp_div F NaN _ = NaN"
| "fp_div F _ NaN = NaN"
| "fp_div F (Inf s) (Inf t) = NaN"
| "fp_div F (Inf s) (Fin t _) = Inf (s \<noteq> t)"
| "fp_div F (Fin s _) (Inf t) = Fin (s \<noteq> t) 0"
| "fp_div F (Fin s a) (Fin t b) =
     (if b = 0 then (if a = 0 then NaN else Inf (s \<noteq> t))
      else fp_round F (s \<noteq> t) (fval (Fin s a) / fval (Fin t b)))"

fun fp_rank :: "fp \<Rightarrow> (int \<times> rat) option" where
  "fp_rank NaN = None"
| "fp_rank (Inf s) = Some (if s then - 1 else 1, 0)"
| "fp_rank (Fin s m) = Some (0, fval (Fin s m))"

definition fp_lt :: "fp \<Rightarrow> fp \<Rightarrow> bool" where
  "fp_lt a b = (case (fp_rank a, fp_rank b) of
     (Some (i, x), Some (j, y)) \<Rightarrow> i < j \<or> i = j \<and> x < y | _ \<Rightarrow> False)"

definition fp_eq :: "fp \<Rightarrow> fp \<Rightarrow> bool" where
  "fp_eq a b = (case (fp_rank a, fp_rank b) of
     (Some p, Some q) \<Rightarrow> p = q | _ \<Rightarrow> False)"

definition fp_le :: "fp \<Rightarrow> fp \<Rightarrow> bool" where
  "fp_le a b \<longleftrightarrow> fp_lt a b \<or> fp_eq a b"

definition fp_of_int :: "fmt \<Rightarrow> int \<Rightarrow> fp" where
  "fp_of_int F n = fp_round F False (of_int n)"

definition fp_lit :: "fmt \<Rightarrow> rat \<Rightarrow> fp" where
  "fp_lit F q = fp_round F False q"

fun fp_cast :: "fmt \<Rightarrow> fp \<Rightarrow> fp" where
  "fp_cast F (Fin s m) = fp_round F s (fval (Fin s m))"
| "fp_cast F x = x"

fun fp_floor :: "fp \<Rightarrow> fp" where
  "fp_floor (Fin s m) = Fin s (of_int \<bar>\<lfloor>fval (Fin s m)\<rfloor>\<bar>)"
| "fp_floor x = x"

fun fp_trunc :: "fp \<Rightarrow> int option" where
  "fp_trunc (Fin s m) = Some (if s then - \<lfloor>m\<rfloor> else \<lfloor>m\<rfloor>)"
| "fp_trunc _ = None"

definition fp_to_int :: "int \<Rightarrow> int \<Rightarrow> fp \<Rightarrow> int option" where
  "fp_to_int lo hi x = (case fp_trunc x of
     Some n \<Rightarrow> if lo \<le> n \<and> n \<le> hi then Some n else None | None \<Rightarrow> None)"

abbreviation to_i32 :: "fp \<Rightarrow> int option" where
  "to_i32 \<equiv> fp_to_int (- 2147483648) 2147483647"

abbreviation to_u32 :: "fp \<Rightarrow> int option" where
  "to_u32 \<equiv> fp_to_int 0 4294967295"

text \<open>The operations at the two formats the source uses.\<close>

abbreviation d_add :: "fp \<Rightarrow> fp \<Rightarrow> fp" where "d_add \<equiv> fp_add binary64"
abbreviation d_sub :: "fp \<Rightarrow> fp \<Rightarrow> fp" where "d_sub \<equiv> fp_sub binary64"
abbreviation d_mul :: "fp \<Rightarrow> fp \<Rightarrow> fp" where "d_mul \<equiv> fp_mul binary64"
abbreviation d_div :: "fp \<Rightarrow> fp \<Rightarrow> fp" where "d_div \<equiv> fp_div binary64"
abbreviation d_int :: "int \<Rightarrow> fp" where "d_int \<equiv> fp_of_int binary64"
abbreviation d_lit :: "rat \<Rightarrow> fp" where "d_lit \<equiv> fp_lit binary64"
abbreviation f_add :: "fp \<Rightarrow> fp \<Rightarrow> fp" where "f_add \<equiv> fp_add binary32"
abbreviation f_sub :: "fp \<Rightarrow> fp \<Rightarrow> fp" where "f_sub \<equiv> fp_sub binary32"
abbreviation f_mul :: "fp \<Rightarrow> fp \<Rightarrow> fp" where "f_mul \<equiv> fp_mul binary32"
abbreviation f_int :: "int \<Rightarrow> fp" where "f_int \<equiv> fp_of_int binary32"
abbreviation f_lit :: "rat \<Rightarrow> fp" where "f_lit \<equiv> fp_lit binary32"
abbreviation to_float :: "fp \<Rightarrow> fp" where "to_float \<equiv> fp_cast binary32"

text \<open>
  A value of a format: a non-negative representable magnitude below the overflow
  threshold. Every operation that rounds gives one.
\<close>

fun fp_of_fmt :: "fmt \<Rightarrow> fp \<Rightarrow> bool" where
  "fp_of_fmt F (Fin s m) \<longleftrightarrow> 0 \<le> m \<and> rnd F m = m \<and> (m = 0 \<or> rat_expo m < emax F)"
| "fp_of_fmt F _ \<longleftrightarrow> True"

lemma isfinite_iff: "isfinite x \<longleftrightarrow> (\<exists>s m. x = Fin s m)"
  by (cases x) auto

lemma isfinite_neg [simp]: "isfinite (fp_neg x) = isfinite x"
  by (cases x) auto

lemma fval_neg [simp]: "fval (fp_neg x) = - fval x"
  by (cases x) auto

lemma fp_lt_finite [fp_simps]:
  "isfinite a \<Longrightarrow> isfinite b \<Longrightarrow> fp_lt a b \<longleftrightarrow> fval a < fval b"
  by (auto simp: isfinite_iff fp_lt_def)

lemma fp_eq_finite [fp_simps]:
  "isfinite a \<Longrightarrow> isfinite b \<Longrightarrow> fp_eq a b \<longleftrightarrow> fval a = fval b"
  by (auto simp: isfinite_iff fp_eq_def)

lemma fp_le_finite [fp_simps]:
  "isfinite a \<Longrightarrow> isfinite b \<Longrightarrow> fp_le a b \<longleftrightarrow> fval a \<le> fval b"
  by (auto simp: fp_le_def fp_simps)

lemma fp_sub_finite [fp_simps]:
  "isfinite a \<Longrightarrow> isfinite b \<Longrightarrow>
     \<exists>z. fp_sub F a b = fp_round F z (fval a - fval b)"
  by (auto simp: isfinite_iff fp_sub_def)

lemma fp_lt_NaN [simp]: "\<not> fp_lt NaN x" "\<not> fp_lt x NaN"
  by (auto simp: fp_lt_def split: option.splits)

lemma fval_fp_round [fp_simps]:
  assumes "1 \<le> prec F" and "isfinite (fp_round F z x)"
  shows "fval (fp_round F z x) = rnd F x"
proof (cases "x < 0")
  case True
  then have "rnd F x \<le> 0" using rnd_nonneg [of "- x" F] by (simp add: rnd_minus)
  with assms True show ?thesis by (auto simp: fp_round_def Let_def split: if_splits)
next
  case False
  then have "0 \<le> rnd F x" by (simp add: rnd_nonneg)
  with assms False show ?thesis by (auto simp: fp_round_def Let_def split: if_splits)
qed

lemma fp_round_of_fmt:
  assumes "1 \<le> prec F"
  shows "fp_of_fmt F (fp_round F z x)"
proof -
  have "rnd F \<bar>rnd F x\<bar> = \<bar>rnd F x\<bar>"
    by (cases "0 \<le> rnd F x") (simp_all add: assms rnd_idem rnd_minus)
  then show ?thesis by (auto simp: fp_round_def Let_def)
qed

lemma fp_round_lt:
  assumes F: "1 \<le> prec F" and b: "isfinite b" and pos: "0 \<le> fval b"
  shows "fp_lt b (fp_round F z x) \<longleftrightarrow>
     fval b < rnd F x \<or> (\<exists>s. fp_round F z x = Inf s \<and> 0 < x)"
proof (cases "isfinite (fp_round F z x)")
  case True
  then show ?thesis using b by (auto simp: fp_simps F)
next
  case False
  then obtain s where s: "fp_round F z x = Inf s" and r: "rnd F x \<noteq> 0"
    and sg: "s = (if x = 0 then z else x < 0)"
    by (auto simp: fp_round_def Let_def split: if_splits)
  then have x: "x \<noteq> 0" by auto
  have neg: "x < 0 \<Longrightarrow> \<not> fval b < rnd F x"
    using rnd_nonneg [of "- x" F] pos by (simp add: rnd_minus)
  show ?thesis
    using x b sg neg by (cases "x < 0") (auto simp: s fp_lt_def isfinite_iff)
qed


lemma fp_of_fmt_bound:
  assumes "fp_of_fmt F b" and "isfinite b"
  shows "fval b < pow2 (emax F)"
proof -
  from assms obtain s m where b: "b = Fin s m" "0 \<le> m" "m = 0 \<or> rat_expo m < emax F"
    by (cases b) auto
  have "m < pow2 (emax F)"
  proof (cases "m = 0")
    case False
    with b have "\<not> emax F \<le> rat_expo m" and "0 < m" by auto
    then show ?thesis by (simp add: rat_expo_ge_iff)
  qed simp
  with b show ?thesis by (auto intro: le_less_trans [of _ 0])
qed

lemma fp_round_Inf_ge:
  assumes "fp_round F z x = Inf s" and "0 < x"
  shows "pow2 (emax F) \<le> rnd F x"
proof -
  have "0 \<le> rnd F x" using assms(2) by (simp add: rnd_nonneg)
  moreover from assms have "rnd F x \<noteq> 0" "emax F \<le> rat_expo \<bar>rnd F x\<bar>"
    by (auto simp: fp_round_def Let_def split: if_splits)
  ultimately show ?thesis by (simp add: rat_expo_ge_iff)
qed

lemma fp_lt_round_iff:
  assumes "1 \<le> prec F" and "isfinite b" and "0 \<le> fval b" and "fp_of_fmt F b"
  shows "fp_lt b (fp_round F z x) \<longleftrightarrow> fval b < rnd F x"
  using fp_round_lt [OF assms(1-3)] fp_of_fmt_bound [OF assms(4,2)] fp_round_Inf_ge
  by (meson less_le_trans)

lemma fp_lt_sub_iff [fp_simps]:
  assumes "1 \<le> prec F" and "isfinite b" and "0 \<le> fval b" and "fp_of_fmt F b"
    and "isfinite p" and "isfinite t"
  shows "fp_lt b (fp_sub F p t) \<longleftrightarrow> fval b < rnd F (fval p - fval t)"
  using fp_sub_finite [OF assms(5,6), of F] fp_lt_round_iff [OF assms(1-4)] by metis

lemma prec_binary [simp]: "prec binary64 = 53" "prec binary32 = 24"
  "emin binary64 = - 1074" "emin binary32 = - 149" "emax binary64 = 1024" "emax binary32 = 128"
  by (simp_all add: binary64_def binary32_def)


lemma fp_le_sub_iff [fp_simps]:
  assumes F: "1 \<le> prec F" and b: "isfinite b" "0 < fval b" "fp_of_fmt F b"
    and fin: "isfinite p" "isfinite t"
  shows "fp_le b (fp_sub F p t) \<longleftrightarrow> fval b \<le> rnd F (fval p - fval t)"
proof -
  obtain z where z: "fp_sub F p t = fp_round F z (fval p - fval t)" (is "?d = _")
    using fp_sub_finite [OF fin] by blast
  have lt: "fp_lt b ?d \<longleftrightarrow> fval b < rnd F (fval p - fval t)"
    using b by (intro fp_lt_sub_iff F fin) simp_all
  show ?thesis
  proof (cases "isfinite ?d")
    case True
    then show ?thesis using b z F by (simp add: fp_simps)
  next
    case False
    then obtain s where s: "?d = Inf s" by (auto simp: z fp_round_def Let_def split: if_splits)
    then have "\<not> fp_eq b ?d" using b by (auto simp: fp_eq_def isfinite_iff)
    moreover have "fval b \<noteq> rnd F (fval p - fval t)"
    proof
      assume eq: "fval b = rnd F (fval p - fval t)"
      have "\<not> fval p - fval t \<le> 0" using b(2) eq rnd_nonpos [of "fval p - fval t" F] by linarith
      then have "0 < fval p - fval t" by (simp only: not_le)
      then have "pow2 (emax F) \<le> fval b" using fp_round_Inf_ge s z eq by metis
      then show False using fp_of_fmt_bound [OF b(3,1)] by simp
    qed
    ultimately show ?thesis using lt by (auto simp: fp_le_def)
  qed
qed

section \<open>Results without overflow\<close>

lemma rnd_pow2:
  assumes "1 \<le> prec F" and "emin F \<le> k"
  shows "rnd F (pow2 k) = pow2 k"
  using rnd_repr [OF assms(1), of 1 k] assms by simp

lemma rnd_abs_le:
  assumes F: "1 \<le> prec F" and "\<bar>x\<bar> \<le> b" and b: "rnd F b = b"
  shows "\<bar>rnd F x\<bar> \<le> b"
proof -
  have "rnd F x \<le> rnd F b" and "rnd F (- b) \<le> rnd F x"
    using assms(2) by (auto intro!: rnd_mono F)
  then show ?thesis using b by (simp add: rnd_minus)
qed

lemma fp_round_finite:
  assumes F: "1 \<le> prec F" and x: "\<bar>x\<bar> \<le> pow2 k" and k: "emin F \<le> k" "k < emax F"
  shows "isfinite (fp_round F z x)" and "fval (fp_round F z x) = rnd F x" and "\<bar>rnd F x\<bar> \<le> pow2 k"
proof -
  show le: "\<bar>rnd F x\<bar> \<le> pow2 k" using F x rnd_pow2 [OF F k(1)] by (rule rnd_abs_le)
  have "\<not> emax F \<le> rat_expo \<bar>rnd F x\<bar>" if "rnd F x \<noteq> 0"
    using that le pow2_strict_mono [OF k(2)] by (simp add: rat_expo_ge_iff)
  then show fin: "isfinite (fp_round F z x)" by (auto simp: fp_round_def Let_def)
  show "fval (fp_round F z x) = rnd F x" using F fin by (rule fval_fp_round)
qed

lemma fp_of_int_finite:
  assumes F: "1 \<le> prec F" "emin F \<le> 0" "prec F < emax F" and n: "\<bar>n\<bar> \<le> 2 ^ nat (prec F)"
  shows "isfinite (fp_of_int F n)" and "fval (fp_of_int F n) = of_int n"
proof -
  have p: "pow2 (prec F) = of_int (2 ^ nat (prec F))" using F(1) by (simp add: pow2_int)
  have "\<bar>of_int n :: rat\<bar> = of_int \<bar>n\<bar>" by simp
  also have "\<dots> \<le> of_int (2 ^ nat (prec F))" using n by (simp only: of_int_le_iff)
  finally have "\<bar>of_int n :: rat\<bar> \<le> pow2 (prec F)" unfolding p .
  note r = fp_round_finite(1,2) [OF F(1) this, where z = False]
  show "isfinite (fp_of_int F n)" using r(1) F by (simp add: fp_of_int_def)
  show "fval (fp_of_int F n) = of_int n"
    using r(2) F rnd_of_int [OF F(1) n F(2)] by (simp add: fp_of_int_def)
qed

lemma d_int_finite [simp]:
  assumes "\<bar>n\<bar> \<le> 2 ^ 53"
  shows "isfinite (d_int n)" and "fval (d_int n) = of_int n"
  using fp_of_int_finite [of binary64 n] assms by simp_all

lemma f_int_finite [simp]:
  assumes "\<bar>n\<bar> \<le> 2 ^ 24"
  shows "isfinite (f_int n)" and "fval (f_int n) = of_int n"
  using fp_of_int_finite [of binary32 n] assms by simp_all

lemma fp_mul_finite [fp_simps]:
  "isfinite a \<Longrightarrow> isfinite b \<Longrightarrow> \<exists>z. fp_mul F a b = fp_round F z (fval a * fval b)"
  by (auto simp: isfinite_iff)

lemma fp_add_finite [fp_simps]:
  "isfinite a \<Longrightarrow> isfinite b \<Longrightarrow> \<exists>z. fp_add F a b = fp_round F z (fval a + fval b)"
  by (auto simp: isfinite_iff)

lemma fp_div_finite [fp_simps]:
  "isfinite a \<Longrightarrow> isfinite b \<Longrightarrow> fval b \<noteq> 0 \<Longrightarrow> \<exists>z. fp_div F a b = fp_round F z (fval a / fval b)"
  by (auto simp: isfinite_iff)

lemma fp_mul_bounded:
  assumes "1 \<le> prec F" "isfinite a" "isfinite b" "\<bar>fval a * fval b\<bar> \<le> pow2 k" "emin F \<le> k" "k < emax F"
  shows "isfinite (fp_mul F a b)" and "fval (fp_mul F a b) = rnd F (fval a * fval b)"
    and "\<bar>fval (fp_mul F a b)\<bar> \<le> pow2 k"
  using fp_mul_finite [OF assms(2,3), of F] fp_round_finite [OF assms(1,4,5,6)] by auto

lemma fp_div_bounded:
  assumes "1 \<le> prec F" "isfinite a" "isfinite b" "fval b \<noteq> 0" "\<bar>fval a / fval b\<bar> \<le> pow2 k"
    "emin F \<le> k" "k < emax F"
  shows "isfinite (fp_div F a b)" and "fval (fp_div F a b) = rnd F (fval a / fval b)"
    and "\<bar>fval (fp_div F a b)\<bar> \<le> pow2 k"
  using fp_div_finite [OF assms(2-4), of F] fp_round_finite [OF assms(1,5,6,7)] by auto

lemma fp_add_bounded:
  assumes "1 \<le> prec F" "isfinite a" "isfinite b" "\<bar>fval a + fval b\<bar> \<le> pow2 k" "emin F \<le> k" "k < emax F"
  shows "isfinite (fp_add F a b)" and "fval (fp_add F a b) = rnd F (fval a + fval b)"
    and "\<bar>fval (fp_add F a b)\<bar> \<le> pow2 k"
  using fp_add_finite [OF assms(2,3), of F] fp_round_finite [OF assms(1,4,5,6)] by auto

lemma fp_sub_bounded:
  assumes "1 \<le> prec F" "isfinite a" "isfinite b" "\<bar>fval a - fval b\<bar> \<le> pow2 k" "emin F \<le> k" "k < emax F"
  shows "isfinite (fp_sub F a b)" and "fval (fp_sub F a b) = rnd F (fval a - fval b)"
    and "\<bar>fval (fp_sub F a b)\<bar> \<le> pow2 k"
  using fp_sub_finite [OF assms(2,3), of F] fp_round_finite [OF assms(1,4,5,6)] by auto

text \<open>A rounded result stays between integers that are exactly representable.\<close>

lemma rnd_between:
  assumes F: "1 \<le> prec F" "emin F \<le> 0" and lo: "\<bar>lo\<bar> \<le> 2 ^ nat (prec F)" "of_int lo \<le> x"
    and hi: "\<bar>hi\<bar> \<le> 2 ^ nat (prec F)" "x \<le> of_int hi"
  shows "of_int lo \<le> rnd F x" and "rnd F x \<le> of_int hi"
  using rnd_mono [OF F(1) lo(2)] rnd_mono [OF F(1) hi(2)]
    rnd_of_int [OF F(1) lo(1) F(2)] rnd_of_int [OF F(1) hi(1) F(2)] by simp_all

lemma fp_round_between:
  assumes F: "1 \<le> prec F" "emin F \<le> 0" "prec F < emax F" and lo: "\<bar>lo\<bar> \<le> 2 ^ nat (prec F)" "of_int lo \<le> x"
    and hi: "\<bar>hi\<bar> \<le> 2 ^ nat (prec F)" "x \<le> of_int hi"
  shows "isfinite (fp_round F z x) \<and> of_int lo \<le> fval (fp_round F z x) \<and> fval (fp_round F z x) \<le> of_int hi"
proof -
  have p: "pow2 (prec F) = of_int (2 ^ nat (prec F))" using F(1) by (simp add: pow2_int)
  have "of_int (- (2 ^ nat (prec F))) \<le> (of_int lo :: rat)" "(of_int hi :: rat) \<le> of_int (2 ^ nat (prec F))"
    unfolding of_int_le_iff using lo(1) hi(1) by linarith+
  then have "\<bar>x\<bar> \<le> pow2 (prec F)" unfolding p abs_le_iff using lo(2) hi(2)
    by (simp only: of_int_minus) linarith
  note r = fp_round_finite(1,2) [OF F(1) this, where z = z]
  show ?thesis using r F rnd_between [OF F(1,2) lo hi] by simp
qed

lemma f_between:
  assumes "isfinite a" and "isfinite b" and "\<bar>lo\<bar> \<le> 2 ^ 24" and "\<bar>hi\<bar> \<le> 2 ^ 24"
  shows "of_int lo \<le> fval a + fval b \<Longrightarrow> fval a + fval b \<le> of_int hi \<Longrightarrow>
      isfinite (f_add a b) \<and> of_int lo \<le> fval (f_add a b) \<and> fval (f_add a b) \<le> of_int hi"
    and "of_int lo \<le> fval a - fval b \<Longrightarrow> fval a - fval b \<le> of_int hi \<Longrightarrow>
      isfinite (f_sub a b) \<and> of_int lo \<le> fval (f_sub a b) \<and> fval (f_sub a b) \<le> of_int hi"
    and "of_int lo \<le> fval a * fval b \<Longrightarrow> fval a * fval b \<le> of_int hi \<Longrightarrow>
      isfinite (f_mul a b) \<and> of_int lo \<le> fval (f_mul a b) \<and> fval (f_mul a b) \<le> of_int hi"
  using fp_round_between [of binary32 lo _ hi] assms(3,4)
    fp_add_finite [OF assms(1,2), of binary32] fp_sub_finite [OF assms(1,2), of binary32]
    fp_mul_finite [OF assms(1,2), of binary32]
  by (auto simp: nat_numeral)

lemma d_mul_between:
  assumes "isfinite a" and "isfinite b" and "\<bar>lo\<bar> \<le> 2 ^ 53" and "\<bar>hi\<bar> \<le> 2 ^ 53"
    and "of_int lo \<le> fval a * fval b" and "fval a * fval b \<le> of_int hi"
  shows "isfinite (d_mul a b) \<and> of_int lo \<le> fval (d_mul a b) \<and> fval (d_mul a b) \<le> of_int hi"
  using fp_round_between [of binary64 lo _ hi] assms fp_mul_finite [OF assms(1,2), of binary64]
  by (auto simp: nat_numeral)

lemma to_float_between:
  assumes "isfinite a" and "\<bar>lo\<bar> \<le> 2 ^ 24" and "\<bar>hi\<bar> \<le> 2 ^ 24"
    and "of_int lo \<le> fval a" and "fval a \<le> of_int hi"
  shows "isfinite (to_float a) \<and> of_int lo \<le> fval (to_float a) \<and> fval (to_float a) \<le> of_int hi"
proof -
  obtain s m where a: "a = Fin s m" using assms(1) by (auto simp: isfinite_iff)
  then have "to_float a = fp_round binary32 s (fval a)" by simp
  then show ?thesis using fp_round_between [of binary32 lo "fval a" hi s] assms(2-5)
    by (simp add: nat_numeral)
qed

lemma d_sub_between:
  assumes "isfinite a" and "isfinite b" and "\<bar>lo\<bar> \<le> 2 ^ 53" and "\<bar>hi\<bar> \<le> 2 ^ 53"
    and "of_int lo \<le> fval a - fval b" and "fval a - fval b \<le> of_int hi"
  shows "isfinite (d_sub a b) \<and> of_int lo \<le> fval (d_sub a b) \<and> fval (d_sub a b) \<le> of_int hi"
  using fp_round_between [of binary64 lo _ hi] assms fp_sub_finite [OF assms(1,2), of binary64]
  by (auto simp: nat_numeral)

lemma fp_to_int_between:
  assumes "isfinite a" and "of_int lo \<le> fval a" and "fval a \<le> of_int hi"
    and "L \<le> lo" and "hi \<le> H"
  shows "\<exists>n. fp_to_int L H a = Some n \<and> lo \<le> n \<and> n \<le> hi"
proof -
  obtain s m where a: "a = Fin s m" using assms(1) by (auto simp: isfinite_iff)
  have "lo \<le> (if s then - \<lfloor>m\<rfloor> else \<lfloor>m\<rfloor>) \<and> (if s then - \<lfloor>m\<rfloor> else \<lfloor>m\<rfloor>) \<le> hi"
  proof (cases s)
    case True
    then have "m \<le> of_int (- lo)" "of_int (- hi) \<le> m" using assms(2,3) a by auto
    then have "\<lfloor>m\<rfloor> \<le> - lo" "- hi \<le> \<lfloor>m\<rfloor>" by (simp_all only: le_floor_iff) (metis floor_mono floor_of_int)
    then show ?thesis using True by simp
  next
    case False
    then have "of_int lo \<le> m" "m \<le> of_int hi" using assms(2,3) a by auto
    then have "lo \<le> \<lfloor>m\<rfloor>" "\<lfloor>m\<rfloor> \<le> hi" by (simp_all only: le_floor_iff) (metis floor_mono floor_of_int)
    then show ?thesis using False by simp
  qed
  then show ?thesis using assms(4,5) by (auto simp: a fp_to_int_def)
qed

lemmas to_i32_between = fp_to_int_between [where L = "- 2147483648" and H = 2147483647]

end
