(* ===== verification/Posix_Io.thy ===== *)
theory Posix_Io
  imports Ieee_Floats
begin

text \<open>
  The socket helpers of \<^verbatim>\<open>util.c\<close>. A system call answers from a script: the list of events
  that the connection produces, in order. Every sequence of results the kernel may give is such
  a script; a script that has run out is a call that never returns. The outcome of a computation
  is a value of type \<open>run\<close>: the result, a call that blocks for ever, or undefined behaviour.
\<close>

section \<open>Outcomes\<close>

datatype 'a run = Done 'a | Blocked | Undef

fun run_bind :: "'a run \<Rightarrow> ('a \<Rightarrow> 'b run) \<Rightarrow> 'b run" where
  "run_bind (Done x) f = f x"
| "run_bind Blocked f = Blocked"
| "run_bind Undef f = Undef"

text \<open>Nothing undefined happens, and what is returned, if anything, has the property.\<close>

fun run_all :: "('a \<Rightarrow> bool) \<Rightarrow> 'a run \<Rightarrow> bool" where
  "run_all P (Done x) = P x"
| "run_all P Blocked = True"
| "run_all P Undef = False"

lemma run_all_bind [simp]: "run_all P (run_bind m f) = run_all (\<lambda>x. run_all P (f x)) m"
  by (cases m) auto

lemma run_all_if [simp]: "run_all P (if b then x else y) = (if b then run_all P x else run_all P y)"
  by simp

lemma run_all_mono: "run_all P m \<Longrightarrow> (\<And>x. P x \<Longrightarrow> Q x) \<Longrightarrow> run_all Q m"
  by (cases m) auto

lemma run_bind_assoc [simp]: "run_bind (run_bind m f) g = run_bind m (\<lambda>x. run_bind (f x) g)"
  by (cases m) auto

section \<open>Reading\<close>

text \<open>
  Events on the receiving side: bytes that arrived together, a signal during the call, an error,
  the end of the stream. \<^verbatim>\<open>read\<close> takes at most the bytes asked for and leaves the rest.
\<close>

datatype rx = Seg "byte list" | RxIntr | RxErr | RxEof

datatype rres = Got "byte list" | GotIntr | GotErr

fun sys_read :: "nat \<Rightarrow> rx list \<Rightarrow> (rres \<times> rx list) run" where
  "sys_read n [] = Blocked"
| "sys_read n (Seg bs # rs) =
     (if bs = [] then sys_read n rs
      else Done (Got (take n bs), if n < length bs then Seg (drop n bs) # rs else rs))"
| "sys_read n (RxIntr # rs) = Done (GotIntr, rs)"
| "sys_read n (RxErr # rs) = Done (GotErr, rs)"
| "sys_read n (RxEof # rs) = Done (Got [], RxEof # rs)"

lemma sys_read_shrinks:
  "sys_read n rs = Done (r, rs') \<Longrightarrow>
     length rs' \<le> length rs \<and> (r = GotIntr \<longrightarrow> length rs' < length rs) \<and>
     (\<forall>bs. r = Got bs \<longrightarrow> length bs \<le> n)"
  by (induction n rs rule: sys_read.induct) (auto split: if_splits)

text \<open>
  The loop of \<^verbatim>\<open>sys_readn\<close>: the bytes still wanted and the bytes stored so far. The result
  is the returned number, the bytes written to the buffer and the rest of the script.
\<close>

function readn_loop :: "nat \<Rightarrow> byte list \<Rightarrow> rx list \<Rightarrow> (int \<times> byte list \<times> rx list) run" where
  "readn_loop nleft got rs =
     (if nleft = 0 then Done (int (length got), got, rs)
      else
        (case sys_read nleft rs of
           Done (GotIntr, rs') \<Rightarrow> readn_loop nleft got rs'
         | Done (GotErr, rs') \<Rightarrow> Done (-1, got, rs')
         | Done (Got bs, rs') \<Rightarrow>
             if bs = [] then Done (int (length got), got, rs')
             else readn_loop (nleft - length bs) (got @ bs) rs'
         | Blocked \<Rightarrow> Blocked
         | Undef \<Rightarrow> Undef))"
  by pat_completeness auto
termination
  by (relation "measure (\<lambda>(n, g, rs). n + length rs)") (auto simp: neq_Nil_conv dest!: sys_read_shrinks)

declare readn_loop.simps [simp del]

text \<open>The argument is an \<^verbatim>\<open>int\<close>: with a negative one the loop does not run and 0 is returned.\<close>

definition sys_readn :: "int \<Rightarrow> rx list \<Rightarrow> (int \<times> byte list \<times> rx list) run" where
  "sys_readn n rs = (if n \<le> 0 then Done (0, [], rs) else readn_loop (nat n) [] rs)"

section \<open>Writing\<close>

text \<open>The kernel accepts a number of bytes, is interrupted, or fails.\<close>

datatype wx = Accept nat | WxIntr | WxErr

datatype wres = Wrote nat | WroteIntr | WroteErr

fun sys_write :: "nat \<Rightarrow> wx list \<Rightarrow> (wres \<times> wx list) run" where
  "sys_write n [] = Blocked"
| "sys_write n (Accept k # ws) = Done (Wrote (min k n), ws)"
| "sys_write n (WxIntr # ws) = Done (WroteIntr, ws)"
| "sys_write n (WxErr # ws) = Done (WroteErr, ws)"

lemma sys_write_shrinks:
  "sys_write n ws = Done (r, ws') \<Longrightarrow> length ws' < length ws \<and> (\<forall>k. r = Wrote k \<longrightarrow> k \<le> n)"
  by (cases "(n, ws)" rule: sys_write.cases) auto

text \<open>The second component of the result is what the kernel has accepted.\<close>

function writen_loop :: "byte list \<Rightarrow> byte list \<Rightarrow> wx list \<Rightarrow> (bool \<times> byte list \<times> wx list) run" where
  "writen_loop todo sent ws =
     (if todo = [] then Done (True, sent, ws)
      else
        (case sys_write (length todo) ws of
           Done (WroteIntr, ws') \<Rightarrow> writen_loop todo sent ws'
         | Done (WroteErr, ws') \<Rightarrow> Done (False, sent, ws')
         | Done (Wrote k, ws') \<Rightarrow>
             if k = 0 then Done (False, sent, ws')
             else writen_loop (drop k todo) (sent @ take k todo) ws'
         | Blocked \<Rightarrow> Blocked
         | Undef \<Rightarrow> Undef))"
  by pat_completeness auto
termination
  by (relation "measure (\<lambda>(t, s, ws). length ws)") (auto dest!: sys_write_shrinks)

declare writen_loop.simps [simp del]

definition sys_writen :: "byte list \<Rightarrow> wx list \<Rightarrow> (int \<times> byte list \<times> wx list) run" where
  "sys_writen buf ws =
     run_bind (writen_loop buf [] ws)
       (\<lambda>(ok, sent, ws'). Done (if ok then int (length buf) else -1, sent, ws'))"

section \<open>Connecting, waiting, the clock\<close>

text \<open>
  What the network answers, by address family (\<open>True\<close> for IPv6): the descriptor
  \<^verbatim>\<open>socket\<close> returns, the result of \<^verbatim>\<open>inet_pton\<close> and that of \<^verbatim>\<open>connect\<close>. The two
  branches test \<^verbatim>\<open>inet_pton\<close> differently.
\<close>

record net =
  net_socket :: "bool \<Rightarrow> int"
  net_pton :: "bool \<Rightarrow> string \<Rightarrow> int"
  net_connect :: "bool \<Rightarrow> string \<Rightarrow> u16 \<Rightarrow> int"

definition tcp_open :: "net \<Rightarrow> string \<Rightarrow> u16 \<Rightarrow> int list \<Rightarrow> int \<times> int list" where
  "tcp_open N ipaddr port fds =
     (let isIpV6 = CHR '':'' \<in> set ipaddr;
          sockfd = net_socket N isIpV6
      in if sockfd = -1 then (-1, fds)
         else
           (let fds' = sockfd # fds;
                bad = (if isIpV6 then net_pton N isIpV6 ipaddr = 0 else net_pton N isIpV6 ipaddr \<le> 0)
            in if bad then (-1, remove1 sockfd fds')
               else if net_connect N isIpV6 ipaddr port = -1 then (-1, remove1 sockfd fds')
               else (sockfd, fds')))"

lemma tcp_open_balance:
  "tcp_open N ip port fds = (fd, fds') \<Longrightarrow> fds' = (if fd = -1 then fds else fd # fds)"
  by (auto simp: tcp_open_def Let_def split: if_splits)

datatype wait_for = WAIT_FOR_READ | WAIT_FOR_WRITE | WAIT_FOR_CONN

datatype sel = SelReturns nat | SelIntr | SelErr

fun select_loop :: "sel list \<Rightarrow> (int \<times> sel list) run" where
  "select_loop [] = Blocked"
| "select_loop (SelIntr # es) = select_loop es"
| "select_loop (SelErr # es) = Done (-1, es)"
| "select_loop (SelReturns n # es) = Done (int n, es)"

text \<open>
  \<^verbatim>\<open>FD_SET\<close> outside the set is undefined. The result holds which of the read and the write
  set were passed.
\<close>

definition FD_SETSIZE :: int where "FD_SETSIZE = 1024"

definition select_fd :: "int \<Rightarrow> wait_for \<Rightarrow> sel list \<Rightarrow> (int \<times> bool \<times> bool \<times> sel list) run" where
  "select_fd fd w es =
     (if fd < 0 \<or> FD_SETSIZE \<le> fd then Undef
      else
        (let rs = (w = WAIT_FOR_READ \<or> w = WAIT_FOR_CONN);
             ws = (w = WAIT_FOR_WRITE \<or> w = WAIT_FOR_CONN)
         in run_bind (select_loop es) (\<lambda>(r, es'). Done (r, rs, ws, es'))))"

definition getNowTimeSec :: "(int \<times> int) option \<Rightarrow> fp" where
  "getNowTimeSec ts =
     (case ts of
        Some (tv_sec, tv_nsec) \<Rightarrow> d_add (d_div (d_int tv_nsec) (d_lit 1000000000)) (d_int tv_sec)
      | None \<Rightarrow> d_int 0)"

section \<open>What a script delivers\<close>

fun rx_bytes :: "rx list \<Rightarrow> byte list" where
  "rx_bytes [] = []"
| "rx_bytes (Seg bs # rs) = bs @ rx_bytes rs"
| "rx_bytes (RxIntr # rs) = rx_bytes rs"
| "rx_bytes (RxErr # rs) = []"
| "rx_bytes (RxEof # rs) = []"

text \<open>Why a read of more than the delivered bytes ends: \<^term>\<open>None\<close> when it does not.\<close>

fun rx_end :: "rx list \<Rightarrow> rx option" where
  "rx_end [] = None"
| "rx_end (Seg bs # rs) = rx_end rs"
| "rx_end (RxIntr # rs) = rx_end rs"
| "rx_end (RxErr # rs) = Some RxErr"
| "rx_end (RxEof # rs) = Some RxEof"

lemma sys_read_cases:
  assumes "0 < n"
  obtains "sys_read n rs = Blocked" "rx_bytes rs = []" "rx_end rs = None"
  | rs' where "sys_read n rs = Done (GotIntr, rs')" "rx_bytes rs' = rx_bytes rs" "rx_end rs' = rx_end rs"
  | rs' where "sys_read n rs = Done (GotErr, rs')" "rx_bytes rs = []" "rx_end rs = Some RxErr"
  | rs' where "sys_read n rs = Done (Got [], rs')" "rx_bytes rs = []" "rx_end rs = Some RxEof"
      "rx_bytes rs' = []"
  | bs rs' where "sys_read n rs = Done (Got bs, rs')" "bs \<noteq> []" "length bs \<le> n"
      "rx_bytes rs = bs @ rx_bytes rs'" "rx_end rs' = rx_end rs"
  using assms that
proof (induction n rs rule: sys_read.induct)
  case (2 n bs rs)
  show ?case
  proof (cases "bs = []")
    case True
    with 2 show ?thesis by simp
  next
    case False
    with 2 show ?thesis by (cases "n < length bs") auto
  qed
qed auto

text \<open>
  However the bytes are cut into segments and however often the call is interrupted, the loop
  returns the first \<open>n\<close> bytes of the stream, or all there are when the stream ends earlier; it
  blocks exactly when the stream neither has them nor ends.
\<close>

lemma readn_loop_delivers:
  "(n \<le> length (rx_bytes rs) \<longrightarrow>
     (\<exists>rs'. readn_loop n got rs = Done (int (length got + n), got @ take n (rx_bytes rs), rs') \<and>
       rx_bytes rs' = drop n (rx_bytes rs) \<and> rx_end rs' = rx_end rs)) \<and>
   (length (rx_bytes rs) < n \<longrightarrow>
     (case rx_end rs of
        None \<Rightarrow> readn_loop n got rs = Blocked
      | Some z \<Rightarrow>
          \<exists>rs'. readn_loop n got rs =
            Done (if z = RxErr then -1 else int (length got + length (rx_bytes rs)),
                  got @ rx_bytes rs, rs')))"
proof (induction n got rs rule: readn_loop.induct)
  case (1 n got rs)
  show ?case
  proof (cases "n = 0")
    case True
    then show ?thesis by (simp add: readn_loop.simps)
  next
    case False
    then have "0 < n" by simp
    then show ?thesis
    proof (cases rule: sys_read_cases [where rs = rs])
      case (2 rs')
      have "readn_loop n got rs = readn_loop n got rs'"
        using False 2(1) by (simp add: readn_loop.simps [of n got rs])
      with 1(2) [OF False 2(1) refl refl] 2 show ?thesis by (auto split: option.splits)
    next
      case (5 bs rs')
      from 1(1) [OF False 5(1) refl refl 5(2)] False 5 show ?thesis
        by (auto simp: readn_loop.simps [of n got rs] le_diff_conv add.commute split: option.splits)
    qed (use False in \<open>auto simp: readn_loop.simps [of n got rs]\<close>)
  qed
qed

text \<open>
  \<^verbatim>\<open>sys_writen\<close>: what the kernel accepts is a prefix of the buffer, the whole of it
  exactly when the call reports success.
\<close>

definition sent_prefix :: "byte list \<Rightarrow> byte list \<Rightarrow> bool \<times> byte list \<times> wx list \<Rightarrow> bool" where
  "sent_prefix todo sent r \<longleftrightarrow>
     (case r of (ok, sent', ws') \<Rightarrow>
        \<exists>k \<le> length todo. sent' = sent @ take k todo \<and> (ok \<longleftrightarrow> k = length todo))"

lemma sent_prefix_extend:
  assumes "sent_prefix (drop m todo) (sent @ take m todo) r" and "m \<le> length todo"
  shows "sent_prefix todo sent r"
proof -
  obtain ok sent' ws' where r: "r = (ok, sent', ws')" by (cases r)
  with assms obtain k where k: "k \<le> length todo - m" "sent' = (sent @ take m todo) @ take k (drop m todo)"
    "ok \<longleftrightarrow> k = length todo - m" by (auto simp: sent_prefix_def)
  have "sent' = sent @ take (m + k) todo" using k(2) by (simp add: take_add)
  with k assms(2) r show ?thesis by (auto simp: sent_prefix_def intro!: exI [of _ "m + k"])
qed

lemma writen_loop_sends: "run_all (sent_prefix todo sent) (writen_loop todo sent ws)"
proof (induction todo sent ws rule: writen_loop.induct)
  case (1 todo sent ws)
  show ?case
  proof (cases "todo = []")
    case True
    then show ?thesis by (simp add: writen_loop.simps sent_prefix_def)
  next
    case False
    note step = writen_loop.simps [of todo sent ws]
    show ?thesis
    proof (cases ws)
      case Nil
      with False show ?thesis unfolding step by simp
    next
      case (Cons w ws')
      show ?thesis
      proof (cases w)
        case (Accept k)
        show ?thesis
        proof (cases "min k (length todo) = 0")
          case True
          with False Cons Accept show ?thesis unfolding step by (auto simp: sent_prefix_def intro: exI [of _ 0])
        next
          case k: False
          let ?k = "min k (length todo)"
          have wr: "sys_write (length todo) ws = Done (Wrote ?k, ws')" using Cons Accept by simp
          have loop: "writen_loop todo sent ws = writen_loop (drop ?k todo) (sent @ take ?k todo) ws'"
            unfolding step using False k wr by (auto simp: min_def)
          from 1(1) [OF False wr refl refl k] show ?thesis
            unfolding loop by (rule run_all_mono) (rule sent_prefix_extend, auto)
        qed
      next
        case WxIntr
        then have wr: "sys_write (length todo) ws = Done (WroteIntr, ws')" using Cons by simp
        from 1(2) [OF False wr refl refl] show ?thesis unfolding step using False wr by simp
      next
        case WxErr
        with False Cons show ?thesis unfolding step by (auto simp: sent_prefix_def intro: exI [of _ 0])
      qed
    qed
  qed
qed

lemma sys_readn_result:
  "run_all (\<lambda>(ret, bs, rs'). length bs \<le> nat n \<and> (ret = -1 \<and> 0 < n \<or> ret = int (length bs))) (sys_readn n rs)"
proof (cases "n \<le> 0")
  case True
  then show ?thesis by (simp add: sys_readn_def)
next
  case False
  with readn_loop_delivers [of "nat n" rs "[]"] show ?thesis
    by (cases "nat n \<le> length (rx_bytes rs)") (auto simp: sys_readn_def split: option.splits if_splits)
qed

end
