(* ===== verification/Tcp_Command.thy ===== *)
theory Tcp_Command
  imports Posix_Io
begin

text \<open>
  The command client of \<^verbatim>\<open>tcp_command_client.c\<close>, which fetches and stores the calibration of
  the sensor over TCP. The process state it touches is \<open>tcp_os\<close>: the scripts of the connection,
  the bytes sent, the open descriptors, the mutex of the client and the heap. A freed or foreign
  pointer that is used, a read outside a block and an access through a null pointer are
  \<^const>\<open>Undef\<close>. \<^verbatim>\<open>malloc\<close> is the argument \<open>mal\<close>: a block of the wanted size, or none.
  The log output is left out.
\<close>

section \<open>State\<close>

type_synonym ptr = "nat option"

definition PTC_COMMAND_GET_CALIBRATION :: byte where "PTC_COMMAND_GET_CALIBRATION = 0"
definition PTC_COMMAND_SET_CALIBRATION :: byte where "PTC_COMMAND_SET_CALIBRATION = 1"
definition PTC_COMMAND_RESET_CALIBRATION :: byte where "PTC_COMMAND_RESET_CALIBRATION = 3"
definition PTC_COMMAND_GET_LIDAR_CALIBRATION :: byte where "PTC_COMMAND_GET_LIDAR_CALIBRATION = 5"

text \<open>The values of \<^verbatim>\<open>PTC_ErrCode\<close>; a return code of the device is returned as such a value too.\<close>

definition PTC_ERROR_NO_ERROR :: nat where "PTC_ERROR_NO_ERROR = 0"
definition PTC_ERROR_BAD_PARAMETER :: nat where "PTC_ERROR_BAD_PARAMETER = 1"
definition PTC_ERROR_CONNECT_SERVER_FAILED :: nat where "PTC_ERROR_CONNECT_SERVER_FAILED = 2"
definition PTC_ERROR_TRANSFER_FAILED :: nat where "PTC_ERROR_TRANSFER_FAILED = 3"

lemmas ptc_codes = PTC_ERROR_NO_ERROR_def PTC_ERROR_BAD_PARAMETER_def
  PTC_ERROR_CONNECT_SERVER_FAILED_def PTC_ERROR_TRANSFER_FAILED_def

record TC_Command =
  h_cmd :: byte
  h_ret_code :: byte
  h_len :: u32
  c_data :: ptr
  c_ret_data :: ptr
  c_ret_size :: u32

definition zero_command :: TC_Command where
  "zero_command = \<lparr>h_cmd = 0, h_ret_code = 0, h_len = 0, c_data = None, c_ret_data = None, c_ret_size = 0\<rparr>"

text \<open>The 256 characters of \<^verbatim>\<open>ip\<close> and the port.\<close>

record TcpCommandClient =
  cl_ip :: string
  cl_port :: u16

record tcp_os =
  os_rx :: "rx list"
  os_tx :: "wx list"
  os_sent :: "byte list"
  os_fds :: "int list"
  os_locked :: bool
  os_heap :: "nat \<Rightarrow> byte list option"
  os_next :: nat

type_synonym allocator = "nat \<Rightarrow> byte list option"

definition malloc :: "allocator \<Rightarrow> nat \<Rightarrow> tcp_os \<Rightarrow> ptr \<times> tcp_os" where
  "malloc mal n s =
     (case mal n of
        None \<Rightarrow> (None, s)
      | Some b \<Rightarrow> (Some (os_next s), s\<lparr>os_heap := (os_heap s)(os_next s := Some b), os_next := Suc (os_next s)\<rparr>))"

definition free_ptr :: "ptr \<Rightarrow> tcp_os \<Rightarrow> tcp_os run" where
  "free_ptr p s =
     (case p of
        None \<Rightarrow> Done s
      | Some a \<Rightarrow> if os_heap s a = None then Undef else Done (s\<lparr>os_heap := (os_heap s)(a := None)\<rparr>))"

text \<open>The first \<open>n\<close> bytes behind a pointer; storing bytes at the start of a block.\<close>

definition load :: "ptr \<Rightarrow> nat \<Rightarrow> tcp_os \<Rightarrow> byte list run" where
  "load p n s =
     (if n = 0 then Done []
      else
        (case p of
           None \<Rightarrow> Undef
         | Some a \<Rightarrow> (case os_heap s a of None \<Rightarrow> Undef | Some b \<Rightarrow> if n \<le> length b then Done (take n b) else Undef)))"

definition overwrite :: "nat \<Rightarrow> byte list \<Rightarrow> byte list \<Rightarrow> byte list" where
  "overwrite i bs buf = take i buf @ bs @ drop (i + length bs) buf"

definition store :: "ptr \<Rightarrow> byte list \<Rightarrow> tcp_os \<Rightarrow> tcp_os run" where
  "store p bs s =
     (if bs = [] then Done s
      else
        (case p of
           None \<Rightarrow> Undef
         | Some a \<Rightarrow>
             (case os_heap s a of
                None \<Rightarrow> Undef
              | Some b \<Rightarrow> if length bs \<le> length b then Done (s\<lparr>os_heap := (os_heap s)(a := Some (overwrite 0 bs b))\<rparr>)
                          else Undef)))"

definition lock :: "tcp_os \<Rightarrow> tcp_os run" where
  "lock s = (if os_locked s then Blocked else Done (s\<lparr>os_locked := True\<rparr>))"

definition unlock :: "tcp_os \<Rightarrow> tcp_os" where
  "unlock s = s\<lparr>os_locked := False\<rparr>"

definition close_fd :: "int \<Rightarrow> tcp_os \<Rightarrow> tcp_os" where
  "close_fd fd s = s\<lparr>os_fds := remove1 fd (os_fds s)\<rparr>"

definition read_fd :: "int \<Rightarrow> tcp_os \<Rightarrow> (int \<times> byte list \<times> tcp_os) run" where
  "read_fd n s = run_bind (sys_readn n (os_rx s)) (\<lambda>(ret, bs, rs). Done (ret, bs, s\<lparr>os_rx := rs\<rparr>))"

text \<open>A plain \<^verbatim>\<open>write\<close>, which may accept less than it is given.\<close>

definition write_fd :: "byte list \<Rightarrow> tcp_os \<Rightarrow> (int \<times> tcp_os) run" where
  "write_fd bs s =
     run_bind (sys_write (length bs) (os_tx s))
       (\<lambda>(r, ws). Done
          (case r of
             Wrote k \<Rightarrow> (int k, s\<lparr>os_tx := ws, os_sent := os_sent s @ take k bs\<rparr>)
           | _ \<Rightarrow> (-1, s\<lparr>os_tx := ws\<rparr>)))"

text \<open>The string in a character array: undefined without a terminator.\<close>

definition c_string :: "string \<Rightarrow> string run" where
  "c_string cs = (if CHR 0x00 \<in> set cs then Done (takeWhile (\<lambda>c. c \<noteq> CHR 0x00) cs) else Undef)"

section \<open>Frames\<close>

definition tcpCommandHeaderParser :: "byte list \<Rightarrow> TC_Command \<Rightarrow> TC_Command" where
  "tcpCommandHeaderParser buffer c =
     c\<lparr>h_cmd := buffer ! 0, h_ret_code := buffer ! 1,
       h_len := be32 (buffer ! 2) (buffer ! 3) (buffer ! 4) (buffer ! 5)\<rparr>"

definition TcpCommand_buildHeader :: "TC_Command \<Rightarrow> byte list" where
  "TcpCommand_buildHeader c =
     [0x47, 0x74, h_cmd c, h_ret_code c, byte_of 3 (h_len c), byte_of 2 (h_len c), byte_of 1 (h_len c),
      byte_of 0 (h_len c)]"

text \<open>
  The payload of a reply whose header is in \<open>c\<close>. The comparison of the number read is made in
  32 unsigned bits.
\<close>

definition read_payload ::
  "allocator \<Rightarrow> TC_Command \<Rightarrow> tcp_os \<Rightarrow> (int \<times> TC_Command option \<times> tcp_os) run" where
  "read_payload mal c s =
     (let (p, s) = (if 0 < h_len c then malloc mal (unat (h_len c)) s else (None, s));
          c = c\<lparr>c_data := p\<rparr>
      in if 0 < h_len c \<and> p = None then Done (-1, Some c, s)
         else
           run_bind (read_fd (sint (h_len c)) s) (\<lambda>(ret, bs, s).
           run_bind (store p bs s) (\<lambda>s.
             if (of_int ret :: u32) \<noteq> h_len c
             then run_bind (free_ptr p s) (\<lambda>s. Done (-1, Some c, s))
             else Done (0, Some c, s))))"

text \<open>
  The header is collected in a stack buffer whose old contents are \<open>stack\<close>. The first test
  accepts a read of one byte, so it may compare a byte that was never received.
\<close>

definition read_header ::
  "allocator \<Rightarrow> byte list \<Rightarrow> tcp_os \<Rightarrow> (int \<times> TC_Command option \<times> tcp_os) run" where
  "read_header mal buffer s =
     run_bind (read_fd 6 s) (\<lambda>(ret, bs, s).
       if ret \<noteq> 6 then Done (-1, Some zero_command, s)
       else read_payload mal (tcpCommandHeaderParser (drop 2 (overwrite 2 bs buffer)) zero_command) s)"

definition tcpCommandReadCommand ::
  "allocator \<Rightarrow> byte list \<Rightarrow> TC_Command option \<Rightarrow> tcp_os \<Rightarrow> (int \<times> TC_Command option \<times> tcp_os) run" where
  "tcpCommandReadCommand mal stack cmd s =
     (if cmd = None then Done (-1, None, s)
      else
        run_bind (read_fd 2 s) (\<lambda>(ret, bs, s).
          let buffer = overwrite 0 bs stack
          in if ret \<le> 0 \<or> buffer ! 0 \<noteq> 0x47 \<or> buffer ! 1 \<noteq> 0x74 then Done (-1, Some zero_command, s)
             else read_header mal buffer s))"

text \<open>
  The transfer on an open connection: the header, the payload when there is one, the reply.
  \<open>None\<close> stands for the three error returns, which all release the descriptor and the mutex.
\<close>

definition write_payload :: "TC_Command \<Rightarrow> tcp_os \<Rightarrow> (bool \<times> tcp_os) run" where
  "write_payload c s =
     (if 0 < h_len c \<and> c_data c \<noteq> None
      then
        run_bind (load (c_data c) (unat (h_len c)) s) (\<lambda>bs.
        run_bind (write_fd bs s) (\<lambda>(ret, s). Done ((of_int ret :: u32) = h_len c, s)))
      else Done (True, s))"

definition transfer ::
  "allocator \<Rightarrow> byte list \<Rightarrow> TC_Command \<Rightarrow> tcp_os \<Rightarrow> (TC_Command option \<times> tcp_os) run" where
  "transfer mal stack c s =
     (let buffer = TcpCommand_buildHeader c; size = int (length buffer)
      in run_bind (write_fd buffer s) (\<lambda>(ret, s).
           if ret \<noteq> size then Done (None, s)
           else
             run_bind (write_payload c s) (\<lambda>(ok, s).
               if \<not> ok then Done (None, s)
               else
                 run_bind (tcpCommandReadCommand mal stack (Some zero_command) s) (\<lambda>(ret, fb, s).
                   Done (if ret \<noteq> 0 then None else fb, s)))))"

text \<open>The first test has \<^verbatim>\<open>&&\<close> where \<^verbatim>\<open>||\<close> is meant, so a single null pointer is used.\<close>

definition tcpCommandClient_SendCmd ::
  "net \<Rightarrow> allocator \<Rightarrow> byte list \<Rightarrow> TcpCommandClient option \<Rightarrow> TC_Command option \<Rightarrow> tcp_os \<Rightarrow>
   (nat \<times> TC_Command option \<times> tcp_os) run" where
  "tcpCommandClient_SendCmd N mal stack client cmd s =
     (if client = None \<and> cmd = None then Done (PTC_ERROR_BAD_PARAMETER, cmd, s)
      else
        (case cmd of
           None \<Rightarrow> Undef
         | Some c \<Rightarrow>
             if h_len c \<noteq> 0 \<and> c_data c = None then Done (PTC_ERROR_BAD_PARAMETER, cmd, s)
             else
               (case client of
                  None \<Rightarrow> Undef
                | Some cl \<Rightarrow>
                    run_bind (lock s) (\<lambda>s.
                    run_bind (c_string (cl_ip cl)) (\<lambda>ip.
                      let (fd, fds) = tcp_open N ip (cl_port cl) (os_fds s);
                          s = s\<lparr>os_fds := fds\<rparr>
                      in if fd < 0 then Done (PTC_ERROR_CONNECT_SERVER_FAILED, cmd, unlock s)
                         else
                           run_bind (transfer mal stack c s) (\<lambda>(fb, s).
                             Done (case fb of
                                     None \<Rightarrow> (PTC_ERROR_TRANSFER_FAILED, cmd, unlock (close_fd fd s))
                                   | Some f \<Rightarrow>
                                       (PTC_ERROR_NO_ERROR,
                                        Some (c\<lparr>c_ret_data := c_data f, c_ret_size := h_len f,
                                                h_ret_code := h_ret_code f\<rparr>),
                                        unlock (close_fd fd s)))))))))"

section \<open>The interface\<close>

text \<open>
  The client is a block of \<open>sz\<close> bytes (\<^verbatim>\<open>sizeof(TcpCommandClient)\<close>) on the heap; the two members
  that are used, and never changed, are kept in the record.
  \<^verbatim>\<open>strncpy(client->ip, ip, strlen(ip))\<close> goes into the 256 zeroed characters: undefined when the
  string is longer.
\<close>

definition TcpCommandClientNew ::
  "allocator \<Rightarrow> nat \<Rightarrow> string option \<Rightarrow> u16 \<Rightarrow> tcp_os \<Rightarrow> (TcpCommandClient option \<times> tcp_os) run" where
  "TcpCommandClientNew mal sz ip port s =
     (case ip of
        None \<Rightarrow> Done (None, s)
      | Some a \<Rightarrow>
          let (p, s) = malloc mal sz s
          in if p = None then Done (None, s)
             else
               run_bind (store p (replicate sz 0) s) (\<lambda>s.
                 if 256 < length a then Undef
                 else Done (Some \<lparr>cl_ip = a @ replicate (256 - length a) (CHR 0x00), cl_port = port\<rparr>, unlock s)))"

text \<open>
  \<open>buffer\<close> is the caller's C string, \<^verbatim>\<open>strdup\<close> copies it with its terminator. The payload is
  the first \<open>len\<close> bytes of the copy.
\<close>

definition TcpCommandSetCalibration ::
  "net \<Rightarrow> allocator \<Rightarrow> byte list \<Rightarrow> TcpCommandClient option \<Rightarrow> byte list option \<Rightarrow> u32 \<Rightarrow> tcp_os \<Rightarrow>
   (nat \<times> tcp_os) run" where
  "TcpCommandSetCalibration N mal stack handle buffer len s =
     (case buffer of
        None \<Rightarrow> Done (PTC_ERROR_BAD_PARAMETER, s)
      | Some str \<Rightarrow>
          if handle = None \<or> len = 0 then Done (PTC_ERROR_BAD_PARAMETER, s)
          else
            let (p, s) = malloc mal (Suc (length str)) s
            in run_bind (case p of None \<Rightarrow> Done s | Some a \<Rightarrow> store p (str @ [0]) s) (\<lambda>s.
                 let cmd = zero_command\<lparr>h_cmd := PTC_COMMAND_SET_CALIBRATION, h_len := len, c_data := p\<rparr>
                 in run_bind (tcpCommandClient_SendCmd N mal stack handle (Some cmd) s) (\<lambda>(rc, cmd', s).
                      run_bind (free_ptr p s) (\<lambda>s.
                        if rc \<noteq> PTC_ERROR_NO_ERROR then Done (rc, s)
                        else
                          (case cmd' of
                             None \<Rightarrow> Undef
                           | Some c \<Rightarrow>
                               run_bind (free_ptr (c_ret_data c) s) (\<lambda>s. Done (unat (h_ret_code c), s)))))))"

text \<open>
  The two getters differ in the command. The result is a new block with the reply and a
  terminator, and its length.
\<close>

definition get_calibration ::
  "byte \<Rightarrow> net \<Rightarrow> allocator \<Rightarrow> byte list \<Rightarrow> TcpCommandClient option \<Rightarrow> bool \<Rightarrow> bool \<Rightarrow> tcp_os \<Rightarrow>
   (nat \<times> (ptr \<times> u32) option \<times> tcp_os) run" where
  "get_calibration code N mal stack handle buffer len s =
     (if handle = None \<or> \<not> buffer \<or> \<not> len then Done (PTC_ERROR_BAD_PARAMETER, None, s)
      else
        let cmd = zero_command\<lparr>h_cmd := code\<rparr>
        in run_bind (tcpCommandClient_SendCmd N mal stack handle (Some cmd) s) (\<lambda>(rc, cmd', s).
             if rc \<noteq> PTC_ERROR_NO_ERROR then Done (rc, None, s)
             else
               (case cmd' of
                  None \<Rightarrow> Undef
                | Some c \<Rightarrow>
                    let (p, s) = malloc mal (unat (c_ret_size c + 1)) s
                    in run_bind (load (c_ret_data c) (unat (c_ret_size c)) s) (\<lambda>bs.
                       run_bind (store p (bs @ [0]) s) (\<lambda>s.
                       run_bind (free_ptr (c_ret_data c) s) (\<lambda>s.
                         Done (unat (h_ret_code c), Some (p, c_ret_size c + 1), s)))))))"

definition TcpCommandGetCalibration ::
  "net \<Rightarrow> allocator \<Rightarrow> byte list \<Rightarrow> TcpCommandClient option \<Rightarrow> bool \<Rightarrow> bool \<Rightarrow> tcp_os \<Rightarrow>
   (nat \<times> (ptr \<times> u32) option \<times> tcp_os) run" where
  "TcpCommandGetCalibration = get_calibration PTC_COMMAND_GET_CALIBRATION"

definition TcpCommandGetLidarCalibration ::
  "net \<Rightarrow> allocator \<Rightarrow> byte list \<Rightarrow> TcpCommandClient option \<Rightarrow> bool \<Rightarrow> bool \<Rightarrow> tcp_os \<Rightarrow>
   (nat \<times> (ptr \<times> u32) option \<times> tcp_os) run" where
  "TcpCommandGetLidarCalibration = get_calibration PTC_COMMAND_GET_LIDAR_CALIBRATION"

definition TcpCommandResetCalibration ::
  "net \<Rightarrow> allocator \<Rightarrow> byte list \<Rightarrow> TcpCommandClient option \<Rightarrow> tcp_os \<Rightarrow> (nat \<times> tcp_os) run" where
  "TcpCommandResetCalibration N mal stack handle s =
     (if handle = None then Done (PTC_ERROR_BAD_PARAMETER, s)
      else
        let cmd = zero_command\<lparr>h_cmd := PTC_COMMAND_RESET_CALIBRATION\<rparr>
        in run_bind (tcpCommandClient_SendCmd N mal stack handle (Some cmd) s) (\<lambda>(rc, cmd', s).
             if rc \<noteq> PTC_ERROR_NO_ERROR then Done (rc, s)
             else
               (case cmd' of
                  None \<Rightarrow> Undef
                | Some c \<Rightarrow> run_bind (free_ptr (c_ret_data c) s) (\<lambda>s. Done (unat (h_ret_code c), s)))))"

section \<open>Nothing leaks\<close>

definition heap_ok :: "tcp_os \<Rightarrow> bool" where
  "heap_ok s \<longleftrightarrow> (\<forall>a \<ge> os_next s. os_heap s a = None)"

definition alloc_ok :: "allocator \<Rightarrow> bool" where
  "alloc_ok mal \<longleftrightarrow> (\<forall>n b. mal n = Some b \<longrightarrow> length b = n)"

text \<open>The state up to the scripts, the heap and the bytes sent.\<close>

definition same_fds :: "tcp_os \<Rightarrow> tcp_os \<Rightarrow> bool" where
  "same_fds s s' \<longleftrightarrow> os_fds s' = os_fds s \<and> os_locked s' = os_locked s"

text \<open>What a reply leaves: nothing, or one new block with the payload.\<close>

definition holds_reply :: "tcp_os \<Rightarrow> ptr \<Rightarrow> u32 \<Rightarrow> tcp_os \<Rightarrow> bool" where
  "holds_reply s p len s' \<longleftrightarrow>
     (if len = 0 then p = None \<and> os_heap s' = os_heap s
      else \<exists>a bs. p = Some a \<and> os_heap s a = None \<and> length bs = unat len \<and> unat len < 2 ^ 31 \<and>
             os_heap s' = (os_heap s)(a := Some bs))"

lemma ret_matches:
  fixes n :: u32
  assumes "length bs \<le> nat (sint n)" and "ret = -1 \<and> 0 < sint n \<or> ret = int (length bs)" and "of_int ret = n"
  shows "length bs = unat n \<and> unat n < 2 ^ 31"
  using assms(2)
proof
  assume "ret = -1 \<and> 0 < sint n"
  with assms(3) show ?thesis by auto
next
  assume r: "ret = int (length bs)"
  have "sint n < 2 ^ 31" using sint_lt [of n] by simp
  with assms(1) have l: "length bs < 2 ^ 31" by simp
  then have "length bs < 2 ^ LENGTH(32)" by simp
  moreover have "n = of_nat (length bs)" using assms(3) r by simp
  ultimately have "unat n = length bs" by (simp only: unat_of_nat_small)
  with l show ?thesis by simp
qed

lemma nat_sint_le: "nat (sint (n :: u32)) \<le> unat n"
proof -
  have "sint n \<le> uint n" by (simp add: sint_uint signed_take_bit_int_less_eq_self_iff order_trans [of _ 0])
  then show ?thesis by (simp add: nat_le_iff)
qed

lemma read_fd_all:
  "run_all (\<lambda>(ret, bs, s'). (\<exists>rs. s' = s\<lparr>os_rx := rs\<rparr>) \<and> length bs \<le> nat n \<and>
     (ret = -1 \<and> 0 < n \<or> ret = int (length bs))) (read_fd n s)"
  using sys_readn_result [of n "os_rx s"] unfolding read_fd_def run_all_bind
  by (rule run_all_mono) auto

lemma write_fd_all:
  "run_all (\<lambda>(ret, s'). same_fds s s' \<and> os_heap s' = os_heap s \<and> os_next s' = os_next s) (write_fd bs s)"
  by (cases "(length bs, os_tx s)" rule: sys_write.cases) (auto simp: write_fd_def same_fds_def)

lemma malloc_fresh:
  assumes "alloc_ok mal" and "heap_ok s" and "malloc mal n s = (Some a, s')"
  obtains b where "os_heap s a = None" "length b = n"
    "s' = s\<lparr>os_heap := (os_heap s)(a := Some b), os_next := Suc (os_next s)\<rparr>" "a = os_next s"
proof -
  obtain b where "mal n = Some b" "a = os_next s"
    "s' = s\<lparr>os_heap := (os_heap s)(a := Some b), os_next := Suc (os_next s)\<rparr>"
    using assms(3) by (auto simp: malloc_def split: option.splits)
  moreover from this have "length b = n" "os_heap s a = None"
    using assms(1,2) by (simp_all add: alloc_ok_def heap_ok_def)
  ultimately show ?thesis using that by blast
qed

lemma malloc_fails: "malloc mal n s = (None, s') \<Longrightarrow> s' = s"
  by (auto simp: malloc_def split: option.splits)

definition read_outcome :: "tcp_os \<Rightarrow> int \<times> TC_Command option \<times> tcp_os \<Rightarrow> bool" where
  "read_outcome s r \<longleftrightarrow>
     (case r of (ret, fb, s') \<Rightarrow>
        same_fds s s' \<and> heap_ok s' \<and>
        (\<exists>f. fb = Some f \<and>
           (if ret = 0 then holds_reply s (c_data f) (h_len f) s'
            else ret = -1 \<and> os_heap s' = os_heap s)))"

lemma heap_ok_rx [simp]: "heap_ok (s\<lparr>os_rx := rs\<rparr>) = heap_ok s"
  by (simp add: heap_ok_def)

lemma read_outcome_rx [simp]: "read_outcome (s\<lparr>os_rx := rs\<rparr>) = read_outcome s"
  by (simp add: fun_eq_iff read_outcome_def same_fds_def holds_reply_def)

lemma read_outcome_failed [simp]: "read_outcome s (-1, Some f, s\<lparr>os_rx := rs\<rparr>) = heap_ok s"
  by (simp add: read_outcome_def same_fds_def heap_ok_def)

lemma read_payload_block:
  assumes heap: "heap_ok s" and al: "alloc_ok mal" and a: "malloc mal (unat (h_len c)) s = (Some a, s1)"
    and pos: "0 < h_len c"
  shows "run_all (read_outcome s) (read_payload mal c s)"
proof -
  let ?c = "c\<lparr>c_data := Some a\<rparr>"
  obtain b where b: "os_heap s a = None" "length b = unat (h_len c)" "a = os_next s"
    "s1 = s\<lparr>os_heap := (os_heap s)(a := Some b), os_next := Suc (os_next s)\<rparr>"
    using malloc_fresh [OF al heap a] by blast
  have "run_all (\<lambda>(ret, bs, s). run_all (read_outcome s0)
      (run_bind (store (Some a) bs s) (\<lambda>s.
        if (of_int ret :: u32) \<noteq> h_len c then run_bind (free_ptr (Some a) s) (\<lambda>s. Done (-1, Some ?c, s))
        else Done (0, Some ?c, s)))) (read_fd (sint (h_len c)) s1)" if "s0 = s" for s0
  proof (rule run_all_mono [OF read_fd_all], clarify)
    fix ret rs and bs :: "byte list"
    assume l: "length bs \<le> nat (sint (h_len c))"
      and r: "ret = -1 \<and> 0 < sint (h_len c) \<or> ret = int (length bs)"
    have lb: "length bs \<le> length b" using l nat_sint_le [of "h_len c"] b(2) by simp
    then obtain b' s2 where st: "store (Some a) bs (s1\<lparr>os_rx := rs\<rparr>) = Done s2"
      "os_heap s2 = (os_heap s)(a := Some b')" "length b' = length b" "same_fds s s2"
      "os_next s2 = Suc (os_next s)"
      using b(4) by (cases "bs = []") (auto simp: store_def overwrite_def same_fds_def)
    show "run_all (read_outcome s0) (run_bind (store (Some a) bs (s1\<lparr>os_rx := rs\<rparr>)) (\<lambda>s.
        if (of_int ret :: u32) \<noteq> h_len c then run_bind (free_ptr (Some a) s) (\<lambda>s. Done (-1, Some ?c, s))
        else Done (0, Some ?c, s)))"
    proof (cases "(of_int ret :: u32) = h_len c")
      case True
      from ret_matches [OF l r this] True show ?thesis
        using st b heap pos that
        by (auto simp: read_outcome_def same_fds_def heap_ok_def holds_reply_def)
    next
      case False
      then show ?thesis
        using st b heap that
        by (auto simp: read_outcome_def same_fds_def heap_ok_def free_ptr_def fun_eq_iff)
    qed
  qed
  from this [OF refl] show ?thesis using a pos by (simp add: read_payload_def case_prod_unfold Let_def cong: if_cong)
qed

lemma read_payload_all:
  assumes heap: "heap_ok s" and al: "alloc_ok mal"
  shows "run_all (read_outcome s) (read_payload mal c s)"
proof (cases "0 < h_len c")
  case False
  then have "h_len c = 0" by (simp add: word_gt_0)
  with heap show ?thesis
    by (simp add: read_payload_def read_fd_def sys_readn_def store_def read_outcome_def same_fds_def
        heap_ok_def holds_reply_def)
next
  case True
  obtain p s1 where m: "malloc mal (unat (h_len c)) s = (p, s1)" by (cases "malloc mal (unat (h_len c)) s")
  show ?thesis
  proof (cases p)
    case None
    with m have "s1 = s" by (simp add: malloc_fails)
    with None m True heap show ?thesis
      by (simp add: read_payload_def read_outcome_def same_fds_def heap_ok_def)
  next
    case (Some a)
    with m True read_payload_block [OF heap al] show ?thesis by simp
  qed
qed

lemma ReadCommand_all:
  assumes heap: "heap_ok s" and al: "alloc_ok mal"
  shows "run_all (read_outcome s) (tcpCommandReadCommand mal stack (Some c0) s)"
proof -
  have hd: "run_all (read_outcome s) (read_header mal buffer (s\<lparr>os_rx := rs\<rparr>))" for buffer rs
    unfolding read_header_def run_all_bind
    by (rule run_all_mono [OF read_fd_all]) (use heap read_payload_all [OF _ al, of "s\<lparr>os_rx := r\<rparr>" for r] in auto)
  have "run_all (\<lambda>(ret, bs, s'). \<exists>rs. s' = s\<lparr>os_rx := rs\<rparr>) (read_fd 2 s)"
    by (rule run_all_mono [OF read_fd_all]) auto
  then show ?thesis
    unfolding tcpCommandReadCommand_def
    by (auto simp: Let_def heap intro!: hd elim: run_all_mono)
qed

section \<open>Every return is balanced\<close>

definition transfer_outcome :: "tcp_os \<Rightarrow> TC_Command option \<times> tcp_os \<Rightarrow> bool" where
  "transfer_outcome s r \<longleftrightarrow>
     (case r of (fb, s') \<Rightarrow>
        same_fds s s' \<and> heap_ok s' \<and>
        (case fb of None \<Rightarrow> os_heap s' = os_heap s | Some f \<Rightarrow> holds_reply s (c_data f) (h_len f) s'))"

text \<open>The payload is readable.\<close>

definition payload_ok :: "TC_Command \<Rightarrow> tcp_os \<Rightarrow> bool" where
  "payload_ok c s \<longleftrightarrow>
     (h_len c \<noteq> 0 \<longrightarrow>
        (\<exists>a b. c_data c = Some a \<and> os_heap s a = Some b \<and> unat (h_len c) \<le> length b))"

definition quiet :: "tcp_os \<Rightarrow> tcp_os \<Rightarrow> bool" where
  "quiet s s' \<longleftrightarrow> same_fds s s' \<and> os_heap s' = os_heap s \<and> os_next s' = os_next s"

lemma write_payload_all:
  assumes "payload_ok c s"
  shows "run_all (\<lambda>(ok, s'). quiet s s') (write_payload c s)"
proof (cases "0 < h_len c \<and> c_data c \<noteq> None")
  case True
  then obtain a b where ab: "c_data c = Some a" "os_heap s a = Some b" "unat (h_len c) \<le> length b"
    using assms by (auto simp: payload_ok_def word_gt_0)
  then have "load (c_data c) (unat (h_len c)) s = Done (take (unat (h_len c)) b)"
    by (simp add: load_def)
  with True show ?thesis
    unfolding write_payload_def quiet_def
    using write_fd_all [of s "take (unat (h_len c)) b"] by (simp add: case_prod_unfold)
qed (auto simp: write_payload_def quiet_def same_fds_def)

lemma quiet_transfer_outcome:
  "quiet s s' \<Longrightarrow> transfer_outcome s' r \<Longrightarrow> transfer_outcome s r"
  by (auto simp: quiet_def transfer_outcome_def same_fds_def holds_reply_def split: option.splits)

lemma transfer_all:
  assumes heap: "heap_ok s" and al: "alloc_ok mal" and pay: "payload_ok c s"
  shows "run_all (transfer_outcome s) (transfer mal stack c s)"
proof -
  have stop: "transfer_outcome s (None, s')" if "quiet s s'" for s'
    using that heap by (auto simp: quiet_def transfer_outcome_def heap_ok_def)
  have read: "run_all (transfer_outcome s)
      (run_bind (tcpCommandReadCommand mal stack (Some zero_command) s') (\<lambda>(ret, fb, s).
         Done (if ret \<noteq> 0 then None else fb, s)))" if q: "quiet s s'" for s'
  proof -
    have "heap_ok s'" using q heap by (simp add: quiet_def heap_ok_def)
    from ReadCommand_all [OF this al]
    have "run_all (transfer_outcome s') (run_bind (tcpCommandReadCommand mal stack (Some zero_command) s')
        (\<lambda>(ret, fb, s). Done (if ret \<noteq> 0 then None else fb, s)))"
      unfolding run_all_bind
      by (rule run_all_mono) (auto simp: read_outcome_def transfer_outcome_def)
    then show ?thesis using quiet_transfer_outcome [OF q] by (rule run_all_mono)
  qed
  have pay': "payload_ok c s'" if "quiet s s'" for s'
    using that pay by (auto simp: payload_ok_def quiet_def)
  have w: "run_all (\<lambda>(ok, s''). quiet s s'') (write_payload c s')" if "quiet s s'" for s'
    using write_payload_all [OF pay' [OF that]] that
    by (auto elim!: run_all_mono simp: quiet_def same_fds_def)
  have "run_all (\<lambda>(ret, s'). quiet s s') (write_fd (TcpCommand_buildHeader c) s)"
    using write_fd_all by (simp add: quiet_def)
  then show ?thesis
    unfolding transfer_def Let_def run_all_bind
    by (rule run_all_mono)
      (auto simp: stop intro!: run_all_mono [OF w] read [unfolded run_all_bind] split: if_splits)
qed

text \<open>What the client relies on: a terminated address, and descriptors that are not negative.\<close>

definition client_ok :: "TcpCommandClient \<Rightarrow> bool" where
  "client_ok cl \<longleftrightarrow> CHR 0x00 \<in> set (cl_ip cl)"

definition net_ok :: "net \<Rightarrow> bool" where
  "net_ok N \<longleftrightarrow> (\<forall>v6. -1 \<le> net_socket N v6)"

definition send_outcome :: "tcp_os \<Rightarrow> TC_Command \<Rightarrow> nat \<times> TC_Command option \<times> tcp_os \<Rightarrow> bool" where
  "send_outcome s c r \<longleftrightarrow>
     (case r of (rc, cmd', s') \<Rightarrow>
        same_fds s s' \<and> heap_ok s' \<and>
        (if rc = PTC_ERROR_NO_ERROR
         then \<exists>f. cmd' = Some f \<and> holds_reply s (c_ret_data f) (c_ret_size f) s'
         else rc \<le> PTC_ERROR_TRANSFER_FAILED \<and> cmd' = Some c \<and> os_heap s' = os_heap s))"

lemma SendCmd_all:
  assumes cl: "client_ok cl" and N: "net_ok N" and heap: "heap_ok s" and al: "alloc_ok mal"
    and un: "\<not> os_locked s" and pay: "c_data c \<noteq> None \<longrightarrow> payload_ok c s"
  shows "run_all (send_outcome s c) (tcpCommandClient_SendCmd N mal stack (Some cl) (Some c) s)"
proof (cases "h_len c \<noteq> 0 \<and> c_data c = None")
  case True
  with heap show ?thesis
    by (simp add: tcpCommandClient_SendCmd_def send_outcome_def same_fds_def ptc_codes)
next
  case False
  obtain ip where ip: "c_string (cl_ip cl) = Done ip" using cl by (simp add: client_ok_def c_string_def)
  obtain fd fds where o: "tcp_open N ip (cl_port cl) (os_fds s) = (fd, fds)"
    by (cases "tcp_open N ip (cl_port cl) (os_fds s)")
  have bal: "fds = (if fd = -1 then os_fds s else fd # os_fds s)" using tcp_open_balance [OF o] .
  have fd: "-1 \<le> fd" using o N by (auto simp: tcp_open_def net_ok_def Let_def split: if_splits)
  let ?s = "s\<lparr>os_locked := True, os_fds := fds\<rparr>"
  have tr: "run_all (transfer_outcome ?s) (transfer mal stack c ?s)"
    using heap al pay False by (intro transfer_all) (auto simp: heap_ok_def payload_ok_def)
  have fin: "send_outcome s c (case fb of None \<Rightarrow> (PTC_ERROR_TRANSFER_FAILED, Some c, unlock (close_fd fd s'))
      | Some f \<Rightarrow> (PTC_ERROR_NO_ERROR, Some (c\<lparr>c_ret_data := c_data f, c_ret_size := h_len f,
          h_ret_code := h_ret_code f\<rparr>), unlock (close_fd fd s')))"
    if "transfer_outcome ?s (fb, s')" "0 \<le> fd" for fb s'
    using that bal un
    by (auto simp: transfer_outcome_def send_outcome_def same_fds_def unlock_def close_fd_def
        heap_ok_def holds_reply_def ptc_codes split: option.splits)
  show ?thesis
  proof (cases "fd < 0")
    case True
    with fd bal have "fds = os_fds s" by auto
    with True False o ip un heap show ?thesis
      by (simp add: tcpCommandClient_SendCmd_def lock_def send_outcome_def same_fds_def unlock_def
          heap_ok_def ptc_codes)
  next
    case nn: False
    have "run_all (\<lambda>x. run_all (send_outcome s c) (case x of (fb, s) \<Rightarrow>
        Done (case fb of None \<Rightarrow> (PTC_ERROR_TRANSFER_FAILED, Some c, unlock (close_fd fd s))
          | Some f \<Rightarrow> (PTC_ERROR_NO_ERROR, Some (c\<lparr>c_ret_data := c_data f, c_ret_size := h_len f,
              h_ret_code := h_ret_code f\<rparr>), unlock (close_fd fd s))))) (transfer mal stack c ?s)"
      using tr by (rule run_all_mono) (use fin nn in auto)
    with False nn o ip un show ?thesis
      by (auto simp: tcpCommandClient_SendCmd_def lock_def)
  qed
qed

end
