(* ===== verification/Tcp_Props.thy ===== *)
theory Tcp_Props
  imports Tcp_Command
begin

text \<open>
  The properties of the command client: no call of the interface leaves a descriptor, the mutex
  or memory behind, whatever the network does; a well-formed reply is returned as it was sent,
  however the stream is cut; without a reply the call never returns.
\<close>

section \<open>The interface is balanced\<close>

lemma holds_reply_free:
  assumes "holds_reply s p len s'"
  shows "\<exists>s2. free_ptr p s' = Done s2 \<and> same_fds s' s2 \<and> os_heap s2 = os_heap s"
  using assms by (auto simp: holds_reply_def free_ptr_def same_fds_def fun_eq_iff split: if_splits)

lemma same_fds_trans: "same_fds s s' \<Longrightarrow> same_fds s' s'' \<Longrightarrow> same_fds s s''"
  by (simp add: same_fds_def)

text \<open>The setting of a call: a client and a network that are in order, the mutex free.\<close>

definition setting :: "TcpCommandClient \<Rightarrow> net \<Rightarrow> allocator \<Rightarrow> tcp_os \<Rightarrow> bool" where
  "setting cl N mal s \<longleftrightarrow> client_ok cl \<and> net_ok N \<and> alloc_ok mal \<and> heap_ok s \<and> \<not> os_locked s"

lemma send_then:
  assumes "setting cl N mal s" and "c_data c \<noteq> None \<longrightarrow> payload_ok c s"
    and fail: "\<And>rc s'. rc \<noteq> PTC_ERROR_NO_ERROR \<Longrightarrow> same_fds s s' \<Longrightarrow> heap_ok s' \<Longrightarrow>
      os_heap s' = os_heap s \<Longrightarrow> run_all Q (k (rc, Some c, s'))"
    and succ: "\<And>f s'. same_fds s s' \<Longrightarrow> heap_ok s' \<Longrightarrow>
      holds_reply s (c_ret_data f) (c_ret_size f) s' \<Longrightarrow> run_all Q (k (PTC_ERROR_NO_ERROR, Some f, s'))"
  shows "run_all Q (run_bind (tcpCommandClient_SendCmd N mal stack (Some cl) (Some c) s) k)"
proof -
  have "run_all (send_outcome s c) (tcpCommandClient_SendCmd N mal stack (Some cl) (Some c) s)"
    using assms(1,2) by (intro SendCmd_all) (simp_all add: setting_def)
  then show ?thesis
    unfolding run_all_bind
    by (rule run_all_mono) (auto simp: send_outcome_def split: if_splits intro: fail succ)
qed

lemma Reset_all:
  assumes "setting cl N mal s"
  shows "run_all (\<lambda>(rc, s'). same_fds s s' \<and> os_heap s' = os_heap s)
    (TcpCommandResetCalibration N mal stack (Some cl) s)"
  unfolding TcpCommandResetCalibration_def if_not_P [OF option.distinct(2)] Let_def
  by (rule send_then [OF assms])
    (auto simp: zero_command_def same_fds_def dest!: holds_reply_free)

lemma get_reply_block:
  assumes r: "holds_reply s (c_ret_data c) (c_ret_size c) s1" and h: "heap_ok s1" and al: "alloc_ok mal"
    and m: "malloc mal (unat (c_ret_size c + 1)) s1 = (Some a, s2)"
  shows "\<exists>bs s3 s4. load (c_ret_data c) (unat (c_ret_size c)) s2 = Done bs \<and>
    store (Some a) (bs @ [0]) s2 = Done s3 \<and> free_ptr (c_ret_data c) s3 = Done s4 \<and>
    same_fds s1 s4 \<and> os_heap s a = None \<and> length bs = unat (c_ret_size c) \<and>
    unat (c_ret_size c + 1) = Suc (length bs) \<and> os_heap s4 = (os_heap s)(a := Some (bs @ [0]))"
proof -
  obtain b where b: "os_heap s1 a = None" "length b = unat (c_ret_size c + 1)"
    "s2 = s1\<lparr>os_heap := (os_heap s1)(a := Some b), os_next := Suc (os_next s1)\<rparr>"
    using malloc_fresh [OF al h m] by blast
  show ?thesis
  proof (cases "c_ret_size c = 0")
    case True
    with r b show ?thesis
      by (auto simp: holds_reply_def load_def store_def free_ptr_def overwrite_def same_fds_def)
  next
    case False
    with r obtain p bs where p: "c_ret_data c = Some p" "os_heap s p = None"
      "length bs = unat (c_ret_size c)" "unat (c_ret_size c) < 2 ^ 31" "os_heap s1 = (os_heap s)(p := Some bs)"
      by (auto simp: holds_reply_def)
    have ne: "a \<noteq> p" using p b(1) by auto
    have l: "unat (c_ret_size c + 1) = Suc (unat (c_ret_size c))"
      using p(4) by (simp add: unat_word_ariths)
    have nz: "unat (c_ret_size c) \<noteq> 0" using False by (simp add: unat_eq_zero)
    show ?thesis
      using p b ne l nz
      by (auto simp: load_def store_def free_ptr_def overwrite_def same_fds_def fun_eq_iff)
  qed
qed

lemma get_all:
  assumes set: "setting cl N mal s" and mem: "\<And>n. mal n \<noteq> None"
  shows "run_all (\<lambda>(rc, out, s'). same_fds s s' \<and>
      (case out of
         None \<Rightarrow> rc \<noteq> PTC_ERROR_NO_ERROR \<and> os_heap s' = os_heap s
       | Some (p, n) \<Rightarrow> \<exists>a bs. p = Some a \<and> os_heap s a = None \<and> unat n = Suc (length bs) \<and>
           os_heap s' = (os_heap s)(a := Some (bs @ [0]))))
    (get_calibration code N mal stack (Some cl) True True s)"
proof -
  let ?Q = "\<lambda>(rc, out, s'). same_fds s s' \<and>
      (case out of
         None \<Rightarrow> rc \<noteq> PTC_ERROR_NO_ERROR \<and> os_heap s' = os_heap s
       | Some (p, n) \<Rightarrow> \<exists>a bs. p = Some a \<and> os_heap s a = None \<and> unat n = Suc (length bs) \<and>
           os_heap s' = (os_heap s)(a := Some (bs @ [0])))"
  have succ: "run_all ?Q (let (p, s2) = malloc mal (unat (c_ret_size c + 1)) s1
      in run_bind (load (c_ret_data c) (unat (c_ret_size c)) s2) (\<lambda>bs.
         run_bind (store p (bs @ [0]) s2) (\<lambda>s.
         run_bind (free_ptr (c_ret_data c) s) (\<lambda>s.
           Done (unat (h_ret_code c), Some (p, c_ret_size c + 1), s)))))"
    if s1: "same_fds s s1" "heap_ok s1" "holds_reply s (c_ret_data c) (c_ret_size c) s1" for c s1
  proof -
    obtain a s2 where m: "malloc mal (unat (c_ret_size c + 1)) s1 = (Some a, s2)"
      using mem [of "unat (c_ret_size c + 1)"] by (auto simp: malloc_def)
    have al: "alloc_ok mal" using set by (simp add: setting_def)
    obtain bs s3 s4 where g: "load (c_ret_data c) (unat (c_ret_size c)) s2 = Done bs"
      "store (Some a) (bs @ [0]) s2 = Done s3" "free_ptr (c_ret_data c) s3 = Done s4" "same_fds s1 s4"
      "os_heap s a = None" "unat (c_ret_size c + 1) = Suc (length bs)"
      "os_heap s4 = (os_heap s)(a := Some (bs @ [0]))"
      using get_reply_block [OF s1(3,2) al m] by blast
    then show ?thesis using m same_fds_trans [OF s1(1) g(4)] by (auto intro!: exI [of _ bs])
  qed
  show ?thesis
    unfolding get_calibration_def Let_def
    by (subst if_not_P, simp, rule send_then [OF set])
      (use succ [unfolded Let_def] in \<open>auto simp: zero_command_def\<close>)
qed

text \<open>\<^verbatim>\<open>TcpCommandSetCalibration\<close>: \<open>len\<close> may not exceed the string and its terminator.\<close>

lemma set_all:
  assumes set: "setting cl N mal s" and len: "unat len \<le> Suc (length str)"
  shows "run_all (\<lambda>(rc, s'). same_fds s s' \<and> os_heap s' = os_heap s)
    (TcpCommandSetCalibration N mal stack (Some cl) (Some str) len s)"
proof (cases "len = 0")
  case True
  then show ?thesis by (simp add: TcpCommandSetCalibration_def same_fds_def)
next
  case False
  obtain p s1 where m: "malloc mal (Suc (length str)) s = (p, s1)" by (cases "malloc mal (Suc (length str)) s")
  let ?c = "zero_command\<lparr>h_cmd := PTC_COMMAND_SET_CALIBRATION, h_len := len, c_data := p\<rparr>"
  let ?k = "\<lambda>(rc, cmd', s). run_bind (free_ptr p s) (\<lambda>s.
      if rc \<noteq> PTC_ERROR_NO_ERROR then Done (rc, s)
      else (case cmd' of None \<Rightarrow> Undef
            | Some c \<Rightarrow> run_bind (free_ptr (c_ret_data c) s) (\<lambda>s. Done (unat (h_ret_code c), s))))"
  let ?Q = "\<lambda>(rc, s'). same_fds s s' \<and> os_heap s' = os_heap s"
  show ?thesis
  proof (cases p)
    case None
    with m have "s1 = s" by (simp add: malloc_fails)
    moreover have "run_all ?Q (run_bind (tcpCommandClient_SendCmd N mal stack (Some cl) (Some ?c) s) ?k)"
      using None by (intro send_then [OF set]) (auto simp: free_ptr_def dest!: holds_reply_free intro: same_fds_trans)
    ultimately show ?thesis
      using False m None by (simp add: TcpCommandSetCalibration_def Let_def)
  next
    case (Some a)
    with m malloc_fresh [of mal s "Suc (length str)" a s1] set
    obtain b where b: "os_heap s a = None" "length b = Suc (length str)" "a = os_next s"
      "s1 = s\<lparr>os_heap := (os_heap s)(a := Some b), os_next := Suc (os_next s)\<rparr>"
      by (metis setting_def)
    let ?s = "s1\<lparr>os_heap := (os_heap s)(a := Some (str @ [0]))\<rparr>"
    have st: "store p (str @ [0]) s1 = Done ?s" using Some b by (simp add: store_def overwrite_def)
    have set1: "setting cl N mal ?s" using set b by (auto simp: setting_def heap_ok_def)
    have pay: "payload_ok ?c ?s" using Some len by (simp add: payload_ok_def)
    have fds: "same_fds s ?s" using b by (simp add: same_fds_def)
    have "run_all ?Q (run_bind (tcpCommandClient_SendCmd N mal stack (Some cl) (Some ?c) ?s) ?k)"
    proof (rule send_then [OF set1])
      show "c_data ?c \<noteq> None \<longrightarrow> payload_ok ?c ?s" using pay by simp
    next
      fix rc s'
      assume "rc \<noteq> PTC_ERROR_NO_ERROR" "same_fds ?s s'" "os_heap s' = os_heap ?s"
      then show "run_all ?Q (?k (rc, Some ?c, s'))"
        using Some b fds by (auto simp: free_ptr_def same_fds_def fun_eq_iff)
    next
      fix f s'
      assume s': "same_fds ?s s'" and r: "holds_reply ?s (c_ret_data f) (c_ret_size f) s'"
      obtain s2 where s2: "free_ptr p s' = Done s2" "same_fds s' s2" "os_heap s2 = (os_heap s')(a := None)"
        using r Some by (auto simp: holds_reply_def free_ptr_def same_fds_def split: if_splits)
      have "holds_reply s (c_ret_data f) (c_ret_size f) s2"
        using r s2(3) b(1) by (auto simp: holds_reply_def fun_eq_iff split: if_splits)
      then obtain s3 where "free_ptr (c_ret_data f) s2 = Done s3" "same_fds s2 s3" "os_heap s3 = os_heap s"
        using holds_reply_free by blast
      then show "run_all ?Q (?k (PTC_ERROR_NO_ERROR, Some f, s'))"
        using s2 s' fds by (auto simp: same_fds_def)
    qed
    then show ?thesis using False m Some st by (simp add: TcpCommandSetCalibration_def Let_def)
  qed
qed

section \<open>A reply that arrives\<close>

lemma read_fd_exact:
  assumes "0 \<le> n" and "nat n \<le> length (rx_bytes (os_rx s))"
  shows "\<exists>rs. read_fd n s = Done (n, take (nat n) (rx_bytes (os_rx s)), s\<lparr>os_rx := rs\<rparr>) \<and>
    rx_bytes rs = drop (nat n) (rx_bytes (os_rx s)) \<and> rx_end rs = rx_end (os_rx s)"
proof (cases "n = 0")
  case True
  then show ?thesis by (auto simp: read_fd_def sys_readn_def intro: exI [of _ "os_rx s"])
next
  case False
  with readn_loop_delivers [of "nat n" "os_rx s" "[]"] assms show ?thesis
    by (auto simp: read_fd_def sys_readn_def)
qed

lemma read_fd_blocks:
  assumes "length (rx_bytes (os_rx s)) < nat n" and "rx_end (os_rx s) = None"
  shows "read_fd n s = Blocked"
  using readn_loop_delivers [of "nat n" "os_rx s" "[]"] assms by (auto simp: read_fd_def sys_readn_def)

lemma sint_of_nat_small: "n < 2 ^ 31 \<Longrightarrow> sint (of_nat n :: u32) = int n"
  by (simp add: sint_uint uint_nat unat_of_nat_small signed_take_bit_int_eq_self)

text \<open>The payload part of a reply that is there in full, or not.\<close>

lemma read_payload_reply:
  assumes "heap_ok s" and al: "alloc_ok mal" and mem: "mal (length payload) \<noteq> None"
    and len: "h_len c = of_nat (length payload)" "length payload < 2 ^ 31" and c: "c_data c = None"
    and rx: "rx_bytes (os_rx s) = payload @ later"
  shows "\<exists>p s'. read_payload mal c s = Done (0, Some (c\<lparr>c_data := p\<rparr>), s') \<and>
    load p (length payload) s' = Done payload \<and> os_sent s' = os_sent s"
proof -
  have u: "unat (h_len c) = length payload" using len by (simp add: unat_of_nat_small)
  have i: "sint (h_len c) = int (length payload)" using len by (simp add: sint_of_nat_small)
  show ?thesis
  proof (cases "payload = []")
    case True
    with len c show ?thesis
      by (auto simp: read_payload_def read_fd_def sys_readn_def store_def load_def)
  next
    case False
    then have pos: "0 < h_len c" using u by (simp add: word_less_nat_alt)
    from mem obtain b where b: "mal (length payload) = Some b" by auto
    with al have lb: "length b = length payload" by (simp add: alloc_ok_def)
    let ?s = "s\<lparr>os_heap := (os_heap s)(os_next s := Some b), os_next := Suc (os_next s)\<rparr>"
    have m: "malloc mal (unat (h_len c)) s = (Some (os_next s), ?s)" using b u by (simp add: malloc_def)
    obtain rs where r: "read_fd (sint (h_len c)) ?s = Done (int (length payload), payload, ?s\<lparr>os_rx := rs\<rparr>)"
      using read_fd_exact [of "int (length payload)" ?s] rx i by auto
    show ?thesis
      using False pos m r lb len(1)
      by (auto simp: read_payload_def store_def load_def overwrite_def intro!: exI [of _ "Some (os_next s)"])
  qed
qed

definition reply_header :: "TC_Command \<Rightarrow> byte list \<Rightarrow> TC_Command" where
  "reply_header f stack = tcpCommandHeaderParser (drop 2 (overwrite 2 (drop 2 (TcpCommand_buildHeader f))
     (overwrite 0 (take 2 (TcpCommand_buildHeader f)) stack))) zero_command"

lemma header_roundtrip:
  "h_len (reply_header f stack) = h_len f" "h_ret_code (reply_header f stack) = h_ret_code f"
  "h_cmd (reply_header f stack) = h_cmd f" "c_data (reply_header f stack) = None"
  using be32_byte_of [of "h_len f"]
  by (simp_all add: reply_header_def tcpCommandHeaderParser_def TcpCommand_buildHeader_def overwrite_def
      zero_command_def eval_nat_numeral)

lemma length_header [simp]: "length (TcpCommand_buildHeader f) = 8"
  by (simp add: TcpCommand_buildHeader_def)

lemma header_magic: "overwrite 0 (take 2 (TcpCommand_buildHeader f)) stack ! 0 = 0x47"
  "overwrite 0 (take 2 (TcpCommand_buildHeader f)) stack ! 1 = 0x74"
  by (simp_all add: TcpCommand_buildHeader_def overwrite_def eval_nat_numeral)

text \<open>The two reads of the header.\<close>

lemma ReadCommand_header:
  assumes rx: "rx_bytes (os_rx s) = TcpCommand_buildHeader f @ rest"
  shows "\<exists>rs. tcpCommandReadCommand mal stack (Some c0) s =
      read_payload mal (reply_header f stack) (s\<lparr>os_rx := rs\<rparr>) \<and>
    rx_bytes rs = rest \<and> rx_end rs = rx_end (os_rx s)"
proof -
  let ?h = "TcpCommand_buildHeader f"
  obtain r1 where r1: "read_fd 2 s = Done (2, take 2 ?h, s\<lparr>os_rx := r1\<rparr>)"
    "rx_bytes r1 = drop 2 ?h @ rest" "rx_end r1 = rx_end (os_rx s)"
    using read_fd_exact [of 2 s] rx by auto
  obtain r2 where r2: "read_fd 6 (s\<lparr>os_rx := r1\<rparr>) = Done (6, drop 2 ?h, s\<lparr>os_rx := r2\<rparr>)"
    "rx_bytes r2 = rest" "rx_end r2 = rx_end (os_rx s)"
    using read_fd_exact [of 6 "s\<lparr>os_rx := r1\<rparr>"] r1 by auto
  show ?thesis
    using r1(1) r2 header_magic [of f stack]
    by (auto simp: tcpCommandReadCommand_def read_header_def reply_header_def Let_def)
qed

lemma ReadCommand_reply:
  assumes "heap_ok s" "alloc_ok mal" "mal (length payload) \<noteq> None"
    and len: "h_len f = of_nat (length payload)" "length payload < 2 ^ 31"
    and rx: "rx_bytes (os_rx s) = TcpCommand_buildHeader f @ payload @ later"
  shows "\<exists>f' s'. tcpCommandReadCommand mal stack (Some c0) s = Done (0, Some f', s') \<and>
    h_len f' = h_len f \<and> h_ret_code f' = h_ret_code f \<and> os_sent s' = os_sent s \<and>
    load (c_data f') (length payload) s' = Done payload"
proof -
  obtain rs where rs: "tcpCommandReadCommand mal stack (Some c0) s =
      read_payload mal (reply_header f stack) (s\<lparr>os_rx := rs\<rparr>)" "rx_bytes rs = payload @ later"
    using ReadCommand_header [OF rx] by blast
  from read_payload_reply [of "s\<lparr>os_rx := rs\<rparr>" mal payload "reply_header f stack" later] assms rs
  show ?thesis by (auto simp: header_roundtrip)
qed

text \<open>A stream that stays open but holds only part of a reply.\<close>

lemma ReadCommand_blocks:
  assumes len: "h_len f = of_nat (length payload)" "length payload < 2 ^ 31"
    and mem: "mal (length payload) \<noteq> None"
    and rx: "rx_bytes (os_rx s) = take j (TcpCommand_buildHeader f @ payload)" "j < 8 + length payload"
    and open_end: "rx_end (os_rx s) = None"
  shows "tcpCommandReadCommand mal stack (Some c0) s = Blocked"
proof -
  let ?h = "TcpCommand_buildHeader f"
  consider "j < 2" | "2 \<le> j" "j < 8" | "8 \<le> j" by linarith
  then show ?thesis
  proof cases
    case 1
    then have "read_fd 2 s = Blocked" using rx open_end by (intro read_fd_blocks) auto
    then show ?thesis by (simp add: tcpCommandReadCommand_def)
  next
    case 2
    obtain r1 where r1: "read_fd 2 s = Done (2, take 2 ?h, s\<lparr>os_rx := r1\<rparr>)"
      "rx_bytes r1 = drop 2 (take j ?h)" "rx_end r1 = None"
      using read_fd_exact [of 2 s] rx 2 open_end by (auto simp: min_absorb1)
    have "read_fd 6 (s\<lparr>os_rx := r1\<rparr>) = Blocked" using r1 2 by (intro read_fd_blocks) auto
    with r1(1) header_magic [of f stack] show ?thesis
      by (simp add: tcpCommandReadCommand_def read_header_def Let_def)
  next
    case 3
    then have "rx_bytes (os_rx s) = ?h @ take (j - 8) payload" using rx(1) by simp
    from ReadCommand_header [OF this] open_end
    obtain rs where rs: "tcpCommandReadCommand mal stack (Some c0) s =
        read_payload mal (reply_header f stack) (s\<lparr>os_rx := rs\<rparr>)" "rx_bytes rs = take (j - 8) payload"
      "rx_end rs = None" by metis
    have u: "unat (h_len f) = length payload" and i: "sint (h_len f) = int (length payload)"
      using len by (simp_all add: unat_of_nat_small sint_of_nat_small)
    have pos: "0 < h_len f" using u 3 rx(2) by (auto simp: word_less_nat_alt)
    obtain p s1 where m: "malloc mal (length payload) (s\<lparr>os_rx := rs\<rparr>) = (Some p, s1)" "os_rx s1 = rs"
      using mem by (auto simp: malloc_def)
    have "read_fd (int (length payload)) s1 = Blocked"
      using rs m 3 rx(2) by (intro read_fd_blocks) auto
    with rs(1) m u i pos show ?thesis by (simp add: read_payload_def header_roundtrip)
  qed
qed

section \<open>The exchange\<close>

text \<open>The connection is made and the request is accepted in one piece.\<close>

definition connected :: "net \<Rightarrow> TcpCommandClient \<Rightarrow> tcp_os \<Rightarrow> bool" where
  "connected N cl s \<longleftrightarrow>
     (case c_string (cl_ip cl) of
        Done ip \<Rightarrow> 0 \<le> fst (tcp_open N ip (cl_port cl) (os_fds s))
      | _ \<Rightarrow> False) \<and>
     (case os_tx s of Accept k # ws \<Rightarrow> 8 \<le> k | _ \<Rightarrow> False)"

definition finish_send :: "TC_Command \<Rightarrow> int \<Rightarrow> int \<times> TC_Command option \<times> tcp_os \<Rightarrow> (nat \<times> TC_Command option \<times> tcp_os) run" where
  "finish_send c fd = (\<lambda>(ret, fb, s). Done
     (case if ret \<noteq> 0 then None else fb of
        None \<Rightarrow> (PTC_ERROR_TRANSFER_FAILED, Some c, unlock (close_fd fd s))
      | Some f \<Rightarrow> (PTC_ERROR_NO_ERROR, Some (c\<lparr>c_ret_data := c_data f, c_ret_size := h_len f,
              h_ret_code := h_ret_code f\<rparr>), unlock (close_fd fd s))))"

lemma SendCmd_connected:
  assumes con: "connected N cl s" and un: "\<not> os_locked s" and c: "h_len c = 0"
  shows "\<exists>fd fds ws. tcpCommandClient_SendCmd N mal stack (Some cl) (Some c) s =
    run_bind (tcpCommandReadCommand mal stack (Some zero_command)
        (s\<lparr>os_locked := True, os_fds := fds, os_tx := ws, os_sent := os_sent s @ TcpCommand_buildHeader c\<rparr>))
      (finish_send c fd)"
proof -
  obtain ip where ip: "c_string (cl_ip cl) = Done ip" "0 \<le> fst (tcp_open N ip (cl_port cl) (os_fds s))"
    using con by (auto simp: connected_def split: run.splits)
  obtain k ws where k: "os_tx s = Accept k # ws" "8 \<le> k"
    using con by (auto simp: connected_def split: list.splits wx.splits)
  obtain fd fds where o: "tcp_open N ip (cl_port cl) (os_fds s) = (fd, fds)" "0 \<le> fd"
    using ip(2) by (cases "tcp_open N ip (cl_port cl) (os_fds s)") auto
  let ?s = "s\<lparr>os_locked := True, os_fds := fds, os_tx := ws, os_sent := os_sent s @ TcpCommand_buildHeader c\<rparr>"
  have "tcpCommandClient_SendCmd N mal stack (Some cl) (Some c) s =
    run_bind (tcpCommandReadCommand mal stack (Some zero_command) ?s) (finish_send c fd)"
    using ip(1) k o c un
    by (cases "tcpCommandReadCommand mal stack (Some zero_command) ?s")
      (auto simp: tcpCommandClient_SendCmd_def lock_def transfer_def write_fd_def write_payload_def
        min_absorb2 finish_send_def)
  then show ?thesis by blast
qed

text \<open>A reply is a header made from \<open>f\<close> and the payload.\<close>

definition replies :: "TC_Command \<Rightarrow> byte list \<Rightarrow> tcp_os \<Rightarrow> bool" where
  "replies f payload s \<longleftrightarrow>
     h_len f = of_nat (length payload) \<and> length payload < 2 ^ 31 \<and>
     (\<exists>later. rx_bytes (os_rx s) = TcpCommand_buildHeader f @ payload @ later)"

lemma load_released [simp]: "load p n (unlock (close_fd fd s)) = load p n s"
  "os_sent (unlock (close_fd fd s)) = os_sent s"
  by (cases p; simp add: load_def unlock_def close_fd_def)+

lemma SendCmd_reply:
  assumes set: "setting cl N mal s" and con: "connected N cl s" and rep: "replies f payload s"
    and mem: "\<And>n. mal n \<noteq> None" and c: "h_len c = 0"
  shows "\<exists>f' s'. tcpCommandClient_SendCmd N mal stack (Some cl) (Some c) s = Done (PTC_ERROR_NO_ERROR, Some f', s') \<and>
    c_ret_size f' = h_len f \<and> h_ret_code f' = h_ret_code f \<and> os_sent s' = os_sent s @ TcpCommand_buildHeader c \<and>
    load (c_ret_data f') (length payload) s' = Done payload"
proof -
  obtain fd fds ws where send: "tcpCommandClient_SendCmd N mal stack (Some cl) (Some c) s =
    run_bind (tcpCommandReadCommand mal stack (Some zero_command)
        (s\<lparr>os_locked := True, os_fds := fds, os_tx := ws, os_sent := os_sent s @ TcpCommand_buildHeader c\<rparr>))
      (finish_send c fd)" (is "_ = run_bind (tcpCommandReadCommand _ _ _ ?s) _")
    using SendCmd_connected [OF con _ c, of mal stack] set unfolding setting_def by blast
  have hp: "heap_ok ?s" and al: "alloc_ok mal" using set by (simp_all add: setting_def heap_ok_def)
  obtain later where len: "h_len f = of_nat (length payload)" "length payload < 2 ^ 31"
    and rx: "rx_bytes (os_rx ?s) = TcpCommand_buildHeader f @ payload @ later"
    using rep by (auto simp: replies_def)
  obtain f' s' where "tcpCommandReadCommand mal stack (Some zero_command) ?s = Done (0, Some f', s')"
    "h_len f' = h_len f" "h_ret_code f' = h_ret_code f" "os_sent s' = os_sent ?s"
    "load (c_data f') (length payload) s' = Done payload"
    using ReadCommand_reply [OF hp al mem len rx, of stack zero_command] by blast
  with send show ?thesis by (simp add: finish_send_def)
qed

lemma load_after_malloc:
  assumes "heap_ok s" "load p n s = Done bs" "malloc mal m s = (q, s')"
  shows "load p n s' = Done bs"
  using assms by (auto simp: load_def malloc_def heap_ok_def split: option.splits if_splits)

lemma get_reply:
  assumes set: "setting cl N mal s" and con: "connected N cl s" and rep: "replies f payload s"
    and mem: "\<And>n. mal n \<noteq> None"
  shows "\<exists>a s'. get_calibration code N mal stack (Some cl) True True s =
      Done (unat (h_ret_code f), Some (Some a, of_nat (Suc (length payload))), s') \<and>
    os_heap s a = None \<and> os_heap s' = (os_heap s)(a := Some (payload @ [0])) \<and> same_fds s s' \<and>
    os_sent s' = os_sent s @ TcpCommand_buildHeader (zero_command\<lparr>h_cmd := code\<rparr>)"
proof -
  let ?c = "zero_command\<lparr>h_cmd := code\<rparr>"
  have len: "unat (h_len f) = length payload" using rep by (simp add: replies_def unat_of_nat_small)
  obtain f' s1 where send: "tcpCommandClient_SendCmd N mal stack (Some cl) (Some ?c) s =
      Done (PTC_ERROR_NO_ERROR, Some f', s1)" and f': "c_ret_size f' = h_len f" "h_ret_code f' = h_ret_code f"
    "os_sent s1 = os_sent s @ TcpCommand_buildHeader ?c" "load (c_ret_data f') (length payload) s1 = Done payload"
    using SendCmd_reply [OF set con rep mem, of ?c stack] by (auto simp: zero_command_def)
  have "run_all (send_outcome s ?c) (tcpCommandClient_SendCmd N mal stack (Some cl) (Some ?c) s)"
    using set by (intro SendCmd_all) (auto simp: setting_def zero_command_def)
  with send have s1: "same_fds s s1" "heap_ok s1" "holds_reply s (c_ret_data f') (c_ret_size f') s1"
    by (simp_all add: send_outcome_def)
  obtain a s2 where m: "malloc mal (unat (c_ret_size f' + 1)) s1 = (Some a, s2)"
    using mem [of "unat (c_ret_size f' + 1)"] by (auto simp: malloc_def)
  have "alloc_ok mal" using set by (simp add: setting_def)
  from get_reply_block [OF s1(3,2) this m] load_after_malloc [OF s1(2) f'(4) m]
  obtain s3 s4 where g: "store (Some a) (payload @ [0]) s2 = Done s3" "free_ptr (c_ret_data f') s3 = Done s4"
    "same_fds s1 s4" "os_heap s a = None" "os_heap s4 = (os_heap s)(a := Some (payload @ [0]))"
    using f'(1) len by auto
  have "os_sent s4 = os_sent s1"
    using g(1,2) m by (auto simp: store_def free_ptr_def malloc_def split: option.splits if_splits)
  with send f' len m g load_after_malloc [OF s1(2) f'(4) m] same_fds_trans [OF s1(1) g(3)] rep
  show ?thesis by (auto simp: get_calibration_def replies_def)
qed

text \<open>A connection that stays open and has delivered only a part of a reply.\<close>

definition partial_reply :: "tcp_os \<Rightarrow> bool" where
  "partial_reply s \<longleftrightarrow> rx_end (os_rx s) = None \<and>
     (\<exists>f payload j. rx_bytes (os_rx s) = take j (TcpCommand_buildHeader f @ payload) \<and>
        h_len f = of_nat (length payload) \<and> length payload < 2 ^ 31 \<and> j < 8 + length payload)"

text \<open>
  No call has a timeout: with a connection that stays open but does not deliver the whole reply,
  however much of it has arrived, the call never returns.
\<close>

lemma get_blocks:
  assumes set: "setting cl N mal s" and mem: "\<And>n. mal n \<noteq> None" and con: "connected N cl s"
    and part: "partial_reply s"
  shows "get_calibration code N mal stack (Some cl) True True s = Blocked"
proof -
  let ?c = "zero_command\<lparr>h_cmd := code\<rparr>"
  obtain f payload j where r: "rx_bytes (os_rx s) = take j (TcpCommand_buildHeader f @ payload)" "rx_end (os_rx s) = None"
    "h_len f = of_nat (length payload)" "length payload < 2 ^ 31" "j < 8 + length payload"
    using part by (auto simp: partial_reply_def)
  have "tcpCommandReadCommand mal stack (Some zero_command) s' = Blocked" if "os_rx s' = os_rx s" for s'
    using ReadCommand_blocks [OF r(3,4) mem, of s' j] r(1,2,5) that by simp
  moreover obtain fd s' where "tcpCommandClient_SendCmd N mal stack (Some cl) (Some ?c) s =
      run_bind (tcpCommandReadCommand mal stack (Some zero_command) s') (finish_send ?c fd)" "os_rx s' = os_rx s"
    using SendCmd_connected [OF con, of ?c mal stack] set
    by (auto simp: setting_def zero_command_def)
  ultimately show ?thesis by (simp add: get_calibration_def)
qed

section \<open>The contract of a getter\<close>

text \<open>
  What the rest of the driver relies on: a reply that arrives is handed over in a fresh block with
  a terminator, a reply that stays away blocks, and a refused connection is an error without
  effect.
\<close>

locale calibration_getter =
  fixes get :: "net \<Rightarrow> allocator \<Rightarrow> byte list \<Rightarrow> TcpCommandClient option \<Rightarrow> bool \<Rightarrow> bool \<Rightarrow> tcp_os \<Rightarrow>
      (nat \<times> (ptr \<times> u32) option \<times> tcp_os) run"
    and code :: byte
  assumes answered: "setting cl N mal s \<Longrightarrow> connected N cl s \<Longrightarrow> replies f payload s \<Longrightarrow> (\<And>n. mal n \<noteq> None) \<Longrightarrow>
      \<exists>a s'. get N mal stack (Some cl) True True s =
          Done (unat (h_ret_code f), Some (Some a, of_nat (Suc (length payload))), s') \<and>
        os_heap s a = None \<and> os_heap s' = (os_heap s)(a := Some (payload @ [0])) \<and> same_fds s s' \<and>
        os_sent s' = os_sent s @ TcpCommand_buildHeader (zero_command\<lparr>h_cmd := code\<rparr>)"
    and silent: "setting cl N mal s \<Longrightarrow> (\<And>n. mal n \<noteq> None) \<Longrightarrow> connected N cl s \<Longrightarrow> partial_reply s \<Longrightarrow>
      get N mal stack (Some cl) True True s = Blocked"
    and refused: "client_ok cl \<Longrightarrow> \<not> os_locked s \<Longrightarrow> (\<And>v6 ip port. net_connect N v6 ip port = -1) \<Longrightarrow>
      \<exists>s'. get N mal stack (Some cl) True True s = Done (PTC_ERROR_CONNECT_SERVER_FAILED, None, s')"
begin

text \<open>The caller frees the block when it has used it: the state is then as before.\<close>

lemma answered_freed:
  assumes "setting cl N mal s" "connected N cl s" "replies f payload s" "\<And>n. mal n \<noteq> None"
  shows "\<exists>a s' s''. get N mal stack (Some cl) True True s =
      Done (unat (h_ret_code f), Some (Some a, of_nat (Suc (length payload))), s') \<and>
    os_heap s' a = Some (payload @ [0]) \<and> free_ptr (Some a) s' = Done s'' \<and>
    os_heap s'' = os_heap s \<and> same_fds s s''"
proof -
  obtain a s' where g: "get N mal stack (Some cl) True True s =
      Done (unat (h_ret_code f), Some (Some a, of_nat (Suc (length payload))), s')"
    "os_heap s a = None" "os_heap s' = (os_heap s)(a := Some (payload @ [0]))" "same_fds s s'"
    using answered [OF assms, of stack] by blast
  then have "free_ptr (Some a) s' = Done (s'\<lparr>os_heap := os_heap s\<rparr>)" by (simp add: free_ptr_def fun_upd_idem)
  with g show ?thesis by (auto simp: same_fds_def)
qed

end

lemma get_refused:
  assumes "client_ok cl" "\<not> os_locked s" and refused: "\<And>v6 ip port. net_connect N v6 ip port = -1"
  shows "\<exists>s'. get_calibration code N mal stack (Some cl) True True s = Done (PTC_ERROR_CONNECT_SERVER_FAILED, None, s')"
proof -
  obtain ip where ip: "c_string (cl_ip cl) = Done ip" using assms(1) by (simp add: client_ok_def c_string_def)
  have "fst (tcp_open N ip (cl_port cl) fds) < 0" for fds using refused by (simp add: tcp_open_def Let_def)
  then show ?thesis
    using assms(2) ip
    by (auto simp: get_calibration_def tcpCommandClient_SendCmd_def lock_def zero_command_def case_prod_unfold Let_def
        ptc_codes)
qed

interpretation lidar: calibration_getter TcpCommandGetLidarCalibration PTC_COMMAND_GET_LIDAR_CALIBRATION
  by unfold_locales (unfold TcpCommandGetLidarCalibration_def, (rule get_reply get_blocks get_refused; simp)+)

interpretation head: calibration_getter TcpCommandGetCalibration PTC_COMMAND_GET_CALIBRATION
  by unfold_locales (unfold TcpCommandGetCalibration_def, (rule get_reply get_blocks get_refused; simp)+)

section \<open>Properties\<close>

text \<open>A sensor at 192.168.1.201 for the concrete instances.\<close>

definition demo_client :: TcpCommandClient where
  "demo_client = \<lparr>cl_ip = ''192.168.1.201'' @ replicate 243 (CHR 0x00), cl_port = 9347\<rparr>"

definition demo_net :: net where
  "demo_net = \<lparr>net_socket = (\<lambda>v6. 7), net_pton = (\<lambda>v6 ip. 1), net_connect = (\<lambda>v6 ip port. 0)\<rparr>"

definition demo_mal :: allocator where
  "demo_mal n = Some (replicate n 0xCD)"

definition demo_os :: "rx list \<Rightarrow> tcp_os" where
  "demo_os rs = \<lparr>os_rx = rs, os_tx = [Accept 100], os_sent = [], os_fds = [], os_locked = False,
     os_heap = (\<lambda>a. None), os_next = 0\<rparr>"

lemma demo_setting: "setting demo_client demo_net demo_mal (demo_os rs)"
  by (simp add: setting_def client_ok_def net_ok_def alloc_ok_def heap_ok_def demo_client_def demo_net_def
      demo_mal_def demo_os_def)

lemma demo_connected: "connected demo_net demo_client (demo_os rs)"
  by (simp add: connected_def c_string_def tcp_open_def demo_client_def demo_net_def demo_os_def)

text \<open>
  C16. Whatever the network does (connections refused, short or failing writes, signals, errors,
  truncated or malformed replies, any announced length), a call of the calibration interface that
  returns has released the mutex and the descriptor and left no memory behind; the only new block
  after a getter is the one handed to the caller, and nothing is freed twice or read outside its
  block. The getters need an allocator that does not fail, the setter a length within its string.
\<close>

theorem calibration_calls_balanced:
  assumes "setting cl N mal s"
  shows "run_all (\<lambda>(rc, s'). same_fds s s' \<and> os_heap s' = os_heap s)
      (TcpCommandResetCalibration N mal stack (Some cl) s) \<and>
    (unat len \<le> Suc (length str) \<longrightarrow>
      run_all (\<lambda>(rc, s'). same_fds s s' \<and> os_heap s' = os_heap s)
        (TcpCommandSetCalibration N mal stack (Some cl) (Some str) len s)) \<and>
    ((\<forall>n. mal n \<noteq> None) \<longrightarrow>
      (\<forall>get \<in> {TcpCommandGetCalibration, TcpCommandGetLidarCalibration}.
        run_all (\<lambda>(rc, out, s'). same_fds s s' \<and>
          (case out of
             None \<Rightarrow> rc \<noteq> PTC_ERROR_NO_ERROR \<and> os_heap s' = os_heap s
           | Some (p, n) \<Rightarrow> \<exists>a bs. p = Some a \<and> os_heap s a = None \<and> unat n = Suc (length bs) \<and>
               os_heap s' = (os_heap s)(a := Some (bs @ [0]))))
        (get N mal stack (Some cl) True True s)))"
  using Reset_all [OF assms] set_all [OF assms] get_all [OF assms]
  by (simp add: TcpCommandGetCalibration_def TcpCommandGetLidarCalibration_def)

theorem calibration_calls_balanced_witness:
  "run_all (\<lambda>(rc, s'). same_fds (demo_os [Seg [0x47], RxIntr, Seg [0x74, 3], RxErr]) s' \<and> os_heap s' = (\<lambda>a. None))
     (TcpCommandResetCalibration demo_net demo_mal [] (Some demo_client)
       (demo_os [Seg [0x47], RxIntr, Seg [0x74, 3], RxErr]))"
proof -
  have "os_heap (demo_os rs) = (\<lambda>a. None)" for rs by (simp add: demo_os_def)
  with calibration_calls_balanced [OF demo_setting, of "[Seg [0x47], RxIntr, Seg [0x74, 3], RxErr]" "[]" 0 "[]"]
  show ?thesis by simp
qed

text \<open>
  C17. A reply that is a well-formed frame is returned as it was sent: however TCP cuts the stream
  into segments and however often a signal interrupts the reads, the caller gets the payload with
  a terminating zero, its length and the return code of the sensor, and exactly the eight bytes of
  the request were sent.
\<close>

theorem calibration_exchange:
  assumes "setting cl N mal s" and "\<And>n. mal n \<noteq> None" and "connected N cl s"
    and "rx_bytes (os_rx s) = TcpCommand_buildHeader f @ payload @ later"
    and "h_len f = of_nat (length payload)" and "length payload < 2 ^ 31"
  shows "\<exists>a s'. TcpCommandGetLidarCalibration N mal stack (Some cl) True True s =
      Done (unat (h_ret_code f), Some (Some a, of_nat (Suc (length payload))), s') \<and>
    os_heap s a = None \<and> os_heap s' = (os_heap s)(a := Some (payload @ [0])) \<and>
    os_fds s' = os_fds s \<and> \<not> os_locked s' \<and>
    os_sent s' = os_sent s @ [0x47, 0x74, 5, 0, 0, 0, 0, 0]"
proof -
  have "replies f payload s" using assms(4-6) by (auto simp: replies_def)
  from lidar.answered [OF assms(1,3) this assms(2), of stack] assms(1)
  show ?thesis
    by (auto simp: same_fds_def setting_def TcpCommand_buildHeader_def
        PTC_COMMAND_GET_LIDAR_CALIBRATION_def zero_command_def byte_of_def)
qed

theorem calibration_exchange_witness:
  "\<exists>a s'. TcpCommandGetLidarCalibration demo_net demo_mal [] (Some demo_client) True True
      (demo_os [Seg [0x47], RxIntr, Seg [0x74, 5, 0, 0, 0], Seg [0, 2, 0x4F], RxIntr, Seg [0x4B, 0xFF]]) =
    Done (0, Some (Some a, 3), s') \<and> os_heap s' a = Some [0x4F, 0x4B, 0]"
proof -
  let ?f = "zero_command\<lparr>h_cmd := 5, h_len := 2\<rparr>"
  let ?s = "demo_os [Seg [0x47], RxIntr, Seg [0x74, 5, 0, 0, 0], Seg [0, 2, 0x4F], RxIntr, Seg [0x4B, 0xFF]]"
  have rx: "rx_bytes (os_rx ?s) = TcpCommand_buildHeader ?f @ [0x4F, 0x4B] @ [0xFF]"
    by (simp add: demo_os_def TcpCommand_buildHeader_def zero_command_def byte_of_def drop_bit_eq_div)
  from calibration_exchange [OF demo_setting _ demo_connected rx, where stack = "[]"]
  show ?thesis by (auto simp: demo_mal_def zero_command_def)
qed

end
