(* ===== verification/Packet_Defenses.thy ===== *)
theory Packet_Defenses
  imports Ieee_Floats
begin

text \<open>
  The packet-order defences of \<^verbatim>\<open>packet_defenses.h\<close>: the decoder of the trailing UDP
  sequence of an XT packet, the sequence tracker \<^verbatim>\<open>XtSequenceTracker\<close> and the
  reception-time guard \<^verbatim>\<open>TimestampGuard\<close> (which also guards the published clouds).
  Each class is a record of its private members; \<^verbatim>\<open>observe\<close> returns its decision and
  the updated object.
\<close>

section \<open>Decoding the UDP sequence\<close>

definition kXt16PacketSize :: nat where "kXt16PacketSize = 568"
definition kXtmPacketSize :: nat where "kXtmPacketSize = 820"
definition kXt32PacketSize :: nat where "kXt32PacketSize = 1080"
definition kXtSequenceSize :: nat where "kXtSequenceSize = 4"
definition kXtFactorySize :: nat where "kXtFactorySize = 1"
definition kTimestampRegressionToleranceSec :: fp where
  "kTimestampRegressionToleranceSec = d_lit (1 / 10)"
definition kXtSequenceRestartIdleSec :: fp where
  "kXtSequenceRestartIdleSec = d_lit 2"

lemmas xt_sizes = kXt16PacketSize_def kXtmPacketSize_def kXt32PacketSize_def kXtSequenceSize_def

definition isSupportedXtPacketSize :: "nat \<Rightarrow> bool" where
  "isSupportedXtPacketSize sz \<longleftrightarrow>
     sz = kXt16PacketSize \<or> sz = kXtmPacketSize \<or> sz = kXt32PacketSize"

text \<open>
  \<^verbatim>\<open>data == nullptr\<close> is \<^term>\<open>None\<close>; \<open>out\<close> says whether the out-parameter is non-null.
  The outer option is undefined behaviour (a read past the buffer), the inner one the
  returned Boolean with the decoded sequence.
\<close>

definition decodeXtUdpSequence ::
    "byte list option \<Rightarrow> nat \<Rightarrow> bool \<Rightarrow> u32 option option" where
  "decodeXtUdpSequence data sz out =
     (case data of
        None \<Rightarrow> Some None
      | Some d \<Rightarrow>
          if \<not> out \<or> \<not> isSupportedXtPacketSize sz then Some None
          else (let offset = sz - kXtSequenceSize
                in case (rd d offset, rd d (offset + 1), rd d (offset + 2), rd d (offset + 3)) of
                     (Some b0, Some b1, Some b2, Some b3) \<Rightarrow> Some (Some (le32 b0 b1 b2 b3))
                   | _ \<Rightarrow> None))"

section \<open>The sequence tracker\<close>

datatype SequenceStatus =
  SeqFirst | SeqInOrder | SeqForwardGap | SeqDuplicate | SeqBackward | SeqRestartAfterIdle

record SequenceDecision =
  seq_status :: SequenceStatus
  seq_previous :: u32
  seq_current :: u32
  seq_missing :: u32

definition seq_accepted :: "SequenceDecision \<Rightarrow> bool" where
  "seq_accepted d \<longleftrightarrow> seq_status d \<noteq> SeqDuplicate \<and> seq_status d \<noteq> SeqBackward"

record XtSequenceTracker =
  restart_idle_sec :: fp
  seq_initialized :: bool
  last_sequence :: u32
  last_observed_timestamp :: fp

definition newXtSequenceTracker :: "fp \<Rightarrow> XtSequenceTracker" where
  "newXtSequenceTracker idle =
     \<lparr>restart_idle_sec = idle, seq_initialized = False, last_sequence = 0,
      last_observed_timestamp = d_lit 0\<rparr>"

definition seq_observe ::
    "XtSequenceTracker \<Rightarrow> u32 \<Rightarrow> fp \<Rightarrow> SequenceDecision \<times> XtSequenceTracker" where
  "seq_observe t sequence receive_timestamp =
     (if \<not> seq_initialized t then
        (\<lparr>seq_status = SeqFirst, seq_previous = sequence, seq_current = sequence, seq_missing = 0\<rparr>,
         t\<lparr>seq_initialized := True, last_sequence := sequence,
           last_observed_timestamp := receive_timestamp\<rparr>)
      else
        let previous = last_sequence t;
            restarted_after_idle =
              isfinite receive_timestamp \<and> isfinite (last_observed_timestamp t) \<and>
              fp_le (restart_idle_sec t) (d_sub receive_timestamp (last_observed_timestamp t));
            t1 = t\<lparr>last_observed_timestamp := receive_timestamp\<rparr>;
            delta = sequence - previous
        in if restarted_after_idle then
             (\<lparr>seq_status = SeqRestartAfterIdle, seq_previous = previous, seq_current = sequence,
               seq_missing = 0\<rparr>, t1\<lparr>last_sequence := sequence\<rparr>)
           else if delta = 0 then
             (\<lparr>seq_status = SeqDuplicate, seq_previous = previous, seq_current = sequence,
               seq_missing = 0\<rparr>, t1)
           else if delta < 0x80000000 then
             (if delta = 1 then
                (\<lparr>seq_status = SeqInOrder, seq_previous = previous, seq_current = sequence,
                  seq_missing = 0\<rparr>, t1\<lparr>last_sequence := sequence\<rparr>)
              else
                (\<lparr>seq_status = SeqForwardGap, seq_previous = previous, seq_current = sequence,
                  seq_missing = delta - 1\<rparr>, t1\<lparr>last_sequence := sequence\<rparr>))
           else
             (\<lparr>seq_status = SeqBackward, seq_previous = previous, seq_current = sequence,
               seq_missing = 0\<rparr>, t1))"

definition seq_reset :: "XtSequenceTracker \<Rightarrow> XtSequenceTracker" where
  "seq_reset t =
     t\<lparr>seq_initialized := False, last_sequence := 0, last_observed_timestamp := d_lit 0\<rparr>"

section \<open>The timestamp guard\<close>

datatype TimestampStatus = TsFirst | TsAccepted | TsRegression | TsInvalid

record TimestampDecision =
  ts_status :: TimestampStatus
  ts_previous :: fp
  ts_current :: fp
  ts_regression_sec :: fp

definition ts_accepted :: "TimestampDecision \<Rightarrow> bool" where
  "ts_accepted d \<longleftrightarrow> ts_status d = TsFirst \<or> ts_status d = TsAccepted"

record TimestampGuard =
  tolerance_sec :: fp
  ts_initialized :: bool
  guard_last_timestamp :: fp

definition newTimestampGuard :: "fp \<Rightarrow> TimestampGuard" where
  "newTimestampGuard tol =
     \<lparr>tolerance_sec = tol, ts_initialized = False, guard_last_timestamp = d_lit 0\<rparr>"

definition ts_observe :: "TimestampGuard \<Rightarrow> fp \<Rightarrow> TimestampDecision \<times> TimestampGuard" where
  "ts_observe g timestamp =
     (if \<not> isfinite timestamp then
        (\<lparr>ts_status = TsInvalid, ts_previous = guard_last_timestamp g, ts_current = timestamp,
          ts_regression_sec = d_lit 0\<rparr>, g)
      else if \<not> ts_initialized g then
        (\<lparr>ts_status = TsFirst, ts_previous = timestamp, ts_current = timestamp,
          ts_regression_sec = d_lit 0\<rparr>,
         g\<lparr>ts_initialized := True, guard_last_timestamp := timestamp\<rparr>)
      else
        let previous = guard_last_timestamp g;
            regression = d_sub previous timestamp
        in if fp_lt (tolerance_sec g) regression then
             (\<lparr>ts_status = TsRegression, ts_previous = previous, ts_current = timestamp,
               ts_regression_sec = regression\<rparr>, g)
           else
             (\<lparr>ts_status = TsAccepted, ts_previous = previous, ts_current = timestamp,
               ts_regression_sec = (if fp_lt (d_lit 0) regression then regression else d_lit 0)\<rparr>,
              if fp_lt (guard_last_timestamp g) timestamp
              then g\<lparr>guard_last_timestamp := timestamp\<rparr> else g))"

definition ts_reset :: "TimestampGuard \<Rightarrow> TimestampGuard" where
  "ts_reset g = g\<lparr>ts_initialized := False, guard_last_timestamp := d_lit 0\<rparr>"


section \<open>Decoder\<close>

lemma isSupportedXtPacketSize_ge: "isSupportedXtPacketSize n \<Longrightarrow> kXtSequenceSize \<le> n"
  by (auto simp: isSupportedXtPacketSize_def xt_sizes)

lemma decodeXtUdpSequence_safe:
  assumes "sz \<le> length d"
  shows "decodeXtUdpSequence (Some d) sz out =
     (if out \<and> isSupportedXtPacketSize sz
      then Some (Some (le32 (d ! (sz - 4)) (d ! (sz - 3)) (d ! (sz - 2)) (d ! (sz - 1))))
      else Some None)"
proof (cases "out \<and> isSupportedXtPacketSize sz")
  case True
  then have "4 \<le> sz" using isSupportedXtPacketSize_ge [of sz] by (simp add: xt_sizes)
  then obtain k where k: "sz = k + 4" by (metis add.commute le_iff_add)
  with assms have "k < length d" "k + 1 < length d" "k + 2 < length d" "k + 3 < length d"
    by simp_all
  with True show ?thesis
    by (simp add: decodeXtUdpSequence_def Let_def k xt_sizes add.commute)
qed (auto simp: decodeXtUdpSequence_def)

section \<open>Streams through a guard\<close>

text \<open>
  \<open>guard_run\<close> feeds a stream to an \<^verbatim>\<open>observe\<close> operation and keeps the inputs whose
  decision is accepted, as the packet loop does. The locale states what a guard has to
  keep of an invariant between its state and the inputs accepted so far; the invariant
  then holds of every run.
\<close>

fun guard_run ::
    "('s \<Rightarrow> 'i \<Rightarrow> 'd \<times> 's) \<Rightarrow> ('d \<Rightarrow> bool) \<Rightarrow> 's \<Rightarrow> 'i list \<Rightarrow> 'i list \<times> 's" where
  "guard_run obs ok s [] = ([], s)"
| "guard_run obs ok s (i # is) =
     (let (d, s1) = obs s i; (acc, s2) = guard_run obs ok s1 is
      in (if ok d then i # acc else acc, s2))"

fun legal_run :: "('s \<Rightarrow> 'i \<Rightarrow> 'd \<times> 's) \<Rightarrow> ('s \<Rightarrow> 'i \<Rightarrow> bool) \<Rightarrow> 's \<Rightarrow> 'i list \<Rightarrow> bool" where
  "legal_run obs legal s [] \<longleftrightarrow> True"
| "legal_run obs legal s (i # is) \<longleftrightarrow> legal s i \<and> legal_run obs legal (snd (obs s i)) is"

locale stream_guard =
  fixes observe :: "'s \<Rightarrow> 'i \<Rightarrow> 'd \<times> 's"
    and ok :: "'d \<Rightarrow> bool"
    and legal :: "'s \<Rightarrow> 'i \<Rightarrow> bool"
    and inv :: "'s \<Rightarrow> 'i list \<Rightarrow> bool"
  assumes accept: "inv s acc \<Longrightarrow> legal s i \<Longrightarrow> ok (fst (observe s i)) \<Longrightarrow>
      inv (snd (observe s i)) (acc @ [i])"
    and reject: "inv s acc \<Longrightarrow> legal s i \<Longrightarrow> \<not> ok (fst (observe s i)) \<Longrightarrow>
      inv (snd (observe s i)) acc"
begin

lemma run_inv:
  "inv s acc \<Longrightarrow> legal_run observe legal s is \<Longrightarrow>
     inv (snd (guard_run observe ok s is)) (acc @ fst (guard_run observe ok s is))"
proof (induction "is" arbitrary: s acc)
  case Nil
  then show ?case by simp
next
  case (Cons i "is")
  let ?s1 = "snd (observe s i)" and ?acc1 = "if ok (fst (observe s i)) then acc @ [i] else acc"
  from Cons.prems have "inv ?s1 ?acc1" by (simp add: accept reject)
  moreover from Cons.prems have "legal_run observe legal ?s1 is" by simp
  ultimately have "inv (snd (guard_run observe ok ?s1 is))
      (?acc1 @ fst (guard_run observe ok ?s1 is))"
    by (rule Cons.IH)
  then show ?case by (auto simp: case_prod_beta Let_def split: if_splits)
qed

end

lemma legal_run_True: "legal_run obs (\<lambda>_ _. True) s is"
  by (induction "is" arbitrary: s) simp_all

section \<open>The timestamp guard keeps accepted timestamps within the tolerance\<close>

text \<open>The least double above the tolerance literal.\<close>

definition tolerance_succ :: rat where
  "tolerance_succ = 7205759403792795 / 72057594037927936"

lemma tolerance_val:
  "fval kTimestampRegressionToleranceSec = 3602879701896397 / 36028797018963968"
  by code_simp

lemma tolerance_finite: "isfinite kTimestampRegressionToleranceSec"
  by code_simp

lemma tolerance_fmt: "fp_of_fmt binary64 kTimestampRegressionToleranceSec"
  unfolding kTimestampRegressionToleranceSec_def fp_lit_def by (rule fp_round_of_fmt) simp

lemma tolerance_repr: "rnd binary64 (fval kTimestampRegressionToleranceSec) =
    fval kTimestampRegressionToleranceSec"
  by code_simp

lemma tolerance_succ_repr: "rnd binary64 tolerance_succ = tolerance_succ"
  by code_simp

lemma tolerance_less_succ: "fval kTimestampRegressionToleranceSec < tolerance_succ"
  by (simp add: tolerance_val tolerance_succ_def)

lemma tolerance_succ_least:
  assumes "rnd binary64 x = x" and "fval kTimestampRegressionToleranceSec < x"
  shows "tolerance_succ \<le> x"
proof (rule ccontr)
  assume lt: "\<not> tolerance_succ \<le> x"
  have pos: "0 < x" using assms(2) by (simp add: tolerance_val)
  have "pow2 (- 4) \<le> x" "x < pow2 (- 4 + 1)"
    using assms(2) lt by (simp_all add: tolerance_val tolerance_succ_def power_int_minus)
  then have "rat_expo x = - 4" using rat_expo_ge_iff [OF pos] by (metis linorder_not_le order_antisym zle_add1_eq_le linorder_not_less)
  then have u: "ulp_expo binary64 \<bar>x\<bar> = - 56" using pos by (simp add: ulp_expo_def binary64_def)
  define k where "k = rne (x / pow2 (- 56))"
  have "x = of_int k * pow2 (- 56)" using assms(1) pos u by (simp add: rnd_def Let_def k_def)
  then have x: "x = of_int k / of_int (2 ^ 56)" by (simp add: power_int_minus field_simps)
  have "(of_int 7205759403792794 :: rat) < of_int k" "(of_int k :: rat) < of_int 7205759403792795"
    using assms(2) lt by (simp_all add: tolerance_val tolerance_succ_def x field_simps)
  then have "7205759403792794 < k" "k < 7205759403792795" by (simp_all only: of_int_less_iff)
  then show False by simp
qed

text \<open>The guard's comparison, on the exact values of the two doubles.\<close>

lemma regression_iff:
  assumes "isfinite p" and "isfinite t"
  shows "fp_lt kTimestampRegressionToleranceSec (d_sub p t) \<longleftrightarrow>
     fval kTimestampRegressionToleranceSec < rnd binary64 (fval p - fval t)"
  by (rule fp_lt_sub_iff) (simp_all add: tolerance_finite tolerance_fmt assms tolerance_val)

lemma regression_reported:
  assumes "isfinite p" and "isfinite t" and "tolerance_succ \<le> fval p - fval t"
  shows "fp_lt kTimestampRegressionToleranceSec (d_sub p t)"
  using r64.excess_reported [OF tolerance_succ_repr tolerance_less_succ assms(3)]
  by (simp add: regression_iff assms)

lemma jitter_not_reported:
  assumes "isfinite p" and "isfinite t"
    and "fval p - fval t \<le> fval kTimestampRegressionToleranceSec"
  shows "\<not> fp_lt kTimestampRegressionToleranceSec (d_sub p t)"
  using r64.within_not_reported [OF tolerance_repr assms(3)] by (simp add: regression_iff assms)

definition ts_inv :: "TimestampGuard \<Rightarrow> fp list \<Rightarrow> bool" where
  "ts_inv g acc \<longleftrightarrow>
     tolerance_sec g = kTimestampRegressionToleranceSec \<and>
     (ts_initialized g \<longleftrightarrow> acc \<noteq> []) \<and>
     (\<forall>x \<in> set acc. isfinite x) \<and>
     (acc \<noteq> [] \<longrightarrow> guard_last_timestamp g \<in> set acc \<and>
        (\<forall>x \<in> set acc. fval x \<le> fval (guard_last_timestamp g))) \<and>
     sorted_wrt (\<lambda>x y. rnd binary64 (fval x - fval y) \<le> fval kTimestampRegressionToleranceSec) acc"

text \<open>The decision, on everything accepted so far: the high-water mark is the largest of it.\<close>

lemma ts_inv_decides:
  assumes inv: "ts_inv g acc"
  shows "ts_accepted (fst (ts_observe g t)) \<longleftrightarrow>
    isfinite t \<and> (\<forall>x \<in> set acc. rnd binary64 (fval x - fval t) \<le> fval kTimestampRegressionToleranceSec)"
proof (cases "ts_initialized g \<and> isfinite t")
  case False
  with inv show ?thesis by (auto simp: ts_inv_def ts_observe_def ts_accepted_def)
next
  case True
  let ?p = "guard_last_timestamp g"
  from inv True have p: "?p \<in> set acc" "isfinite ?p" and max: "\<forall>x \<in> set acc. fval x \<le> fval ?p"
    and tol: "tolerance_sec g = kTimestampRegressionToleranceSec"
    by (auto simp: ts_inv_def)
  have "rnd binary64 (fval x - fval t) \<le> rnd binary64 (fval ?p - fval t)" if "x \<in> set acc" for x
    using max that by (intro r64.mono) simp
  then have "(\<forall>x \<in> set acc. rnd binary64 (fval x - fval t) \<le> fval kTimestampRegressionToleranceSec) \<longleftrightarrow>
      rnd binary64 (fval ?p - fval t) \<le> fval kTimestampRegressionToleranceSec"
    using p(1) order_trans by blast
  moreover have "ts_accepted (fst (ts_observe g t)) \<longleftrightarrow> \<not> fp_lt kTimestampRegressionToleranceSec (d_sub ?p t)"
    using True tol by (simp add: ts_observe_def ts_accepted_def Let_def)
  ultimately show ?thesis using True p(2) by (simp add: regression_iff not_less)
qed

lemma ts_inv_exact: "ts_inv g acc \<Longrightarrow> sorted_wrt (\<lambda>x y. fval x - fval y < tolerance_succ) acc"
  unfolding ts_inv_def
  by (elim conjE, erule sorted_wrt_mono_rel [rotated])
    (metis not_le r64.excess_reported [OF tolerance_succ_repr tolerance_less_succ])

lemma ts_observe_rejected: "\<not> ts_accepted (fst (ts_observe g t)) \<Longrightarrow> snd (ts_observe g t) = g"
  by (auto simp: ts_observe_def ts_accepted_def Let_def split: if_splits)

lemma ts_inv_accept:
  assumes inv: "ts_inv g acc" and ok: "ts_accepted (fst (ts_observe g t))"
  shows "ts_inv (snd (ts_observe g t)) (acc @ [t])"
proof (cases "ts_initialized g")
  case False
  with inv ok show ?thesis
    by (auto simp: ts_inv_def ts_observe_def ts_accepted_def split: if_splits)
next
  case True
  let ?p = "guard_last_timestamp g"
  from inv True have acc: "acc \<noteq> []" and p: "?p \<in> set acc" "isfinite ?p"
    and max: "\<forall>x \<in> set acc. fval x \<le> fval ?p"
    by (auto simp: ts_inv_def)
  from ok True inv have t: "isfinite t"
    and nr: "\<not> fp_lt kTimestampRegressionToleranceSec (d_sub ?p t)"
    by (auto simp: ts_observe_def ts_accepted_def ts_inv_def Let_def split: if_splits)
  have "\<forall>x \<in> set acc. rnd binary64 (fval x - fval t) \<le> fval kTimestampRegressionToleranceSec"
    using ok ts_inv_decides [OF inv] by blast
  moreover have "fp_lt ?p t \<longleftrightarrow> fval ?p < fval t" using p(2) t by (rule fp_lt_finite)
  ultimately show ?thesis
    using inv True t nr p max acc
    by (auto simp: ts_inv_def ts_observe_def Let_def sorted_wrt_snoc)
qed

lemma ts_inv_reject:
  "ts_inv g acc \<Longrightarrow> \<not> ts_accepted (fst (ts_observe g t)) \<Longrightarrow> ts_inv (snd (ts_observe g t)) acc"
  by (simp add: ts_observe_rejected)

interpretation ts: stream_guard ts_observe ts_accepted "\<lambda>_ _. True" ts_inv
  by unfold_locales (auto simp: ts_inv_accept ts_inv_reject)

lemma ts_inv_new: "ts_inv (newTimestampGuard kTimestampRegressionToleranceSec) []"
  by (simp add: ts_inv_def newTimestampGuard_def)


section \<open>The sequence tracker is serial-number arithmetic\<close>

text \<open>
  The sensor numbers its packets \<open>0, 1, 2, \<dots>\<close> without bound and sends the low 32 bits.
  As long as two compared packets are less than \<open>2 ^ 31\<close> apart, the tracker's decision
  is the comparison of the unbounded numbers.
\<close>

lemma serial_delta:
  fixes m n :: int
  assumes "\<bar>n - m\<bar> < 2 ^ 31"
  defines "delta \<equiv> (word_of_int n :: u32) - word_of_int m"
  shows "delta = 0 \<longleftrightarrow> n = m" and "delta < 0x80000000 \<longleftrightarrow> m \<le> n"
    and "delta = 1 \<longleftrightarrow> n = m + 1" and "m < n \<Longrightarrow> uint (delta - 1) = n - m - 1"
proof -
  have d: "delta = word_of_int (n - m)" by (simp add: delta_def)
  have u: "uint delta = (if m \<le> n then n - m else n - m + 2 ^ 32)"
  proof (cases "m \<le> n")
    case True
    with assms(1) show ?thesis by (simp add: d uint_word_of_int del: of_int_diff)
  next
    case False
    have "(n - m) mod 2 ^ 32 = (n - m + 2 ^ 32) mod 2 ^ 32" by simp
    also have "\<dots> = n - m + 2 ^ 32" using False assms(1) by (intro mod_pos_pos_trivial) simp_all
    finally show ?thesis using False by (simp add: d uint_word_of_int del: of_int_diff)
  qed
  show "delta = 0 \<longleftrightarrow> n = m" "delta < 0x80000000 \<longleftrightarrow> m \<le> n" "delta = 1 \<longleftrightarrow> n = m + 1"
    using u assms(1) by (auto simp: word_uint_eq_iff word_less_def split: if_splits)
  have "delta - 1 = word_of_int (n - m - 1)" by (simp add: d)
  then show "m < n \<Longrightarrow> uint (delta - 1) = n - m - 1"
    using assms(1) by (simp add: uint_word_of_int del: of_int_diff)
qed

definition seq_idle :: "XtSequenceTracker \<Rightarrow> fp \<Rightarrow> bool" where
  "seq_idle t ts \<longleftrightarrow>
     isfinite ts \<and> isfinite (last_observed_timestamp t) \<and>
     fp_le (restart_idle_sec t) (d_sub ts (last_observed_timestamp t))"

lemma seq_observe_serial_aux:
  assumes "seq_initialized t" and "\<not> seq_idle t ts"
    and "last_sequence t = word_of_int m" and "\<bar>n - m\<bar> < 2 ^ 31"
  shows "seq_status (fst (seq_observe t (word_of_int n) ts)) =
      (if n = m then SeqDuplicate else if n = m + 1 then SeqInOrder
       else if m < n then SeqForwardGap else SeqBackward)"
    and "seq_accepted (fst (seq_observe t (word_of_int n) ts)) \<longleftrightarrow> m < n"
    and "m < n \<Longrightarrow> uint (seq_missing (fst (seq_observe t (word_of_int n) ts))) = n - m - 1"
    and "last_sequence (snd (seq_observe t (word_of_int n) ts)) = word_of_int (max m n)"
    and "seq_initialized (snd (seq_observe t (word_of_int n) ts))"
  using assms serial_delta [OF assms(4)]
  by (auto simp: seq_observe_def seq_idle_def seq_accepted_def Let_def max_def)

text \<open>
  A run with the unbounded number \<open>m\<close> of the last accepted packet and the total of the
  reported gaps carried along as ghost state.
\<close>

type_synonym seq_ghost = "XtSequenceTracker \<times> int \<times> int"

definition seq_ghost_observe :: "seq_ghost \<Rightarrow> int \<times> fp \<Rightarrow> SequenceDecision \<times> seq_ghost" where
  "seq_ghost_observe g i =
     (case g of (t, m, missing) \<Rightarrow> case i of (n, ts) \<Rightarrow>
        let (d, t') = seq_observe t (word_of_int n) ts
        in (d, (t', if seq_accepted d then n else m, missing + uint (seq_missing d))))"

definition seq_legal :: "seq_ghost \<Rightarrow> int \<times> fp \<Rightarrow> bool" where
  "seq_legal g i =
     (case g of (t, m, _) \<Rightarrow> case i of (n, ts) \<Rightarrow>
        seq_initialized t \<longrightarrow> \<not> seq_idle t ts \<and> \<bar>n - m\<bar> < 2 ^ 31)"

definition seq_inv :: "seq_ghost \<Rightarrow> (int \<times> fp) list \<Rightarrow> bool" where
  "seq_inv g acc =
     (case g of (t, m, missing) \<Rightarrow>
        (seq_initialized t \<longleftrightarrow> acc \<noteq> []) \<and>
        (acc = [] \<longrightarrow> missing = 0) \<and>
        (acc \<noteq> [] \<longrightarrow> last_sequence t = word_of_int m \<and> (\<forall>a \<in> set acc. fst a \<le> m) \<and>
           fst (last acc) = m \<and> m - fst (hd acc) = int (length acc - 1) + missing) \<and>
        sorted_wrt (<) (map fst acc))"

lemma seq_observe_missing_rejected:
  "\<not> seq_accepted (fst (seq_observe t n ts)) \<Longrightarrow> seq_missing (fst (seq_observe t n ts)) = 0"
  by (auto simp: seq_observe_def seq_accepted_def Let_def split: if_splits)

lemma seq_observe_first:
  assumes "\<not> seq_initialized t"
  shows "seq_accepted (fst (seq_observe t n ts))" "seq_missing (fst (seq_observe t n ts)) = 0"
    "seq_initialized (snd (seq_observe t n ts))" "last_sequence (snd (seq_observe t n ts)) = n"
  using assms by (simp_all add: seq_observe_def seq_accepted_def)

lemma seq_inv_step:
  assumes inv: "seq_inv (t, m, k) acc" and legal: "seq_legal (t, m, k) (n, ts)"
  shows "seq_inv (snd (seq_ghost_observe (t, m, k) (n, ts)))
     (if seq_accepted (fst (seq_ghost_observe (t, m, k) (n, ts))) then acc @ [(n, ts)] else acc)"
proof (cases "seq_initialized t")
  case False
  with inv seq_observe_first [OF False, of "word_of_int n" ts] show ?thesis
    by (auto simp: seq_inv_def seq_ghost_observe_def case_prod_beta Let_def)
next
  case True
  with inv have acc: "acc \<noteq> []" and m: "last_sequence t = word_of_int m"
    and k: "m - fst (hd acc) = int (length acc - 1) + k" and le: "\<forall>a \<in> set acc. fst a \<le> m"
    by (auto simp: seq_inv_def)
  from legal True have "\<not> seq_idle t ts" "\<bar>n - m\<bar> < 2 ^ 31" by (auto simp: seq_legal_def)
  note o = seq_observe_serial_aux [OF True this(1) m this(2)]
  show ?thesis
  proof (cases "m < n")
    case acc': True
    have g: "seq_ghost_observe (t, m, k) (n, ts) =
        (fst (seq_observe t (word_of_int n) ts), snd (seq_observe t (word_of_int n) ts),
         n, k + (n - m - 1))"
      using acc' o(2,3) by (simp add: seq_ghost_observe_def case_prod_beta Let_def)
    have "int (length acc) = int (length acc - 1) + 1" using acc by (cases acc) auto
    with k have k': "n - fst (hd acc) = int (length acc) + (k + (n - m - 1))" by linarith
    have "sorted_wrt (<) (map fst acc @ [n])"
      using inv le acc' by (fastforce simp: seq_inv_def sorted_wrt_snoc)
    moreover have "\<forall>a \<in> set acc. fst a \<le> n" using le acc' by fastforce
    ultimately show ?thesis
      using o(2,4,5) acc acc' k' by (simp add: g seq_inv_def max_def)
  next
    case False
    then have "seq_missing (fst (seq_observe t (word_of_int n) ts)) = 0"
      using o(2) by (simp add: seq_observe_missing_rejected)
    with False inv o m acc True show ?thesis
      by (auto simp: seq_inv_def seq_ghost_observe_def case_prod_beta Let_def max_def)
  qed
qed

interpretation sq: stream_guard seq_ghost_observe seq_accepted seq_legal seq_inv
proof
  fix s acc i
  assume "seq_inv s acc" "seq_legal s i"
  then show "seq_accepted (fst (seq_ghost_observe s i)) \<Longrightarrow>
      seq_inv (snd (seq_ghost_observe s i)) (acc @ [i])"
    and "\<not> seq_accepted (fst (seq_ghost_observe s i)) \<Longrightarrow>
      seq_inv (snd (seq_ghost_observe s i)) acc"
    using seq_inv_step by (cases s; cases i; fastforce split: if_splits)+
qed

lemma seq_inv_new: "seq_inv (newXtSequenceTracker idle, m, 0) []"
  by (simp add: seq_inv_def newXtSequenceTracker_def)

lemma idle_val: "fval kXtSequenceRestartIdleSec = 2" "isfinite kXtSequenceRestartIdleSec"
  by code_simp+

lemma idle_fmt: "fp_of_fmt binary64 kXtSequenceRestartIdleSec"
  unfolding kXtSequenceRestartIdleSec_def fp_lit_def by (rule fp_round_of_fmt) simp

lemma seq_idle_iff:
  assumes "restart_idle_sec t = kXtSequenceRestartIdleSec"
    and "isfinite ts" and "isfinite (last_observed_timestamp t)"
  shows "seq_idle t ts \<longleftrightarrow> 2 \<le> rnd binary64 (fval ts - fval (last_observed_timestamp t))"
  using fp_le_sub_iff [of binary64 kXtSequenceRestartIdleSec ts "last_observed_timestamp t"]
  by (simp add: seq_idle_def assms idle_val idle_fmt)


section \<open>Properties\<close>

text \<open>
  Round trip of the UDP sequence: in a packet of any supported XT size whose last four
  bytes are the little-endian encoding of \<open>n\<close>, wherever the buffer continues after the
  packet, \<^verbatim>\<open>decodeXtUdpSequence\<close> stays inside the buffer and returns \<open>n\<close>.
\<close>
lemma decodeXtUdpSequence_roundtrip:
  assumes "isSupportedXtPacketSize (length body + 4)"
  shows "decodeXtUdpSequence
     (Some (body @ [byte_of 0 n, byte_of 1 n, byte_of 2 n, byte_of 3 n] @ rest))
     (length body + 4) True = Some (Some n)"
proof -
  let ?d = "body @ [byte_of 0 n, byte_of 1 n, byte_of 2 n, byte_of 3 n] @ rest"
  have d: "?d ! length body = byte_of 0 n" "?d ! Suc (length body) = byte_of 1 n"
    "?d ! Suc (Suc (length body)) = byte_of 2 n" "?d ! (length body + 3) = byte_of 3 n"
    by (simp_all add: nth_append)
  have k: "length body + 4 - 3 = Suc (length body)" "length body + 4 - 2 = Suc (Suc (length body))"
    "length body + 4 - 1 = length body + 3" "length body + 4 - 4 = length body" by simp_all
  show ?thesis
    using assms by (subst decodeXtUdpSequence_safe) (simp_all only: d k byte_simps, simp_all)
qed

text \<open>
  C29. The tracker compares unbounded packet numbers: for a tracker whose last accepted
  packet has the unbounded number \<open>m\<close> and that is not re-baselining after an idle period,
  a packet numbered \<open>n\<close> less than \<open>2 ^ 31\<close> away is a duplicate, in order, a forward gap or
  backward exactly as \<open>n\<close> compares with \<open>m\<close> (across any roll-over of the 32-bit counter);
  it is accepted iff it is newer, a gap reports the exact number of missing packets, and
  the baseline becomes the newer of the two.
\<close>
theorem seq_observe_serial:
  assumes "seq_initialized t" and "\<not> seq_idle t ts"
    and "last_sequence t = word_of_int m" and "\<bar>n - m\<bar> < 2 ^ 31"
  shows "case seq_observe t (word_of_int n) ts of (d, t') \<Rightarrow>
      seq_status d = (if n = m then SeqDuplicate else if n = m + 1 then SeqInOrder
        else if m < n then SeqForwardGap else SeqBackward) \<and>
      (seq_accepted d \<longleftrightarrow> m < n) \<and>
      (m < n \<longrightarrow> uint (seq_missing d) = n - m - 1) \<and>
      last_sequence t' = word_of_int (max m n) \<and> last_observed_timestamp t' = ts"
proof -
  have "last_observed_timestamp (snd (seq_observe t (word_of_int n) ts)) = ts"
    using assms(1) by (simp add: seq_observe_def Let_def)
  then show ?thesis
    using seq_observe_serial_aux [OF assms] by (simp add: case_prod_beta)
qed

theorem seq_observe_serial_witness:
  "case seq_observe
      \<lparr>restart_idle_sec = kXtSequenceRestartIdleSec, seq_initialized = True,
       last_sequence = 0xFFFFFFFF, last_observed_timestamp = d_lit 5\<rparr>
      (word_of_int 4294967298) (d_lit 6) of
     (d, t') \<Rightarrow> seq_status d = SeqForwardGap \<and> seq_accepted d \<and> uint (seq_missing d) = 2 \<and>
       last_sequence t' = 2"
proof -
  let ?t = "\<lparr>restart_idle_sec = kXtSequenceRestartIdleSec, seq_initialized = True,
       last_sequence = (0xFFFFFFFF :: u32), last_observed_timestamp = d_lit 5\<rparr>"
  have i: "\<not> seq_idle ?t (d_lit 6)" by code_simp
  have "last_sequence ?t = word_of_int 4294967295" by simp
  then show ?thesis
    using seq_observe_serial [OF _ i, of 4294967295 4294967298] by (simp add: case_prod_beta)
qed


text \<open>
  C7. No replay through the tracker: in any stream of packets in which compared packets
  are less than \<open>2 ^ 31\<close> apart and no idle period occurs, the accepted packets have strictly
  increasing unbounded numbers (no duplicate, no reordered packet, whatever the stream
  does), and the accumulated gap count is exactly the number of packet numbers between
  the first and the last accepted packet that were not accepted.
\<close>
theorem xt_stream_no_replay:
  assumes "legal_run seq_ghost_observe seq_legal
     (newXtSequenceTracker kXtSequenceRestartIdleSec, m0, 0) stream"
  shows "case guard_run seq_ghost_observe seq_accepted
       (newXtSequenceTracker kXtSequenceRestartIdleSec, m0, 0) stream of
     (acc, _, _, missing) \<Rightarrow>
       sorted_wrt (<) (map fst acc) \<and>
       (acc \<noteq> [] \<longrightarrow> missing = fst (last acc) - fst (hd acc) - int (length acc - 1))"
  using sq.run_inv [OF seq_inv_new assms] by (auto simp: seq_inv_def case_prod_beta)

theorem xt_stream_no_replay_witness:
  "case guard_run seq_ghost_observe seq_accepted
       (newXtSequenceTracker kXtSequenceRestartIdleSec, 0, 0)
       [(4294967294, d_lit 1), (4294967297, d_lit 1), (4294967295, d_lit 1), (4294967297, d_lit 1),
        (4294967298, d_lit 1)] of
     (acc, _, _, missing) \<Rightarrow>
       map fst acc = [4294967294, 4294967297, 4294967298] \<and> missing = 2 \<and>
       sorted_wrt (<) (map fst acc)"
proof -
  let ?s = "[(4294967294, d_lit 1), (4294967297, d_lit 1), (4294967295, d_lit 1),
    (4294967297, d_lit 1), (4294967298, d_lit 1)]"
  have l: "legal_run seq_ghost_observe seq_legal
      (newXtSequenceTracker kXtSequenceRestartIdleSec, 0, 0) ?s"
    by code_simp
  have "map fst (fst (guard_run seq_ghost_observe seq_accepted
       (newXtSequenceTracker kXtSequenceRestartIdleSec, 0, 0) ?s)) =
     [4294967294, 4294967297, 4294967298]"
    by code_simp
  moreover from this have "fst (last (fst (guard_run seq_ghost_observe seq_accepted
       (newXtSequenceTracker kXtSequenceRestartIdleSec, 0, 0) ?s))) = 4294967298 \<and>
     fst (hd (fst (guard_run seq_ghost_observe seq_accepted
       (newXtSequenceTracker kXtSequenceRestartIdleSec, 0, 0) ?s))) = 4294967294 \<and>
     length (fst (guard_run seq_ghost_observe seq_accepted
       (newXtSequenceTracker kXtSequenceRestartIdleSec, 0, 0) ?s)) = 3"
    by (auto simp: map_eq_Cons_conv)
  ultimately show ?thesis
    using xt_stream_no_replay [OF l] by (auto simp: case_prod_beta)
qed

text \<open>
  C10. The guard over whole streams, exactly. For every sequence of timestamps (NaN and infinities
  included) let \<open>acc\<close> be those that a fresh guard has accepted. They are finite, and no accepted
  timestamp lies below an earlier accepted one by more than the tolerance, the difference
  being computed in \<^verbatim>\<open>double\<close> as the code does; in exact arithmetic the difference is less than
  the next double above the tolerance literal. The next timestamp is accepted if and only if it
  is finite and within the tolerance of every accepted one, so that jitter up to the tolerance is
  never refused and a refused timestamp does not move the high-water mark.
\<close>
theorem timestamp_guard_stream:
  "case guard_run ts_observe ts_accepted (newTimestampGuard kTimestampRegressionToleranceSec) stream
   of (acc, g) \<Rightarrow>
     list_all isfinite acc \<and>
     sorted_wrt (\<lambda>x y. rnd binary64 (fval x - fval y) \<le> fval kTimestampRegressionToleranceSec) acc \<and>
     sorted_wrt (\<lambda>x y. fval x - fval y < tolerance_succ) acc \<and>
     (\<forall>t. ts_accepted (fst (ts_observe g t)) \<longleftrightarrow>
        isfinite t \<and> (\<forall>x \<in> set acc. rnd binary64 (fval x - fval t) \<le> fval kTimestampRegressionToleranceSec)) \<and>
     (\<forall>t. \<not> ts_accepted (fst (ts_observe g t)) \<longrightarrow> snd (ts_observe g t) = g)"
proof (clarsimp split: prod.splits)
  fix acc g
  assume run: "guard_run ts_observe ts_accepted (newTimestampGuard kTimestampRegressionToleranceSec) stream = (acc, g)"
  then have inv: "ts_inv g acc" using ts.run_inv [OF ts_inv_new legal_run_True, of stream] by simp
  then show "list_all isfinite acc \<and>
     sorted_wrt (\<lambda>x y. rnd binary64 (fval x - fval y) \<le> fval kTimestampRegressionToleranceSec) acc \<and>
     sorted_wrt (\<lambda>x y. fval x - fval y < tolerance_succ) acc \<and>
     (\<forall>t. ts_accepted (fst (ts_observe g t)) \<longleftrightarrow>
        isfinite t \<and> (\<forall>x \<in> set acc. rnd binary64 (fval x - fval t) \<le> fval kTimestampRegressionToleranceSec)) \<and>
     (\<forall>t. \<not> ts_accepted (fst (ts_observe g t)) \<longrightarrow> snd (ts_observe g t) = g)"
    using ts_inv_decides [OF inv] ts_observe_rejected ts_inv_exact [OF inv]
    by (auto simp: ts_inv_def list_all_iff)
qed

definition demo_times :: "fp list" where
  "demo_times = [Fin False 10, NaN, Fin False 12, Fin False (191 / 16), Fin False 11]"

theorem timestamp_guard_stream_witness:
  "case guard_run ts_observe ts_accepted (newTimestampGuard kTimestampRegressionToleranceSec) demo_times
   of (acc, g) \<Rightarrow>
     acc = [Fin False 10, Fin False 12, Fin False (191 / 16)] \<and>
     \<not> ts_accepted (fst (ts_observe g (Fin False (95 / 8)))) \<and> snd (ts_observe g (Fin False (95 / 8))) = g"
proof -
  obtain acc g where run: "guard_run ts_observe ts_accepted (newTimestampGuard kTimestampRegressionToleranceSec) demo_times = (acc, g)"
    by fastforce
  have "fst (guard_run ts_observe ts_accepted (newTimestampGuard kTimestampRegressionToleranceSec) demo_times) =
      [Fin False 10, Fin False 12, Fin False (191 / 16)]" by code_simp
  then have acc: "acc = [Fin False 10, Fin False 12, Fin False (191 / 16)]" using run by simp
  have "\<not> rnd binary64 (fval (Fin False 12) - fval (Fin False (95 / 8))) \<le> fval kTimestampRegressionToleranceSec"
    by code_simp
  then show ?thesis using timestamp_guard_stream [of demo_times] run acc by auto
qed

text \<open>
  What one observation decides, on the exact values: with an initialised guard and
  finite timestamps, a regression of at most the tolerance is accepted and leaves the
  high-water mark at the larger of the two; a regression of at least the next double is
  reported and changes nothing.
\<close>
lemma ts_observe_decides:
  assumes "ts_initialized g" and "tolerance_sec g = kTimestampRegressionToleranceSec"
    and "isfinite (guard_last_timestamp g)" and "isfinite t"
  shows "(fval (guard_last_timestamp g) - fval t \<le> fval kTimestampRegressionToleranceSec \<longrightarrow>
       ts_status (fst (ts_observe g t)) = TsAccepted \<and>
       fval (guard_last_timestamp (snd (ts_observe g t))) = max (fval (guard_last_timestamp g)) (fval t)) \<and>
     (tolerance_succ \<le> fval (guard_last_timestamp g) - fval t \<longrightarrow>
       ts_status (fst (ts_observe g t)) = TsRegression \<and> snd (ts_observe g t) = g)"
  using assms jitter_not_reported [OF assms(3,4)] regression_reported [OF assms(3,4)]
  by (auto simp: ts_observe_def Let_def fp_simps max_def)

text \<open>
  Recovery after a sensor restart: when at least two seconds (exactly) have passed since
  the last observed packet, any sequence number is accepted and becomes the new baseline,
  so that a sensor whose counter starts again is never rejected for good.
\<close>
lemma seq_restart_after_idle:
  assumes "seq_initialized t" and "restart_idle_sec t = kXtSequenceRestartIdleSec"
    and "isfinite ts" and "isfinite (last_observed_timestamp t)"
    and "2 \<le> fval ts - fval (last_observed_timestamp t)"
  shows "case seq_observe t n ts of (d, t') \<Rightarrow>
     seq_status d = SeqRestartAfterIdle \<and> seq_accepted d \<and> seq_previous d = last_sequence t \<and>
     seq_missing d = 0 \<and> last_sequence t' = n \<and> last_observed_timestamp t' = ts"
proof -
  have "rnd binary64 2 = 2" using rnd_of_int [of binary64 2] by simp
  then have "2 \<le> rnd binary64 (fval ts - fval (last_observed_timestamp t))"
    using assms(5) by (rule r64.ge_repr)
  then have "seq_idle t ts" using assms by (simp add: seq_idle_iff)
  then show ?thesis
    using assms(1) by (simp add: seq_observe_def seq_idle_def seq_accepted_def Let_def)
qed

end
