(* ===== verification/Packet_Parsers.thy ===== *)
theory Packet_Parsers
  imports Packet_Defenses "HOL-Library.Monad_Syntax"
begin

text \<open>
  The datagram layouts of \<^verbatim>\<open>pandarGeneral_internal.h\<close>, \<^verbatim>\<open>pandarXT.h\<close> and
  \<^verbatim>\<open>pandarQT.h\<close> and the parsers \<^verbatim>\<open>ParseRawData\<close> (Pandar40P), \<^verbatim>\<open>ParseL64Data\<close>,
  \<^verbatim>\<open>ParseL20Data\<close>, \<^verbatim>\<open>ParseQTData\<close>, \<^verbatim>\<open>ParseXTData\<close> and \<^verbatim>\<open>ParseGPS\<close>.

  A parser takes the packet object it writes to (in the driver an uninitialised local), the
  receive buffer and the declared length, and returns its status and the object. The value
  \<^term>\<open>None\<close> is an access outside the receive buffer or outside the arrays of the packet
  object. Whether \<^verbatim>\<open>char\<close> is signed is the argument \<open>cs\<close>; \<^verbatim>\<open>mktime\<close>, which depends on
  the time zone, is the argument \<open>mktime\<close>: it returns the \<^verbatim>\<open>time_t\<close> and the normalised
  structure.
\<close>

section \<open>Layout constants\<close>

text \<open>Pandar40P.\<close>

definition SOB_ANGLE_SIZE :: nat where "SOB_ANGLE_SIZE = 4"
definition RAW_MEASURE_SIZE :: nat where "RAW_MEASURE_SIZE = 3"
definition LASER_COUNT :: nat where "LASER_COUNT = 40"
definition BLOCKS_PER_PACKET :: nat where "BLOCKS_PER_PACKET = 10"
definition BLOCK_SIZE :: nat where "BLOCK_SIZE = RAW_MEASURE_SIZE * LASER_COUNT + SOB_ANGLE_SIZE"
definition TIMESTAMP_SIZE :: nat where "TIMESTAMP_SIZE = 4"
definition FACTORY_INFO_SIZE :: nat where "FACTORY_INFO_SIZE = 1"
definition ECHO_SIZE :: nat where "ECHO_SIZE = 1"
definition RESERVE_SIZE :: nat where "RESERVE_SIZE = 8"
definition REVOLUTION_SIZE :: nat where "REVOLUTION_SIZE = 2"
definition INFO_SIZE :: nat where
  "INFO_SIZE = TIMESTAMP_SIZE + FACTORY_INFO_SIZE + ECHO_SIZE + RESERVE_SIZE + REVOLUTION_SIZE"
definition UTC_TIME :: nat where "UTC_TIME = 6"
definition PACKET_SIZE :: nat where "PACKET_SIZE = BLOCK_SIZE * BLOCKS_PER_PACKET + INFO_SIZE + UTC_TIME"
definition SEQ_NUM_SIZE :: nat where "SEQ_NUM_SIZE = 4"
definition LASER_RETURN_TO_DISTANCE_RATE :: fp where
  "LASER_RETURN_TO_DISTANCE_RATE = d_lit (4 / 1000)"

text \<open>Pandar64.\<close>

definition HS_LIDAR_TIME_SIZE :: nat where "HS_LIDAR_TIME_SIZE = 6"
definition HS_LIDAR_L64_HEAD_SIZE :: nat where "HS_LIDAR_L64_HEAD_SIZE = 8"
definition HS_LIDAR_L64_BLOCK_NUMBER_6 :: nat where "HS_LIDAR_L64_BLOCK_NUMBER_6 = 6"
definition HS_LIDAR_L64_BLOCK_NUMBER_7 :: nat where "HS_LIDAR_L64_BLOCK_NUMBER_7 = 7"
definition HS_LIDAR_L64_BLOCK_HEADER_AZIMUTH :: nat where "HS_LIDAR_L64_BLOCK_HEADER_AZIMUTH = 2"
definition HS_LIDAR_L64_UNIT_NUM :: nat where "HS_LIDAR_L64_UNIT_NUM = 64"
definition HS_LIDAR_L64_UNIT_SIZE :: nat where "HS_LIDAR_L64_UNIT_SIZE = 3"
definition HS_LIDAR_L64_BLOCK_SIZE :: nat where
  "HS_LIDAR_L64_BLOCK_SIZE =
     HS_LIDAR_L64_UNIT_SIZE * HS_LIDAR_L64_UNIT_NUM + HS_LIDAR_L64_BLOCK_HEADER_AZIMUTH"
definition HS_LIDAR_L64_TIMESTAMP_SIZE :: nat where "HS_LIDAR_L64_TIMESTAMP_SIZE = 4"
definition HS_LIDAR_L64_ECHO_SIZE :: nat where "HS_LIDAR_L64_ECHO_SIZE = 1"
definition HS_LIDAR_L64_FACTORY_SIZE :: nat where "HS_LIDAR_L64_FACTORY_SIZE = 1"
definition HS_LIDAR_L64_RESERVED_SIZE :: nat where "HS_LIDAR_L64_RESERVED_SIZE = 8"
definition HS_LIDAR_L64_ENGINE_VELOCITY :: nat where "HS_LIDAR_L64_ENGINE_VELOCITY = 2"
definition HS_LIDAR_L64_PACKET_TAIL_SIZE :: nat where "HS_LIDAR_L64_PACKET_TAIL_SIZE = 26"
definition HS_LIDAR_L64_PACKET_TAIL_WITHOUT_UDPSEQ_SIZE :: nat where
  "HS_LIDAR_L64_PACKET_TAIL_WITHOUT_UDPSEQ_SIZE = 22"
definition HS_LIDAR_L64_6PACKET_SIZE :: nat where
  "HS_LIDAR_L64_6PACKET_SIZE =
     HS_LIDAR_L64_HEAD_SIZE + HS_LIDAR_L64_BLOCK_SIZE * HS_LIDAR_L64_BLOCK_NUMBER_6 +
     HS_LIDAR_L64_PACKET_TAIL_SIZE"
definition HS_LIDAR_L64_7PACKET_SIZE :: nat where
  "HS_LIDAR_L64_7PACKET_SIZE =
     HS_LIDAR_L64_HEAD_SIZE + HS_LIDAR_L64_BLOCK_SIZE * HS_LIDAR_L64_BLOCK_NUMBER_7 +
     HS_LIDAR_L64_PACKET_TAIL_SIZE"
definition HS_LIDAR_L64_6PACKET_WITHOUT_UDPSEQ_SIZE :: nat where
  "HS_LIDAR_L64_6PACKET_WITHOUT_UDPSEQ_SIZE =
     HS_LIDAR_L64_HEAD_SIZE + HS_LIDAR_L64_BLOCK_SIZE * HS_LIDAR_L64_BLOCK_NUMBER_6 +
     HS_LIDAR_L64_PACKET_TAIL_WITHOUT_UDPSEQ_SIZE"
definition HS_LIDAR_L64_7PACKET_WITHOUT_UDPSEQ_SIZE :: nat where
  "HS_LIDAR_L64_7PACKET_WITHOUT_UDPSEQ_SIZE =
     HS_LIDAR_L64_HEAD_SIZE + HS_LIDAR_L64_BLOCK_SIZE * HS_LIDAR_L64_BLOCK_NUMBER_7 +
     HS_LIDAR_L64_PACKET_TAIL_WITHOUT_UDPSEQ_SIZE"

text \<open>Pandar20.\<close>

definition HS_LIDAR_L20_HEAD_SIZE :: nat where "HS_LIDAR_L20_HEAD_SIZE = 8"
definition HS_LIDAR_L20_BLOCK_NUMBER :: nat where "HS_LIDAR_L20_BLOCK_NUMBER = 20"
definition HS_LIDAR_L20_BLOCK_HEADER_AZIMUTH :: nat where "HS_LIDAR_L20_BLOCK_HEADER_AZIMUTH = 2"
definition HS_LIDAR_L20_UNIT_NUM :: nat where "HS_LIDAR_L20_UNIT_NUM = 20"
definition HS_LIDAR_L20_UNIT_SIZE :: nat where "HS_LIDAR_L20_UNIT_SIZE = 3"
definition HS_LIDAR_L20_BLOCK_SIZE :: nat where
  "HS_LIDAR_L20_BLOCK_SIZE =
     HS_LIDAR_L20_UNIT_SIZE * HS_LIDAR_L20_UNIT_NUM + HS_LIDAR_L20_BLOCK_HEADER_AZIMUTH"
definition HS_LIDAR_L20_TIMESTAMP_SIZE :: nat where "HS_LIDAR_L20_TIMESTAMP_SIZE = 4"
definition HS_LIDAR_L20_ECHO_SIZE :: nat where "HS_LIDAR_L20_ECHO_SIZE = 1"
definition HS_LIDAR_L20_FACTORY_SIZE :: nat where "HS_LIDAR_L20_FACTORY_SIZE = 1"
definition HS_LIDAR_L20_RESERVED_SIZE :: nat where "HS_LIDAR_L20_RESERVED_SIZE = 8"
definition HS_LIDAR_L20_ENGINE_VELOCITY :: nat where "HS_LIDAR_L20_ENGINE_VELOCITY = 2"
definition HS_LIDAR_L20_PACKET_TAIL_SIZE :: nat where "HS_LIDAR_L20_PACKET_TAIL_SIZE = 22"
definition HS_LIDAR_L20_PACKET_SIZE :: nat where
  "HS_LIDAR_L20_PACKET_SIZE =
     HS_LIDAR_L20_HEAD_SIZE + HS_LIDAR_L20_BLOCK_SIZE * HS_LIDAR_L20_BLOCK_NUMBER +
     HS_LIDAR_L20_PACKET_TAIL_SIZE"

text \<open>PandarQT.\<close>

definition HS_LIDAR_QT_HEAD_SIZE :: nat where "HS_LIDAR_QT_HEAD_SIZE = 12"
definition HS_LIDAR_QT_BLOCK_NUMBER :: nat where "HS_LIDAR_QT_BLOCK_NUMBER = 4"
definition HS_LIDAR_QT_BLOCK_HEADER_AZIMUTH :: nat where "HS_LIDAR_QT_BLOCK_HEADER_AZIMUTH = 2"
definition HS_LIDAR_QT_UNIT_NUM :: nat where "HS_LIDAR_QT_UNIT_NUM = 64"
definition HS_LIDAR_QT_UNIT_SIZE :: nat where "HS_LIDAR_QT_UNIT_SIZE = 4"
definition HS_LIDAR_QT_BLOCK_SIZE :: nat where
  "HS_LIDAR_QT_BLOCK_SIZE =
     HS_LIDAR_QT_UNIT_SIZE * HS_LIDAR_QT_UNIT_NUM + HS_LIDAR_QT_BLOCK_HEADER_AZIMUTH"
definition HS_LIDAR_QT_BODY_SIZE :: nat where
  "HS_LIDAR_QT_BODY_SIZE = HS_LIDAR_QT_BLOCK_SIZE * HS_LIDAR_QT_BLOCK_NUMBER"
definition HS_LIDAR_QT_RESERVED_SIZE :: nat where "HS_LIDAR_QT_RESERVED_SIZE = 10"
definition HS_LIDAR_QT_ENGINE_VELOCITY :: nat where "HS_LIDAR_QT_ENGINE_VELOCITY = 2"
definition HS_LIDAR_QT_TIMESTAMP_SIZE :: nat where "HS_LIDAR_QT_TIMESTAMP_SIZE = 4"
definition HS_LIDAR_QT_ECHO_SIZE :: nat where "HS_LIDAR_QT_ECHO_SIZE = 1"
definition HS_LIDAR_QT_FACTORY_SIZE :: nat where "HS_LIDAR_QT_FACTORY_SIZE = 1"
definition HS_LIDAR_QT_PACKET_TAIL_SIZE :: nat where "HS_LIDAR_QT_PACKET_TAIL_SIZE = 28"
definition HS_LIDAR_QT_PACKET_TAIL_WITHOUT_UDPSEQ_SIZE :: nat where
  "HS_LIDAR_QT_PACKET_TAIL_WITHOUT_UDPSEQ_SIZE = 24"
definition HS_LIDAR_QT_PACKET_SIZE :: nat where
  "HS_LIDAR_QT_PACKET_SIZE =
     HS_LIDAR_QT_HEAD_SIZE + HS_LIDAR_QT_BODY_SIZE + HS_LIDAR_QT_PACKET_TAIL_SIZE"
definition HS_LIDAR_QT_PACKET_WITHOUT_UDPSEQ_SIZE :: nat where
  "HS_LIDAR_QT_PACKET_WITHOUT_UDPSEQ_SIZE =
     HS_LIDAR_QT_HEAD_SIZE + HS_LIDAR_QT_BODY_SIZE + HS_LIDAR_QT_PACKET_TAIL_WITHOUT_UDPSEQ_SIZE"

text \<open>PandarXT.\<close>

definition HS_LIDAR_XT_HEAD_SIZE :: nat where "HS_LIDAR_XT_HEAD_SIZE = 12"
definition HS_LIDAR_XT_BLOCK_NUMBER :: nat where "HS_LIDAR_XT_BLOCK_NUMBER = 8"
definition HS_LIDAR_XT_BLOCK_HEADER_AZIMUTH :: nat where "HS_LIDAR_XT_BLOCK_HEADER_AZIMUTH = 2"
definition HS_LIDAR_XT_UNIT_NUM :: nat where "HS_LIDAR_XT_UNIT_NUM = 32"
definition HS_LIDAR_XT_UNIT_SIZE :: nat where "HS_LIDAR_XT_UNIT_SIZE = 4"
definition HS_LIDAR_XT_BLOCK_SIZE :: nat where
  "HS_LIDAR_XT_BLOCK_SIZE =
     HS_LIDAR_XT_UNIT_SIZE * HS_LIDAR_XT_UNIT_NUM + HS_LIDAR_XT_BLOCK_HEADER_AZIMUTH"
definition HS_LIDAR_XT_BODY_SIZE :: nat where
  "HS_LIDAR_XT_BODY_SIZE = HS_LIDAR_XT_BLOCK_SIZE * HS_LIDAR_XT_BLOCK_NUMBER"
definition HS_LIDAR_XT_RESERVED_SIZE :: nat where "HS_LIDAR_XT_RESERVED_SIZE = 10"
definition HS_LIDAR_XT_ENGINE_VELOCITY :: nat where "HS_LIDAR_XT_ENGINE_VELOCITY = 2"
definition HS_LIDAR_XT_ECHO_SIZE :: nat where "HS_LIDAR_XT_ECHO_SIZE = 1"
definition HS_LIDAR_XT_UTC_SIZE :: nat where "HS_LIDAR_XT_UTC_SIZE = 6"
definition HS_LIDAR_XT_PACKET_TAIL_SIZE :: nat where "HS_LIDAR_XT_PACKET_TAIL_SIZE = 28"
definition HS_LIDAR_XT_PACKET_SIZE :: nat where
  "HS_LIDAR_XT_PACKET_SIZE =
     HS_LIDAR_XT_HEAD_SIZE + HS_LIDAR_XT_BODY_SIZE + HS_LIDAR_XT_PACKET_TAIL_SIZE"
definition HS_LIDAR_XT16_PACKET_SIZE :: nat where "HS_LIDAR_XT16_PACKET_SIZE = 568"
definition HS_LIDAR_XTM_PACKET_SIZE :: nat where "HS_LIDAR_XTM_PACKET_SIZE = 820"

text \<open>GPS and buffers.\<close>

definition GPS_PACKET_SIZE :: nat where "GPS_PACKET_SIZE = 512"
definition GPS_PACKET_FLAG_SIZE :: nat where "GPS_PACKET_FLAG_SIZE = 2"
definition GPS_PACKET_ITEM_SIZE :: nat where "GPS_PACKET_ITEM_SIZE = 2"
definition ETHERNET_MTU :: nat where "ETHERNET_MTU = 1500"

lemmas layout_defs =
  SOB_ANGLE_SIZE_def RAW_MEASURE_SIZE_def LASER_COUNT_def BLOCKS_PER_PACKET_def BLOCK_SIZE_def
  TIMESTAMP_SIZE_def FACTORY_INFO_SIZE_def ECHO_SIZE_def RESERVE_SIZE_def REVOLUTION_SIZE_def
  INFO_SIZE_def UTC_TIME_def PACKET_SIZE_def SEQ_NUM_SIZE_def HS_LIDAR_TIME_SIZE_def
  HS_LIDAR_L64_HEAD_SIZE_def HS_LIDAR_L64_BLOCK_NUMBER_6_def HS_LIDAR_L64_BLOCK_NUMBER_7_def
  HS_LIDAR_L64_BLOCK_HEADER_AZIMUTH_def HS_LIDAR_L64_UNIT_NUM_def HS_LIDAR_L64_UNIT_SIZE_def
  HS_LIDAR_L64_BLOCK_SIZE_def HS_LIDAR_L64_TIMESTAMP_SIZE_def HS_LIDAR_L64_ECHO_SIZE_def
  HS_LIDAR_L64_FACTORY_SIZE_def HS_LIDAR_L64_RESERVED_SIZE_def HS_LIDAR_L64_ENGINE_VELOCITY_def
  HS_LIDAR_L64_PACKET_TAIL_SIZE_def HS_LIDAR_L64_PACKET_TAIL_WITHOUT_UDPSEQ_SIZE_def
  HS_LIDAR_L64_6PACKET_SIZE_def HS_LIDAR_L64_7PACKET_SIZE_def
  HS_LIDAR_L64_6PACKET_WITHOUT_UDPSEQ_SIZE_def HS_LIDAR_L64_7PACKET_WITHOUT_UDPSEQ_SIZE_def
  HS_LIDAR_L20_HEAD_SIZE_def HS_LIDAR_L20_BLOCK_NUMBER_def HS_LIDAR_L20_BLOCK_HEADER_AZIMUTH_def
  HS_LIDAR_L20_UNIT_NUM_def HS_LIDAR_L20_UNIT_SIZE_def HS_LIDAR_L20_BLOCK_SIZE_def
  HS_LIDAR_L20_TIMESTAMP_SIZE_def HS_LIDAR_L20_ECHO_SIZE_def HS_LIDAR_L20_FACTORY_SIZE_def
  HS_LIDAR_L20_RESERVED_SIZE_def HS_LIDAR_L20_ENGINE_VELOCITY_def
  HS_LIDAR_L20_PACKET_TAIL_SIZE_def HS_LIDAR_L20_PACKET_SIZE_def
  HS_LIDAR_QT_HEAD_SIZE_def HS_LIDAR_QT_BLOCK_NUMBER_def HS_LIDAR_QT_BLOCK_HEADER_AZIMUTH_def
  HS_LIDAR_QT_UNIT_NUM_def HS_LIDAR_QT_UNIT_SIZE_def HS_LIDAR_QT_BLOCK_SIZE_def
  HS_LIDAR_QT_BODY_SIZE_def HS_LIDAR_QT_RESERVED_SIZE_def HS_LIDAR_QT_ENGINE_VELOCITY_def
  HS_LIDAR_QT_TIMESTAMP_SIZE_def HS_LIDAR_QT_ECHO_SIZE_def HS_LIDAR_QT_FACTORY_SIZE_def
  HS_LIDAR_QT_PACKET_TAIL_SIZE_def HS_LIDAR_QT_PACKET_TAIL_WITHOUT_UDPSEQ_SIZE_def
  HS_LIDAR_QT_PACKET_SIZE_def HS_LIDAR_QT_PACKET_WITHOUT_UDPSEQ_SIZE_def
  HS_LIDAR_XT_HEAD_SIZE_def HS_LIDAR_XT_BLOCK_NUMBER_def HS_LIDAR_XT_BLOCK_HEADER_AZIMUTH_def
  HS_LIDAR_XT_UNIT_NUM_def HS_LIDAR_XT_UNIT_SIZE_def HS_LIDAR_XT_BLOCK_SIZE_def
  HS_LIDAR_XT_BODY_SIZE_def HS_LIDAR_XT_RESERVED_SIZE_def HS_LIDAR_XT_ENGINE_VELOCITY_def
  HS_LIDAR_XT_ECHO_SIZE_def HS_LIDAR_XT_UTC_SIZE_def HS_LIDAR_XT_PACKET_TAIL_SIZE_def
  HS_LIDAR_XT_PACKET_SIZE_def HS_LIDAR_XT16_PACKET_SIZE_def HS_LIDAR_XTM_PACKET_SIZE_def
  GPS_PACKET_SIZE_def GPS_PACKET_FLAG_SIZE_def GPS_PACKET_ITEM_SIZE_def ETHERNET_MTU_def

section \<open>Packet objects\<close>

text \<open>The broken-down time the parsers fill in; members not named are zero.\<close>

record tm =
  tm_year :: int
  tm_mon :: int
  tm_mday :: int
  tm_hour :: int
  tm_min :: int
  tm_sec :: int
  tm_isdst :: int

record Pandar40PUnit =
  p40_intensity :: byte
  p40_distance :: fp

record Pandar40PBlock =
  p40_azimuth :: u16
  p40_sob :: u16
  p40_units :: "Pandar40PUnit list"

record Pandar40PPacket =
  p40_blocks :: "Pandar40PBlock list"
  p40_t :: tm
  p40_usec :: u32
  p40_echo :: int
  p40_timestamp_point :: fp
  p40_spin_speed :: fp

text \<open>
  The Pandar64 and Pandar20 structures have the same members and differ in the array lengths;
  those of QT and XT extend them. A \<^verbatim>\<open>char\<close> member is its byte.
\<close>

record HS_LIDAR_L64_Header =
  sob :: u16
  chLaserNumber :: byte
  chBlockNumber :: byte
  chReturnType :: byte
  chDisUnit :: byte

record HS_LIDAR_XT_Header = HS_LIDAR_L64_Header +
  chProtocolMajor :: byte
  chProtocolMinor :: byte

record HS_LIDAR_L64_Unit =
  distance :: fp
  intensity :: u16

record HS_LIDAR_XT_Unit = HS_LIDAR_L64_Unit +
  confidence :: u16

record 'u lidar_block =
  azimuth :: u16
  units :: "'u list"

record ('h, 'u) lidar_packet =
  header :: 'h
  blocks :: "'u lidar_block list"
  timestamp :: u32
  echo :: u32
  addtime :: "byte list"
  timestamp_point :: fp
  spin_speed :: fp

type_synonym HS_LIDAR_L64_Packet = "(HS_LIDAR_L64_Header, HS_LIDAR_L64_Unit) lidar_packet"
type_synonym HS_LIDAR_L20_Packet = "(HS_LIDAR_L64_Header, HS_LIDAR_L64_Unit) lidar_packet"
type_synonym HS_LIDAR_QT_Packet = "(HS_LIDAR_XT_Header, HS_LIDAR_XT_Unit) lidar_packet"

record HS_LIDAR_XT_Packet = "(HS_LIDAR_XT_Header, HS_LIDAR_XT_Unit) lidar_packet" +
  udp_sequence :: u32

record PandarGPS =
  gps_flag :: u16
  gps_year :: u16
  gps_month :: u16
  gps_day :: u16
  gps_second :: u16
  gps_minute :: u16
  gps_hour :: u16
  gps_fineTime :: u32

text \<open>The arrays of a packet object have their declared lengths.\<close>

definition packet_arrays :: "nat \<Rightarrow> nat \<Rightarrow> ('h, 'u, 'z) lidar_packet_scheme \<Rightarrow> bool" where
  "packet_arrays nb nu p \<longleftrightarrow>
     length (blocks p) = nb \<and> list_all (\<lambda>b. length (units b) = nu) (blocks p) \<and>
     length (addtime p) = 6"

definition p40_arrays :: "Pandar40PPacket \<Rightarrow> bool" where
  "p40_arrays p \<longleftrightarrow>
     length (p40_blocks p) = BLOCKS_PER_PACKET \<and>
     list_all (\<lambda>b. length (p40_units b) = LASER_COUNT) (p40_blocks p)"

section \<open>Time\<close>

text \<open>\<^verbatim>\<open>tm_year = addtime[0] + 100; if (tm_year >= 200) tm_year -= 100;\<close> and the rest.\<close>

definition utc_tm :: "byte list \<Rightarrow> tm" where
  "utc_tm a =
     (let y = int (unat (a ! 0)) + 100 in
      \<lparr>tm_year = (if 200 \<le> y then y - 100 else y), tm_mon = int (unat (a ! 1)) - 1,
       tm_mday = int (unat (a ! 2)), tm_hour = int (unat (a ! 3)), tm_min = int (unat (a ! 4)),
       tm_sec = int (unat (a ! 5)), tm_isdst = 0\<rparr>)"

text \<open>\<^verbatim>\<open>mktime(&tTm) + static_cast<double>(timestamp) / 1000000.0\<close>\<close>

definition point_time :: "(tm \<Rightarrow> int \<times> tm) \<Rightarrow> tm \<Rightarrow> u32 \<Rightarrow> fp" where
  "point_time mktime t usec =
     d_add (d_int (fst (mktime t))) (d_div (d_int (uint usec)) (d_lit 1000000))"

section \<open>Pandar40P\<close>

definition parse_40p_unit :: "byte list \<Rightarrow> nat \<Rightarrow> Pandar40PUnit option" where
  "parse_40p_unit buf index = do {
     rng \<leftarrow> rd_le16 buf index;
     b2 \<leftarrow> rd buf (index + 2);
     let d = d_mul (d_int (uint rng)) LASER_RETURN_TO_DISTANCE_RATE;
     Some (if (fp_eq d (d_int 0x010101) \<and> unat b2 = 0x0101) \<or> fp_lt (d_int (200 * 1000 div 2)) d
           then \<lparr>p40_intensity = 0, p40_distance = d_int 0\<rparr>
           else \<lparr>p40_intensity = b2, p40_distance = d\<rparr>)
   }"

text \<open>
  The inner loops: \<open>n\<close> units from \<open>index\<close> on into \<open>us\<close> from position \<open>unit\<close> on. The unit
  reader and the unit size are those of the caller.
\<close>

fun parse_units ::
  "(byte list \<Rightarrow> nat \<Rightarrow> 'u option) \<Rightarrow> nat \<Rightarrow> byte list \<Rightarrow> nat \<Rightarrow> nat \<Rightarrow> nat \<Rightarrow> 'u list \<Rightarrow>
   (nat \<times> 'u list) option" where
  "parse_units ru sz buf 0 unit index us = Some (index, us)"
| "parse_units ru sz buf (Suc n) unit index us = do {
     u \<leftarrow> ru buf index;
     us' \<leftarrow> wr us unit u;
     parse_units ru sz buf n (Suc unit) (index + sz) us'
   }"

fun parse_40p_blocks ::
  "byte list \<Rightarrow> nat \<Rightarrow> nat \<Rightarrow> nat \<Rightarrow> Pandar40PBlock list \<Rightarrow> (nat \<times> Pandar40PBlock list) option" where
  "parse_40p_blocks buf 0 i index bs = Some (index, bs)"
| "parse_40p_blocks buf (Suc n) i index bs = do {
     blk \<leftarrow> rd bs i;
     sob \<leftarrow> rd_le16 buf index;
     az \<leftarrow> rd_le16 buf (index + 2);
     (index', us) \<leftarrow>
        parse_units parse_40p_unit RAW_MEASURE_SIZE buf LASER_COUNT 0 (index + SOB_ANGLE_SIZE) (p40_units blk);
     bs' \<leftarrow> wr bs i (blk\<lparr>p40_sob := sob, p40_azimuth := az, p40_units := us\<rparr>);
     parse_40p_blocks buf n (Suc i) index' bs'
   }"

definition ParseRawData ::
  "(tm \<Rightarrow> int \<times> tm) \<Rightarrow> Pandar40PPacket \<Rightarrow> byte list \<Rightarrow> nat \<Rightarrow> (int \<times> Pandar40PPacket) option" where
  "ParseRawData mktime packet buf len =
     (if len \<noteq> PACKET_SIZE \<and> len \<noteq> PACKET_SIZE + SEQ_NUM_SIZE then Some (- 1, packet)
      else do {
        (index, bs) \<leftarrow> parse_40p_blocks buf BLOCKS_PER_PACKET 0 0 (p40_blocks packet);
        let index = index + RESERVE_SIZE;
        spin \<leftarrow> rd_le16 buf index;
        let index = index + REVOLUTION_SIZE;
        usec \<leftarrow> rd_le32 buf index;
        let usec = usec mod 1000000;
        let index = index + TIMESTAMP_SIZE;
        e \<leftarrow> rd buf index;
        let index = index + (FACTORY_INFO_SIZE + ECHO_SIZE);
        a \<leftarrow> rd_bytes buf index UTC_TIME;
        let t = utc_tm a;
        Some (0, \<lparr>p40_blocks = bs, p40_t = snd (mktime t), p40_usec = usec,
                  p40_echo = uint e, p40_timestamp_point = point_time mktime t usec,
                  p40_spin_speed = f_int (uint spin)\<rparr>)
      })"

section \<open>Pandar64, Pandar20 and QT\<close>

text \<open>
  \<^verbatim>\<open>static_cast<double>(unRange * chDisUnit) / 1000\<close>: the product is taken in
  \<^verbatim>\<open>unsigned int\<close>, to which the promoted \<^verbatim>\<open>char\<close> is converted.
\<close>

definition unit_distance :: "bool \<Rightarrow> byte \<Rightarrow> u16 \<Rightarrow> fp" where
  "unit_distance cs dis rng =
     d_div (d_int (uint ((ucast rng :: u32) * of_int (char_val cs dis)))) (d_lit 1000)"

definition parse_l64_unit :: "bool \<Rightarrow> byte \<Rightarrow> byte list \<Rightarrow> nat \<Rightarrow> HS_LIDAR_L64_Unit option" where
  "parse_l64_unit cs dis buf index = do {
     rng \<leftarrow> rd_le16 buf index;
     b2 \<leftarrow> rd buf (index + 2);
     Some \<lparr>distance = unit_distance cs dis rng, intensity = ucast b2\<rparr>
   }"

definition parse_xt_unit :: "bool \<Rightarrow> byte \<Rightarrow> byte list \<Rightarrow> nat \<Rightarrow> HS_LIDAR_XT_Unit option" where
  "parse_xt_unit cs dis buf index = do {
     rng \<leftarrow> rd_le16 buf index;
     b2 \<leftarrow> rd buf (index + 2);
     b3 \<leftarrow> rd buf (index + 3);
     Some \<lparr>distance = unit_distance cs dis rng, intensity = ucast b2, confidence = ucast b3\<rparr>
   }"

text \<open>
  \<^verbatim>\<open>for (block = 0; block < n; block++)\<close> with the azimuth and then \<open>lasers\<close> units.
\<close>

fun parse_blocks ::
  "(byte list \<Rightarrow> nat \<Rightarrow> 'u option) \<Rightarrow> nat \<Rightarrow> nat \<Rightarrow> byte list \<Rightarrow> nat \<Rightarrow> nat \<Rightarrow> nat \<Rightarrow>
   'u lidar_block list \<Rightarrow> (nat \<times> 'u lidar_block list) option" where
  "parse_blocks ru sz lasers buf 0 block index bs = Some (index, bs)"
| "parse_blocks ru sz lasers buf (Suc n) block index bs = do {
     az \<leftarrow> rd_le16 buf index;
     blk \<leftarrow> rd bs block;
     (index', us) \<leftarrow> parse_units ru sz buf lasers 0 (index + 2) (units blk);
     bs' \<leftarrow> wr bs block (blk\<lparr>azimuth := az, units := us\<rparr>);
     parse_blocks ru sz lasers buf n (Suc block) index' bs'
   }"

text \<open>A loop bound that is a \<^verbatim>\<open>char\<close>: a negative one means no iteration.\<close>

definition char_count :: "bool \<Rightarrow> byte \<Rightarrow> nat" where
  "char_count cs b = nat (char_val cs b)"

definition ParseL64Data ::
  "bool \<Rightarrow> (tm \<Rightarrow> int \<times> tm) \<Rightarrow> HS_LIDAR_L64_Packet \<Rightarrow> byte list \<Rightarrow> nat \<Rightarrow>
   (int \<times> HS_LIDAR_L64_Packet) option" where
  "ParseL64Data cs mktime packet recvbuf len =
     (if len \<noteq> HS_LIDAR_L64_6PACKET_SIZE \<and> len \<noteq> HS_LIDAR_L64_7PACKET_SIZE \<and>
         len \<noteq> HS_LIDAR_L64_6PACKET_WITHOUT_UDPSEQ_SIZE \<and>
         len \<noteq> HS_LIDAR_L64_7PACKET_WITHOUT_UDPSEQ_SIZE \<and> len \<noteq> 1270
      then Some (- 1, packet)
      else do {
        s \<leftarrow> rd_be16 recvbuf 0;
        ln \<leftarrow> rd recvbuf 2;
        bn \<leftarrow> rd recvbuf 3;
        rt \<leftarrow> rd recvbuf 4;
        du \<leftarrow> rd recvbuf 5;
        let packet = packet\<lparr>header := \<lparr>sob = s, chLaserNumber = ln, chBlockNumber = bn,
                                        chReturnType = rt, chDisUnit = du\<rparr>\<rparr>;
        if s \<noteq> 0xEEFF then Some (- 1, packet)
        else do {
          (index, bs) \<leftarrow>
             parse_blocks (parse_l64_unit cs du) HS_LIDAR_L64_UNIT_SIZE (char_count cs ln) recvbuf
               (char_count cs bn) 0 HS_LIDAR_L64_HEAD_SIZE (blocks packet);
          let index = index + HS_LIDAR_L64_RESERVED_SIZE;
          spin \<leftarrow> rd_le16 recvbuf index;
          let index = index + HS_LIDAR_L64_ENGINE_VELOCITY;
          ts \<leftarrow> rd_le32 recvbuf index;
          let index = index + HS_LIDAR_L64_TIMESTAMP_SIZE;
          e \<leftarrow> rd recvbuf index;
          let index = index + HS_LIDAR_L64_ECHO_SIZE + HS_LIDAR_L64_FACTORY_SIZE;
          a \<leftarrow> rd_bytes recvbuf index 6;
          Some (0, packet\<lparr>blocks := bs, timestamp := ts, echo := ucast e, addtime := a,
                          timestamp_point := point_time mktime (utc_tm a) ts,
                          spin_speed := f_int (uint spin)\<rparr>)
        }
      })"

definition ParseL20Data ::
  "bool \<Rightarrow> (tm \<Rightarrow> int \<times> tm) \<Rightarrow> HS_LIDAR_L20_Packet \<Rightarrow> byte list \<Rightarrow> nat \<Rightarrow>
   (int \<times> HS_LIDAR_L20_Packet) option" where
  "ParseL20Data cs mktime packet recvbuf len =
     (if len \<noteq> HS_LIDAR_L20_PACKET_SIZE then Some (- 1, packet)
      else do {
        s \<leftarrow> rd_be16 recvbuf 0;
        ln \<leftarrow> rd recvbuf 2;
        bn \<leftarrow> rd recvbuf 3;
        rt \<leftarrow> rd recvbuf 4;
        du \<leftarrow> rd recvbuf 5;
        let packet = packet\<lparr>header := \<lparr>sob = s, chLaserNumber = ln, chBlockNumber = bn,
                                        chReturnType = rt, chDisUnit = du\<rparr>\<rparr>;
        if s \<noteq> 0xEEFF then Some (- 1, packet)
        else do {
          (index, bs) \<leftarrow>
             parse_blocks (parse_l64_unit cs du) HS_LIDAR_L20_UNIT_SIZE (char_count cs ln) recvbuf
               (char_count cs bn) 0 HS_LIDAR_L20_HEAD_SIZE (blocks packet);
          let index = index + HS_LIDAR_L20_RESERVED_SIZE;
          spin \<leftarrow> rd_le16 recvbuf index;
          let index = index + HS_LIDAR_L20_ENGINE_VELOCITY;
          ts \<leftarrow> rd_le32 recvbuf index;
          let index = index + HS_LIDAR_L20_TIMESTAMP_SIZE;
          e \<leftarrow> rd recvbuf index;
          let index = index + HS_LIDAR_L20_ECHO_SIZE + HS_LIDAR_L20_FACTORY_SIZE;
          a \<leftarrow> rd_bytes recvbuf index 6;
          Some (0, packet\<lparr>blocks := bs, timestamp := ts, echo := ucast e, addtime := a,
                          timestamp_point := point_time mktime (utc_tm a) ts,
                          spin_speed := f_int (uint spin)\<rparr>)
        }
      })"

definition ParseQTData ::
  "bool \<Rightarrow> (tm \<Rightarrow> int \<times> tm) \<Rightarrow> HS_LIDAR_QT_Packet \<Rightarrow> byte list \<Rightarrow> nat \<Rightarrow>
   (int \<times> HS_LIDAR_QT_Packet) option" where
  "ParseQTData cs mktime packet recvbuf len =
     (if len \<noteq> HS_LIDAR_QT_PACKET_SIZE \<and> len \<noteq> HS_LIDAR_QT_PACKET_WITHOUT_UDPSEQ_SIZE
      then Some (- 1, packet)
      else do {
        s \<leftarrow> rd_be16 recvbuf 0;
        pma \<leftarrow> rd recvbuf 2;
        pmi \<leftarrow> rd recvbuf 3;
        ln \<leftarrow> rd recvbuf 6;
        bn \<leftarrow> rd recvbuf 7;
        rt \<leftarrow> rd recvbuf 8;
        du \<leftarrow> rd recvbuf 9;
        let packet = packet\<lparr>header := \<lparr>sob = s, chLaserNumber = ln, chBlockNumber = bn,
                                        chReturnType = rt, chDisUnit = du,
                                        chProtocolMajor = pma, chProtocolMinor = pmi\<rparr>\<rparr>;
        if s \<noteq> 0xEEFF then Some (- 1, packet)
        else do {
          (index, bs) \<leftarrow>
             parse_blocks (parse_xt_unit cs du) HS_LIDAR_QT_UNIT_SIZE (char_count cs ln) recvbuf
               (char_count cs bn) 0 HS_LIDAR_QT_HEAD_SIZE (blocks packet);
          let index = index + HS_LIDAR_QT_RESERVED_SIZE;
          spin \<leftarrow> rd_le16 recvbuf index;
          let index = index + HS_LIDAR_QT_ENGINE_VELOCITY;
          ts \<leftarrow> rd_le32 recvbuf index;
          let index = index + HS_LIDAR_QT_TIMESTAMP_SIZE;
          e \<leftarrow> rd recvbuf index;
          let index = index + HS_LIDAR_QT_ECHO_SIZE + HS_LIDAR_QT_FACTORY_SIZE;
          a \<leftarrow> rd_bytes recvbuf index 6;
          Some (0, packet\<lparr>blocks := bs, timestamp := ts, echo := ucast e, addtime := a,
                          timestamp_point := point_time mktime (utc_tm a) ts,
                          spin_speed := f_int (uint spin)\<rparr>)
        }
      })"

section \<open>XT\<close>

definition xt_expected_size :: "nat \<Rightarrow> nat \<Rightarrow> nat" where
  "xt_expected_size block_count laser_count =
     HS_LIDAR_XT_HEAD_SIZE +
     block_count * (HS_LIDAR_XT_BLOCK_HEADER_AZIMUTH + laser_count * HS_LIDAR_XT_UNIT_SIZE) +
     HS_LIDAR_XT_PACKET_TAIL_SIZE"

definition ParseXTData ::
  "bool \<Rightarrow> (tm \<Rightarrow> int \<times> tm) \<Rightarrow> HS_LIDAR_XT_Packet \<Rightarrow> byte list \<Rightarrow> nat \<Rightarrow>
   (int \<times> HS_LIDAR_XT_Packet) option" where
  "ParseXTData cs mktime packet recvbuf len =
     (if len \<noteq> HS_LIDAR_XT_PACKET_SIZE \<and> len \<noteq> HS_LIDAR_XT16_PACKET_SIZE \<and>
         len \<noteq> HS_LIDAR_XTM_PACKET_SIZE
      then Some (- 1, packet)
      else do {
        s \<leftarrow> rd_be16 recvbuf 0;
        pma \<leftarrow> rd recvbuf 2;
        pmi \<leftarrow> rd recvbuf 3;
        ln \<leftarrow> rd recvbuf 6;
        bn \<leftarrow> rd recvbuf 7;
        rt \<leftarrow> rd recvbuf 8;
        du \<leftarrow> rd recvbuf 9;
        let packet = packet\<lparr>header := \<lparr>sob = s, chLaserNumber = ln, chBlockNumber = bn,
                                        chReturnType = rt, chDisUnit = du,
                                        chProtocolMajor = pma, chProtocolMinor = pmi\<rparr>\<rparr>;
        let block_count = unat bn;
        let laser_count = unat ln;
        if s \<noteq> 0xEEFF then Some (- 1, packet)
        else if block_count = 0 \<or> HS_LIDAR_XT_BLOCK_NUMBER < block_count \<or>
                laser_count = 0 \<or> HS_LIDAR_XT_UNIT_NUM < laser_count \<or>
                xt_expected_size block_count laser_count \<noteq> len
        then Some (- 1, packet)
        else do {
          sq \<leftarrow> decodeXtUdpSequence (Some recvbuf) len True;
          case sq of None \<Rightarrow> Some (- 1, packet)
          | Some n \<Rightarrow> do {
              let packet = packet\<lparr>udp_sequence := n\<rparr>;
              (index, bs) \<leftarrow>
                 parse_blocks (parse_xt_unit cs du) HS_LIDAR_XT_UNIT_SIZE (char_count cs ln) recvbuf
                   (char_count cs bn) 0 HS_LIDAR_XT_HEAD_SIZE (blocks packet);
              let index = index + HS_LIDAR_XT_RESERVED_SIZE;
              e \<leftarrow> rd recvbuf index;
              let index = index + HS_LIDAR_XT_ECHO_SIZE;
              spin \<leftarrow> rd_le16 recvbuf index;
              let index = index + HS_LIDAR_XT_ENGINE_VELOCITY;
              a \<leftarrow> rd_bytes recvbuf index 6;
              let index = index + HS_LIDAR_XT_UTC_SIZE;
              ts \<leftarrow> rd_le32 recvbuf index;
              Some (0, packet\<lparr>blocks := bs, timestamp := ts, echo := ucast e, addtime := a,
                              timestamp_point := point_time mktime (utc_tm a) ts,
                              spin_speed := f_int (uint spin)\<rparr>)
            }
        }
      })"

section \<open>GPS\<close>

text \<open>
  \<^verbatim>\<open>(b0 & 0xff - 0x30) + (b1 & 0xff - 0x30) * 10\<close>: subtraction binds tighter than the
  bitwise and, so the mask is \<^verbatim>\<open>0xcf\<close>.
\<close>

definition gps_item :: "byte \<Rightarrow> byte \<Rightarrow> u16" where
  "gps_item b0 b1 = of_nat (unat (b0 AND (0xff - 0x30)) + unat (b1 AND (0xff - 0x30)) * 10)"

definition rd_gps_item :: "byte list \<Rightarrow> nat \<Rightarrow> u16 option" where
  "rd_gps_item buf index = do { b0 \<leftarrow> rd buf index; b1 \<leftarrow> rd buf (index + 1); Some (gps_item b0 b1) }"

definition ParseGPS :: "PandarGPS \<Rightarrow> byte list \<Rightarrow> nat \<Rightarrow> (int \<times> PandarGPS) option" where
  "ParseGPS packet recvbuf len =
     (if len \<noteq> GPS_PACKET_SIZE then Some (- 1, packet)
      else do {
        flag \<leftarrow> rd_le16 recvbuf 0;
        let index = GPS_PACKET_FLAG_SIZE;
        year \<leftarrow> rd_gps_item recvbuf index;
        let index = index + GPS_PACKET_ITEM_SIZE;
        month \<leftarrow> rd_gps_item recvbuf index;
        let index = index + GPS_PACKET_ITEM_SIZE;
        day \<leftarrow> rd_gps_item recvbuf index;
        let index = index + GPS_PACKET_ITEM_SIZE;
        second \<leftarrow> rd_gps_item recvbuf index;
        let index = index + GPS_PACKET_ITEM_SIZE;
        minute \<leftarrow> rd_gps_item recvbuf index;
        let index = index + GPS_PACKET_ITEM_SIZE;
        hour \<leftarrow> rd_gps_item recvbuf index;
        let index = index + GPS_PACKET_ITEM_SIZE;
        fine \<leftarrow> rd_le32 recvbuf index;
        Some (0, \<lparr>gps_flag = flag, gps_year = year, gps_month = month, gps_day = day,
                  gps_second = second, gps_minute = minute, gps_hour = hour, gps_fineTime = fine\<rparr>)
      })"

text \<open>\<^verbatim>\<open>ProcessGps\<close>: the value handed to the callback.\<close>

definition ProcessGps :: "(tm \<Rightarrow> int \<times> tm) \<Rightarrow> int \<Rightarrow> PandarGPS \<Rightarrow> fp" where
  "ProcessGps mktime tz_second gpsMsg =
     d_int (fst (mktime
       \<lparr>tm_year = uint (gps_year gpsMsg) + 100, tm_mon = uint (gps_month gpsMsg) - 1,
        tm_mday = uint (gps_day gpsMsg), tm_hour = uint (gps_hour gpsMsg),
        tm_min = uint (gps_minute gpsMsg), tm_sec = uint (gps_second gpsMsg), tm_isdst = 0\<rparr>)
       + tz_second)"

section \<open>The loops\<close>

text \<open>
  A unit reader of size \<open>sz\<close>: it succeeds on every position that leaves \<open>sz\<close> bytes.
\<close>

definition unit_reader :: "(byte list \<Rightarrow> nat \<Rightarrow> 'u option) \<Rightarrow> nat \<Rightarrow> bool" where
  "unit_reader ru sz \<longleftrightarrow> (\<forall>buf i. i + sz \<le> length buf \<longrightarrow> ru buf i \<noteq> None)"

lemma unit_readers [simp]:
  "unit_reader (parse_l64_unit cs dis) 3" "unit_reader (parse_xt_unit cs dis) 4"
  "unit_reader parse_40p_unit 3"
  by (auto simp: unit_reader_def parse_l64_unit_def parse_xt_unit_def parse_40p_unit_def Let_def)

lemma parse_units_total:
  assumes "unit_reader ru sz" and "index + n * sz \<le> length buf" and "unit + n \<le> length us"
  shows "\<exists>us'. parse_units ru sz buf n unit index us = Some (index + n * sz, us') \<and>
    length us' = length us"
  using assms(2,3)
proof (induction n arbitrary: unit index us)
  case (Suc n)
  obtain u where u: "ru buf index = Some u"
    using assms(1) Suc.prems(1) unfolding unit_reader_def by fastforce
  have "\<exists>us'. parse_units ru sz buf n (Suc unit) (index + sz) (us[unit := u]) =
      Some (index + sz + n * sz, us') \<and> length us' = length (us[unit := u])"
    using Suc.prems by (intro Suc.IH) simp_all
  with u Suc.prems show ?case by (auto simp: add.assoc)
qed simp

lemma parse_units_length:
  "parse_units ru sz buf n unit index us = Some (ix, us') \<Longrightarrow> length us' = length us"
proof (induction n arbitrary: unit index us)
  case (Suc n)
  then obtain u us1 where "wr us unit u = Some us1"
    "parse_units ru sz buf n (Suc unit) (index + sz) us1 = Some (ix, us')"
    by (auto simp: bind_eq_Some_conv)
  then show ?case using Suc.IH by (auto simp: wr_def split: if_splits)
qed simp

lemma parse_units_fault:
  "0 < n \<Longrightarrow> length us < unit + n \<Longrightarrow> parse_units ru sz buf n unit index us = None"
proof (induction n arbitrary: unit index us)
  case (Suc n)
  show ?case
  proof (cases "unit < length us")
    case True
    then have "0 < n" using Suc.prems by auto
    then have "parse_units ru sz buf n (Suc unit) (index + sz) (us[unit := u]) = None" for u
      using Suc.prems by (intro Suc.IH) simp_all
    then show ?thesis using True by (cases "ru buf index") auto
  qed (cases "ru buf index"; simp)
qed simp

definition all_units :: "nat \<Rightarrow> 'u lidar_block list \<Rightarrow> bool" where
  "all_units nu bs \<longleftrightarrow> list_all (\<lambda>b. length (units b) = nu) bs"

lemma all_units_nth: "all_units nu bs \<Longrightarrow> i < length bs \<Longrightarrow> length (units (bs ! i)) = nu"
  by (simp add: all_units_def list_all_length)

lemma all_units_update:
  "all_units nu bs \<Longrightarrow> length (units b) = nu \<Longrightarrow> all_units nu (bs[i := b])"
  by (cases "i < length bs") (auto simp: all_units_def list_all_length nth_list_update)

lemma parse_blocks_total:
  assumes "unit_reader ru sz" and "index + n * (2 + lasers * sz) \<le> length buf"
    and "block + n \<le> length bs" and "all_units nu bs" and "lasers \<le> nu"
  shows "\<exists>bs'. parse_blocks ru sz lasers buf n block index bs =
      Some (index + n * (2 + lasers * sz), bs') \<and> length bs' = length bs \<and> all_units nu bs'"
  using assms(2-4)
proof (induction n arbitrary: block index bs)
  case (Suc n)
  let ?blk = "bs ! block"
  have nu: "length (units ?blk) = nu" using Suc.prems(2,3) by (intro all_units_nth) auto
  have "\<exists>us'. parse_units ru sz buf lasers 0 (index + 2) (units ?blk) =
      Some (index + 2 + lasers * sz, us') \<and> length us' = length (units ?blk)"
    using Suc.prems(1) assms(5) nu by (intro parse_units_total [OF assms(1)]) auto
  then obtain us where us: "parse_units ru sz buf lasers 0 (index + 2) (units ?blk) =
      Some (index + 2 + lasers * sz, us)" "length us = nu"
    using nu by auto
  let ?bs = "bs[block := ?blk\<lparr>azimuth := le16 (buf ! index) (buf ! (index + 1)), units := us\<rparr>]"
  have "\<exists>bs'. parse_blocks ru sz lasers buf n (Suc block) (index + 2 + lasers * sz) ?bs =
      Some (index + 2 + lasers * sz + n * (2 + lasers * sz), bs') \<and> length bs' = length ?bs \<and>
      all_units nu bs'"
    using Suc.prems us(2) by (intro Suc.IH) (auto intro: all_units_update)
  then show ?case using Suc.prems us(1) by (auto simp: add.assoc)
qed simp

lemma parse_blocks_fault:
  assumes "all_units nu bs" and "0 < n" and "length bs < block + n \<or> nu < lasers"
  shows "parse_blocks ru sz lasers buf n block index bs = None"
  using assms
proof (induction n arbitrary: block index bs)
  case (Suc n)
  show ?case
  proof (rule ccontr)
    assume "\<not> ?thesis"
    then obtain r where "parse_blocks ru sz lasers buf (Suc n) block index bs = Some r" by auto
    then obtain az blk ix us bs' where r: "rd bs block = Some blk"
      "parse_units ru sz buf lasers 0 (index + 2) (units blk) = Some (ix, us)"
      "wr bs block (blk\<lparr>azimuth := az, units := us\<rparr>) = Some bs'"
      "parse_blocks ru sz lasers buf n (Suc block) ix bs' = Some r"
      by (auto simp: bind_eq_Some_conv)
    from r(1) have blk: "block < length bs" "blk = bs ! block" by (auto simp: rd_Some_iff)
    have nu: "length (units blk) = nu" using Suc.prems(1) blk by (simp add: all_units_nth)
    have "lasers \<le> nu"
      using r(2) parse_units_fault [of lasers "units blk" 0] nu by (cases "nu < lasers") auto
    then have len: "length bs < block + Suc n" using Suc.prems(3) by auto
    with blk(1) have "0 < n" by simp
    have bs': "bs' = bs[block := blk\<lparr>azimuth := az, units := us\<rparr>]"
      using r(3) blk(1) by simp
    have "length us = nu" using nu parse_units_length [OF r(2)] by simp
    then have "all_units nu bs'" unfolding bs' using Suc.prems(1) by (intro all_units_update) auto
    then have "parse_blocks ru sz lasers buf n (Suc block) ix bs' = None"
      using \<open>0 < n\<close> len by (intro Suc.IH) (auto simp: bs')
    with r(4) show False by simp
  qed
qed simp

section \<open>Memory safety of the parsers\<close>

lemma packet_arrays_blocks: "packet_arrays nb nu p \<Longrightarrow> length (blocks p) = nb \<and> all_units nu (blocks p)"
  by (simp add: packet_arrays_def all_units_def)

lemma char_count_small: "unat b < 128 \<Longrightarrow> char_count cs b = unat b"
  by (simp add: char_count_def char_val_small)

lemma supported_xt_sizes:
  "isSupportedXtPacketSize len \<longleftrightarrow>
     len = HS_LIDAR_XT_PACKET_SIZE \<or> len = HS_LIDAR_XT16_PACKET_SIZE \<or> len = HS_LIDAR_XTM_PACKET_SIZE"
  by (auto simp: isSupportedXtPacketSize_def kXt16PacketSize_def kXtmPacketSize_def
      kXt32PacketSize_def layout_defs)

text \<open>When an XT datagram is accepted.\<close>

definition xt_layout_ok :: "byte list \<Rightarrow> nat \<Rightarrow> bool" where
  "xt_layout_ok buf len \<longleftrightarrow>
     isSupportedXtPacketSize len \<and> be16 (buf ! 0) (buf ! 1) = 0xEEFF \<and>
     0 < unat (buf ! 7) \<and> unat (buf ! 7) \<le> 8 \<and> 0 < unat (buf ! 6) \<and> unat (buf ! 6) \<le> 32 \<and>
     12 + unat (buf ! 7) * (2 + unat (buf ! 6) * 4) + 28 = len"

lemma decode_in_range:
  "isSupportedXtPacketSize len \<Longrightarrow> len \<le> length buf \<Longrightarrow>
     \<exists>n. decodeXtUdpSequence (Some buf) len True = Some (Some n)"
  by (auto simp: decodeXtUdpSequence_def isSupportedXtPacketSize_def kXt16PacketSize_def
      kXtmPacketSize_def kXt32PacketSize_def kXtSequenceSize_def)

lemma ParseXTData_accepts:
  assumes ok: "xt_layout_ok buf len" and len: "len \<le> length buf"
    and arr: "packet_arrays 8 32 packet"
  shows "\<exists>p. ParseXTData cs mktime packet buf len = Some (0, p) \<and> packet_arrays 8 32 p"
proof -
  let ?b = "unat (buf ! 7)" and ?l = "unat (buf ! 6)"
  from ok have n: "?b \<le> 8" "?l \<le> 32" "12 + ?b * (2 + ?l * 4) + 28 = len"
    by (auto simp: xt_layout_ok_def)
  have cc: "char_count cs (buf ! 7) = ?b" "char_count cs (buf ! 6) = ?l"
    using n by (auto intro: char_count_small)
  obtain sq where sq: "decodeXtUdpSequence (Some buf) len True = Some (Some sq)"
    using decode_in_range len ok by (auto simp: xt_layout_ok_def)
  obtain bs where bs: "parse_blocks (parse_xt_unit cs (buf ! 9)) 4 ?l buf ?b 0 12 (blocks packet) =
      Some (12 + ?b * (2 + ?l * 4), bs)" "length bs = 8" "all_units 32 bs"
    using parse_blocks_total [of "parse_xt_unit cs (buf ! 9)" 4 12 ?b ?l buf 0 "blocks packet" 32]
      n len packet_arrays_blocks [OF arr] by auto
  let ?i = "12 + ?b * (2 + ?l * 4)"
  have big: "9 < length buf" using n len by auto
  have lenOK: "\<not> (len \<noteq> HS_LIDAR_XT_PACKET_SIZE \<and> len \<noteq> HS_LIDAR_XT16_PACKET_SIZE \<and>
      len \<noteq> HS_LIDAR_XTM_PACKET_SIZE)"
    using ok supported_xt_sizes by (auto simp: xt_layout_ok_def)
  show ?thesis
    using ok big lenOK n len
    by (simp add: ParseXTData_def xt_layout_ok_def xt_expected_size_def sq cc
        bs HS_LIDAR_XT_BLOCK_NUMBER_def HS_LIDAR_XT_UNIT_NUM_def HS_LIDAR_XT_HEAD_SIZE_def
        HS_LIDAR_XT_BLOCK_HEADER_AZIMUTH_def HS_LIDAR_XT_UNIT_SIZE_def
        HS_LIDAR_XT_PACKET_TAIL_SIZE_def HS_LIDAR_XT_RESERVED_SIZE_def HS_LIDAR_XT_ECHO_SIZE_def
        HS_LIDAR_XT_ENGINE_VELOCITY_def HS_LIDAR_XT_UTC_SIZE_def packet_arrays_def
        all_units_def [symmetric])
      arith
qed

lemma ParseXTData_rejects:
  assumes bad: "\<not> xt_layout_ok buf len" and len: "len \<le> length buf"
    and arr: "packet_arrays 8 32 packet"
  shows "\<exists>p. ParseXTData cs mktime packet buf len = Some (- 1, p) \<and> packet_arrays 8 32 p"
proof (cases "isSupportedXtPacketSize len")
  case False
  then show ?thesis using arr supported_xt_sizes by (auto simp: ParseXTData_def)
next
  case True
  then have big: "9 < length buf" using len by (auto simp: supported_xt_sizes layout_defs)
  have lenOK: "\<not> (len \<noteq> HS_LIDAR_XT_PACKET_SIZE \<and> len \<noteq> HS_LIDAR_XT16_PACKET_SIZE \<and>
      len \<noteq> HS_LIDAR_XTM_PACKET_SIZE)"
    using True supported_xt_sizes by blast
  show ?thesis
    using bad True big lenOK arr
    by (auto simp: ParseXTData_def xt_layout_ok_def xt_expected_size_def packet_arrays_def Let_def
        HS_LIDAR_XT_BLOCK_NUMBER_def HS_LIDAR_XT_UNIT_NUM_def HS_LIDAR_XT_HEAD_SIZE_def
        HS_LIDAR_XT_BLOCK_HEADER_AZIMUTH_def HS_LIDAR_XT_UNIT_SIZE_def
        HS_LIDAR_XT_PACKET_TAIL_SIZE_def)
qed

text \<open>
  C8. The XT parser is memory-safe on every datagram: whatever bytes arrive and whatever the
  packet object held before, \<^verbatim>\<open>ParseXTData\<close> makes no access outside the received
  bytes or the packet's arrays, and it returns 0 exactly when the size is a supported one, the
  start-of-packet marker is right and the header's block and laser counts are in range and
  account for every byte; otherwise it returns -1.
\<close>

theorem ParseXTData_safe:
  assumes "len \<le> length recvbuf" and "packet_arrays 8 32 packet"
  shows "\<exists>st p. ParseXTData cs mktime packet recvbuf len = Some (st, p) \<and>
    packet_arrays 8 32 p \<and> st = (if xt_layout_ok recvbuf len then 0 else - 1)"
  using ParseXTData_accepts [OF _ assms, of cs mktime] ParseXTData_rejects [OF _ assms, of cs mktime]
  by auto

text \<open>A packet object as the driver's stack leaves it: arrays of the declared sizes.\<close>

definition blank_block :: "'u \<Rightarrow> nat \<Rightarrow> 'u lidar_block" where
  "blank_block u n = \<lparr>azimuth = 0, units = replicate n u\<rparr>"

definition blank_xt_unit :: HS_LIDAR_XT_Unit where
  "blank_xt_unit = \<lparr>distance = d_int 0, intensity = 0, confidence = 0\<rparr>"

definition blank_l64_unit :: HS_LIDAR_L64_Unit where
  "blank_l64_unit = \<lparr>distance = d_int 0, intensity = 0\<rparr>"

definition blank_xt_header :: HS_LIDAR_XT_Header where
  "blank_xt_header = \<lparr>sob = 0, chLaserNumber = 0, chBlockNumber = 0, chReturnType = 0,
     chDisUnit = 0, chProtocolMajor = 0, chProtocolMinor = 0\<rparr>"

definition blank_l64_header :: HS_LIDAR_L64_Header where
  "blank_l64_header = \<lparr>sob = 0, chLaserNumber = 0, chBlockNumber = 0, chReturnType = 0,
     chDisUnit = 0\<rparr>"

definition blank_packet :: "'h \<Rightarrow> 'u \<Rightarrow> nat \<Rightarrow> nat \<Rightarrow> ('h, 'u) lidar_packet" where
  "blank_packet h u nb nu = \<lparr>header = h, blocks = replicate nb (blank_block u nu), timestamp = 0,
     echo = 0, addtime = replicate 6 0, timestamp_point = d_int 0, spin_speed = f_int 0\<rparr>"

definition blank_xt_packet :: HS_LIDAR_XT_Packet where
  "blank_xt_packet = \<lparr>header = blank_xt_header, blocks = replicate 8 (blank_block blank_xt_unit 32),
     timestamp = 0, echo = 0, addtime = replicate 6 0, timestamp_point = d_int 0,
     spin_speed = f_int 0, udp_sequence = 0\<rparr>"

lemma blank_arrays [simp]:
  "packet_arrays nb nu (blank_packet h u nb nu)" "packet_arrays 8 32 blank_xt_packet"
  by (simp_all add: packet_arrays_def blank_packet_def blank_xt_packet_def blank_block_def list_all_length)

theorem ParseXTData_safe_witness:
  "\<exists>p. ParseXTData False (\<lambda>t. (0, t)) blank_xt_packet (replicate 568 0) 568 = Some (- 1, p)"
proof -
  have "\<not> xt_layout_ok (replicate 568 0) 568" by (simp add: xt_layout_ok_def)
  then show ?thesis
    using ParseXTData_safe [of 568 "replicate 568 0" blank_xt_packet False "\<lambda>t. (0, t)"] by auto
qed

section \<open>The parsers without a layout check\<close>

lemma parse_blocks_decided:
  assumes rdr: "unit_reader ru sz" and arr: "length bs = nb" "all_units nu bs"
    and room: "head + nb * (2 + nu * sz) + tail \<le> length buf"
  shows "parse_blocks ru sz lasers buf n 0 head bs = None \<longleftrightarrow> 0 < n \<and> (nb < n \<or> nu < lasers)"
    and "parse_blocks ru sz lasers buf n 0 head bs = Some (ix, bs') \<Longrightarrow> ix + tail \<le> length buf"
proof -
  have fit: "\<exists>bs'. parse_blocks ru sz lasers buf n 0 head bs =
      Some (head + n * (2 + lasers * sz), bs')" "head + n * (2 + lasers * sz) + tail \<le> length buf"
    if "n = 0 \<or> n \<le> nb \<and> lasers \<le> nu"
  proof -
    have "n * (2 + lasers * sz) \<le> nb * (2 + nu * sz)"
      using that by (cases "n = 0") (auto intro!: mult_le_mono add_mono)
    then show le: "head + n * (2 + lasers * sz) + tail \<le> length buf" using room by linarith
    show "\<exists>bs'. parse_blocks ru sz lasers buf n 0 head bs =
        Some (head + n * (2 + lasers * sz), bs')"
      using that parse_blocks_total [OF rdr, of head n lasers buf 0 bs nu] arr le by (cases "n = 0") auto
  qed
  have bad: "parse_blocks ru sz lasers buf n 0 head bs = None" if "0 < n" "nb < n \<or> nu < lasers"
    using parse_blocks_fault [OF arr(2) that(1), of 0 lasers] that arr(1) by auto
  show "parse_blocks ru sz lasers buf n 0 head bs = None \<longleftrightarrow> 0 < n \<and> (nb < n \<or> nu < lasers)"
    using fit(1) bad by (metis not_less not_less_zero option.distinct(1) not_gr_zero)
  show "ix + tail \<le> length buf" if "parse_blocks ru sz lasers buf n 0 head bs = Some (ix, bs')"
    using that fit bad by (metis not_less option.distinct(1) option.inject prod.inject not_gr_zero)
qed

lemma ParseL64Data_fault:
  assumes buf: "length recvbuf = ETHERNET_MTU" and arr: "packet_arrays 7 64 packet"
  shows "ParseL64Data cs mktime packet recvbuf len = None \<longleftrightarrow>
      len \<in> {1198, 1392, 1194, 1388, 1270} \<and> be16 (recvbuf ! 0) (recvbuf ! 1) = 0xEEFF \<and>
      0 < char_count cs (recvbuf ! 3) \<and>
      (7 < char_count cs (recvbuf ! 3) \<or> 64 < char_count cs (recvbuf ! 2))"
proof -
  let ?pb = "parse_blocks (parse_l64_unit cs (recvbuf ! 5)) 3 (char_count cs (recvbuf ! 2)) recvbuf
      (char_count cs (recvbuf ! 3)) 0 8 (blocks packet)"
  note arr' = packet_arrays_blocks [OF arr, THEN conjunct1] packet_arrays_blocks [OF arr, THEN conjunct2]
  have room: "8 + 7 * (2 + 64 * 3) + 22 \<le> length recvbuf" by (simp add: buf layout_defs)
  note d = parse_blocks_decided [OF unit_readers(1) arr' room]
  show ?thesis
  proof (cases ?pb)
    case None
    then show ?thesis using d(1) [of cs "recvbuf ! 5" "char_count cs (recvbuf ! 2)" "char_count cs (recvbuf ! 3)"] buf
      by (auto simp: ParseL64Data_def layout_defs Let_def)
  next
    case (Some r)
    then obtain ix bs where r: "?pb = Some (ix, bs)" by (cases r) auto
    have ix: "ix + 22 \<le> length recvbuf" using d(2) [OF r] .
    show ?thesis using d(1) [of cs "recvbuf ! 5" "char_count cs (recvbuf ! 2)" "char_count cs (recvbuf ! 3)"] r ix buf
      by (auto simp: ParseL64Data_def layout_defs Let_def)
  qed
qed

lemma ParseL20Data_fault:
  assumes buf: "length recvbuf = ETHERNET_MTU" and arr: "packet_arrays 20 20 packet"
  shows "ParseL20Data cs mktime packet recvbuf len = None \<longleftrightarrow>
      len = 1270 \<and> be16 (recvbuf ! 0) (recvbuf ! 1) = 0xEEFF \<and>
      0 < char_count cs (recvbuf ! 3) \<and>
      (20 < char_count cs (recvbuf ! 3) \<or> 20 < char_count cs (recvbuf ! 2))"
proof -
  let ?pb = "parse_blocks (parse_l64_unit cs (recvbuf ! 5)) 3 (char_count cs (recvbuf ! 2)) recvbuf
      (char_count cs (recvbuf ! 3)) 0 8 (blocks packet)"
  note arr' = packet_arrays_blocks [OF arr, THEN conjunct1] packet_arrays_blocks [OF arr, THEN conjunct2]
  have room: "8 + 20 * (2 + 20 * 3) + 22 \<le> length recvbuf" by (simp add: buf layout_defs)
  note d = parse_blocks_decided [OF unit_readers(1) arr' room]
  show ?thesis
  proof (cases ?pb)
    case None
    then show ?thesis using d(1) [of cs "recvbuf ! 5" "char_count cs (recvbuf ! 2)" "char_count cs (recvbuf ! 3)"] buf
      by (auto simp: ParseL20Data_def layout_defs Let_def)
  next
    case (Some r)
    then obtain ix bs where r: "?pb = Some (ix, bs)" by (cases r) auto
    have ix: "ix + 22 \<le> length recvbuf" using d(2) [OF r] .
    show ?thesis using d(1) [of cs "recvbuf ! 5" "char_count cs (recvbuf ! 2)" "char_count cs (recvbuf ! 3)"] r ix buf
      by (auto simp: ParseL20Data_def layout_defs Let_def)
  qed
qed

lemma ParseQTData_fault:
  assumes buf: "length recvbuf = ETHERNET_MTU" and arr: "packet_arrays 4 64 packet"
  shows "ParseQTData cs mktime packet recvbuf len = None \<longleftrightarrow>
      len \<in> {1072, 1068} \<and> be16 (recvbuf ! 0) (recvbuf ! 1) = 0xEEFF \<and>
      0 < char_count cs (recvbuf ! 7) \<and>
      (4 < char_count cs (recvbuf ! 7) \<or> 64 < char_count cs (recvbuf ! 6))"
proof -
  let ?pb = "parse_blocks (parse_xt_unit cs (recvbuf ! 9)) 4 (char_count cs (recvbuf ! 6)) recvbuf
      (char_count cs (recvbuf ! 7)) 0 12 (blocks packet)"
  note arr' = packet_arrays_blocks [OF arr, THEN conjunct1] packet_arrays_blocks [OF arr, THEN conjunct2]
  have room: "12 + 4 * (2 + 64 * 4) + 24 \<le> length recvbuf" by (simp add: buf layout_defs)
  note d = parse_blocks_decided [OF unit_readers(2) arr' room]
  show ?thesis
  proof (cases ?pb)
    case None
    then show ?thesis using d(1) [of cs "recvbuf ! 9" "char_count cs (recvbuf ! 6)" "char_count cs (recvbuf ! 7)"] buf
      by (auto simp: ParseQTData_def layout_defs Let_def)
  next
    case (Some r)
    then obtain ix bs where r: "?pb = Some (ix, bs)" by (cases r) auto
    have ix: "ix + 24 \<le> length recvbuf" using d(2) [OF r] .
    show ?thesis using d(1) [of cs "recvbuf ! 9" "char_count cs (recvbuf ! 6)" "char_count cs (recvbuf ! 7)"] r ix buf
      by (auto simp: ParseQTData_def layout_defs Let_def)
  qed
qed

text \<open>
  C35. The Pandar64, Pandar20 and QT parsers trust the header: on the driver's 1500-byte
  buffer they access memory outside the packet object for exactly those datagrams of an
  accepted size and with the right marker whose header claims more blocks or more lasers
  than the object has room for (a signed \<^verbatim>\<open>char\<close> count above 127 is negative and
  harmless). All other datagrams are parsed without a bad access.
\<close>

theorem unchecked_parsers_fault:
  assumes buf: "length recvbuf = ETHERNET_MTU"
    and p7: "packet_arrays 7 64 p64" and p20: "packet_arrays 20 20 p20" and pq: "packet_arrays 4 64 pqt"
  shows "(ParseL64Data cs mktime p64 recvbuf len = None \<longleftrightarrow>
      len \<in> {1198, 1392, 1194, 1388, 1270} \<and> be16 (recvbuf ! 0) (recvbuf ! 1) = 0xEEFF \<and>
      0 < char_count cs (recvbuf ! 3) \<and>
      (7 < char_count cs (recvbuf ! 3) \<or> 64 < char_count cs (recvbuf ! 2))) \<and>
    (ParseL20Data cs mktime p20 recvbuf len = None \<longleftrightarrow>
      len = 1270 \<and> be16 (recvbuf ! 0) (recvbuf ! 1) = 0xEEFF \<and>
      0 < char_count cs (recvbuf ! 3) \<and>
      (20 < char_count cs (recvbuf ! 3) \<or> 20 < char_count cs (recvbuf ! 2))) \<and>
    (ParseQTData cs mktime pqt recvbuf len = None \<longleftrightarrow>
      len \<in> {1072, 1068} \<and> be16 (recvbuf ! 0) (recvbuf ! 1) = 0xEEFF \<and>
      0 < char_count cs (recvbuf ! 7) \<and>
      (4 < char_count cs (recvbuf ! 7) \<or> 64 < char_count cs (recvbuf ! 6)))"
  by (intro conjI ParseL64Data_fault [OF buf p7] ParseL20Data_fault [OF buf p20]
      ParseQTData_fault [OF buf pq])

text \<open>A Pandar64 datagram of the right size whose header claims eight blocks.\<close>

definition evil_l64 :: "byte list" where
  "evil_l64 = [0xEE, 0xFF, 64, 8, 0, 4, 0, 0] @ replicate 1492 0"

theorem unchecked_parsers_fault_witness:
  "ParseL64Data True (\<lambda>t. (0, t)) (blank_packet blank_l64_header blank_l64_unit 7 64) evil_l64 1198 = None"
proof -
  have b: "length evil_l64 = ETHERNET_MTU" "be16 (evil_l64 ! 0) (evil_l64 ! 1) = 0xEEFF"
    "evil_l64 ! 3 = 8"
    by (simp_all add: evil_l64_def ETHERNET_MTU_def be16_def)
  have "char_count True (evil_l64 ! 3) = 8" unfolding b(3) by (subst char_count_small) simp_all
  then show ?thesis
    using unchecked_parsers_fault [OF b(1) blank_arrays(1) blank_arrays(1) blank_arrays(1),
        of True "\<lambda>t. (0, t)" blank_l64_header blank_l64_unit 1198] b(2)
    by simp
qed

end
