(* ===== verification/Lidar_Tables.thy ===== *)
theory Lidar_Tables
  imports Packet_Parsers
begin

text \<open>
  The calibration tables of the sensors and \<^verbatim>\<open>PandarGeneral_Internal::Init\<close>: elevation and
  azimuth-offset angles, trigonometric maps, firing-time offsets of blocks and lasers.

  The members that \<^verbatim>\<open>Init\<close> fills are arrays of the class without initialisers, so an
  element that is not assigned is indeterminate: arrays are lists of options and \<^term>\<open>None\<close>
  is an indeterminate element. The \<^verbatim>\<open>std::vector\<close> members are plain lists. Float
  constants are rounded from their decimal literals and combined with \<^verbatim>\<open>float\<close> operations,
  as the compiler does. \<^verbatim>\<open>sinf\<close> and \<^verbatim>\<open>cosf\<close> are arguments: their last bit is not
  specified.
\<close>

section \<open>Angles\<close>

definition pandar40p_elev_angle_map :: "fp list" where
  "pandar40p_elev_angle_map = map f_lit [
      15, 11, 8, 5, 3, 2, 167 / 100, 133 / 100, 1, 67 / 100, 33 / 100, 0, - (33 / 100),
      - (67 / 100), - 1, - (133 / 100), - (166 / 100), - 2, - (233 / 100), - (267 / 100), - 3,
      - (333 / 100), - (367 / 100), - 4, - (433 / 100), - (467 / 100), - 5, - (533 / 100),
      - (567 / 100), - 6, - 7, - 8, - 9, - 10, - 11, - 12, - 13, - 14, - 19, - 25]"

definition pandarGeneral_elev_angle_map :: "fp list" where
  "pandarGeneral_elev_angle_map = map f_lit [
      14882 / 1000, 11032 / 1000, 8059 / 1000, 5057 / 1000, 304 / 100, 2028 / 1000, 186 / 100,
      1688 / 1000, 1522 / 1000, 1351 / 1000, 1184 / 1000, 1013 / 1000, 846 / 1000, 675 / 1000,
      508 / 1000, 337 / 1000, 169 / 1000, 0, - (169 / 1000), - (337 / 1000), - (508 / 1000),
      - (675 / 1000), - (845 / 1000), - (1013 / 1000), - (1184 / 1000), - (1351 / 1000),
      - (1522 / 1000), - (1688 / 1000), - (186 / 100), - (2028 / 1000), - (2198 / 1000),
      - (2365 / 1000), - (2536 / 1000), - (27 / 10), - (2873 / 1000), - (304 / 100),
      - (321 / 100), - (3375 / 1000), - (3548 / 1000), - (3712 / 1000), - (3884 / 1000),
      - (405 / 100), - (4221 / 1000), - (4385 / 1000), - (4558 / 1000), - (472 / 100),
      - (4892 / 1000), - (5057 / 1000), - (5229 / 1000), - (5391 / 1000), - (5565 / 1000),
      - (5726 / 1000), - (5898 / 1000), - (6061 / 1000), - (7063 / 1000), - (8059 / 1000),
      - (906 / 100), - (9885 / 1000), - (11032 / 1000), - (12006 / 1000), - (12974 / 1000),
      - (1393 / 100), - (18889 / 1000), - (24897 / 1000)]"

definition pandar40p_horizatal_azimuth_offset_map :: "fp list" where
  "pandar40p_horizatal_azimuth_offset_map = map f_lit [
      - (1042 / 1000), - (1042 / 1000), - (1042 / 1000), - (1042 / 1000), - (1042 / 1000),
      - (1042 / 1000), 3125 / 1000, - (5208 / 1000), - (1042 / 1000), 3125 / 1000,
      - (5208 / 1000), - (1042 / 1000), 3125 / 1000, - (5208 / 1000), - (1042 / 1000),
      3125 / 1000, - (5208 / 1000), - (1042 / 1000), 3125 / 1000, - (5208 / 1000),
      - (1042 / 1000), 3125 / 1000, - (5208 / 1000), - (1042 / 1000), 3125 / 1000,
      - (5208 / 1000), - (1042 / 1000), 3125 / 1000, - (5208 / 1000), - (1042 / 1000),
      - (1042 / 1000), - (1042 / 1000), - (1042 / 1000), - (1042 / 1000), - (1042 / 1000),
      - (1042 / 1000), - (1042 / 1000), - (1042 / 1000), - (1042 / 1000), - (1042 / 1000)]"

definition pandarGeneral_horizatal_azimuth_offset_map :: "fp list" where
  "pandarGeneral_horizatal_azimuth_offset_map = map f_lit [
      - (1042 / 1000), - (1042 / 1000), - (1042 / 1000), - (1042 / 1000), - (1042 / 1000),
      - (1042 / 1000), 1042 / 1000, 3125 / 1000, 5208 / 1000, - (5208 / 1000), - (3125 / 1000),
      - (1042 / 1000), 1042 / 1000, 3125 / 1000, 5208 / 1000, - (5208 / 1000), - (3125 / 1000),
      - (1042 / 1000), 1042 / 1000, 3125 / 1000, 5208 / 1000, - (5208 / 1000), - (3125 / 1000),
      - (1042 / 1000), 1042 / 1000, 3125 / 1000, 5208 / 1000, - (5208 / 1000), - (3125 / 1000),
      - (1042 / 1000), 1042 / 1000, 3125 / 1000, 5208 / 1000, - (5208 / 1000), - (3125 / 1000),
      - (1042 / 1000), 1042 / 1000, 3125 / 1000, 5208 / 1000, - (5208 / 1000), - (3125 / 1000),
      - (1042 / 1000), 1042 / 1000, 3125 / 1000, 5208 / 1000, - (5208 / 1000), - (3125 / 1000),
      - (1042 / 1000), 1042 / 1000, 3125 / 1000, 5208 / 1000, - (5208 / 1000), - (3125 / 1000),
      - (1042 / 1000), - (1042 / 1000), - (1042 / 1000), - (1042 / 1000), - (1042 / 1000),
      - (1042 / 1000), - (1042 / 1000), - (1042 / 1000), - (1042 / 1000), - (1042 / 1000),
      - (1042 / 1000)]"

definition pandar20_elev_angle_map :: "fp list" where
  "pandar20_elev_angle_map = map f_lit [
      8, 5, 3, 2, 167 / 100, 1, 33 / 100, - (33 / 100), - 1, - 2, - 3, - 4, - 5, - 6, - 8,
      - 10, - 12, - 14, - 19, - 25]"

definition pandar20_horizatal_azimuth_offset_map :: "fp list" where
  "pandar20_horizatal_azimuth_offset_map = map f_lit [
      - (1042 / 1000), - (1042 / 1000), - (1042 / 1000), - (1042 / 1000), 3125 / 1000,
      - (1042 / 1000), - (5208 / 1000), 3125 / 1000, - (1042 / 1000), - (1042 / 1000),
      - (1042 / 1000), - (1042 / 1000), - (1042 / 1000), - (1042 / 1000), - (1042 / 1000),
      - (1042 / 1000), - (1042 / 1000), - (1042 / 1000), - (1042 / 1000), - (1042 / 1000)]"

definition pandarQT_elev_angle_map :: "fp list" where
  "pandarQT_elev_angle_map = map f_lit [
      - (52121 / 1000), - (49785 / 1000), - (47577 / 1000), - (45477 / 1000), - (43465 / 1000),
      - (41528 / 1000), - (39653 / 1000), - (37831 / 1000), - (36055 / 1000), - (3432 / 100),
      - (32619 / 1000), - (3095 / 100), - (29308 / 1000), - (2769 / 100), - (26094 / 1000),
      - (24517 / 1000), - (22964 / 1000), - (2142 / 100), - (19889 / 1000), - (18372 / 1000),
      - (16865 / 1000), - (15368 / 1000), - (1388 / 100), - (12399 / 1000), - (10925 / 1000),
      - (9457 / 1000), - (7994 / 1000), - (6535 / 1000), - (5079 / 1000), - (3626 / 1000),
      - (2175 / 1000), - (725 / 1000), 725 / 1000, 2175 / 1000, 3626 / 1000, 5079 / 1000,
      6534 / 1000, 7993 / 1000, 9456 / 1000, 10923 / 1000, 12397 / 1000, 13877 / 1000,
      15365 / 1000, 16861 / 1000, 18368 / 1000, 19885 / 1000, 21415 / 1000, 22959 / 1000,
      24524 / 1000, 26101 / 1000, 27697 / 1000, 29315 / 1000, 30957 / 1000, 32627 / 1000,
      34328 / 1000, 36064 / 1000, 3784 / 100, 39662 / 1000, 41537 / 1000, 43475 / 1000,
      45487 / 1000, 47587 / 1000, 49795 / 1000, 52133 / 1000]"

definition pandarQT_horizatal_azimuth_offset_map :: "fp list" where
  "pandarQT_horizatal_azimuth_offset_map = map f_lit [
      8736 / 1000, 8314 / 1000, 7964 / 1000, 7669 / 1000, 7417 / 1000, 7198 / 1000,
      7007 / 1000, 6838 / 1000, 6688 / 1000, 6554 / 1000, 6434 / 1000, 6326 / 1000,
      6228 / 1000, 614 / 100, 6059 / 1000, 5987 / 1000, - (527 / 100), - (5216 / 1000),
      - (5167 / 1000), - (5123 / 1000), - (5083 / 1000), - (5047 / 1000), - (5016 / 1000),
      - (4988 / 1000), - (4963 / 1000), - (4942 / 1000), - (4924 / 1000), - (491 / 100),
      - (4898 / 1000), - (4889 / 1000), - (4884 / 1000), - (4881 / 1000), 5493 / 1000,
      5496 / 1000, 5502 / 1000, 5512 / 1000, 5525 / 1000, 5541 / 1000, 5561 / 1000,
      5584 / 1000, 5611 / 1000, 5642 / 1000, 5676 / 1000, 5716 / 1000, 5759 / 1000,
      5808 / 1000, 5862 / 1000, 5921 / 1000, - (533 / 100), - (5396 / 1000), - (5469 / 1000),
      - (555 / 100), - (564 / 100), - (574 / 100), - (585 / 100), - (5974 / 1000),
      - (6113 / 1000), - (6269 / 1000), - (6447 / 1000), - (6651 / 1000), - (6887 / 1000),
      - (7163 / 1000), - (7493 / 1000), - (7892 / 1000)]"

definition pandarXT_elev_angle_map :: "fp list" where
  "pandarXT_elev_angle_map = map f_lit [
      15, 14, 13, 12, 11, 10, 9, 8, 7, 6, 5, 4, 3, 2, 1, 0, - 1, - 2, - 3, - 4, - 5, - 6, - 7,
      - 8, - 9, - 10, - 11, - 12, - 13, - 14, - 15, - 16]"

definition pandarXT_horizatal_azimuth_offset_map :: "fp list" where
  "pandarXT_horizatal_azimuth_offset_map = map f_lit [
      0, 0, 0, 0, 0, 0, 0, 0, 0, 0, 0, 0, 0, 0, 0, 0, 0, 0, 0, 0, 0, 0, 0, 0, 0, 0, 0, 0, 0, 0,
      0, 0]"

definition pandarXTM_elev_angle_map :: "fp list" where
  "pandarXTM_elev_angle_map = map f_lit [
      195 / 10, 182 / 10, 169 / 10, 156 / 10, 143 / 10, 13, 117 / 10, 104 / 10, 91 / 10,
      78 / 10, 65 / 10, 52 / 10, 39 / 10, 26 / 10, 13 / 10, 0, - (13 / 10), - (26 / 10),
      - (39 / 10), - (52 / 10), - (65 / 10), - (78 / 10), - (91 / 10), - (104 / 10),
      - (117 / 10), - 13, - (143 / 10), - (156 / 10), - (169 / 10), - (182 / 10), - (195 / 10),
      - (208 / 10)]"

definition pandarXTM_horizatal_azimuth_offset_map :: "fp list" where
  "pandarXTM_horizatal_azimuth_offset_map = map f_lit [
      0, 0, 0, 0, 0, 0, 0, 0, 0, 0, 0, 0, 0, 0, 0, 0, 0, 0, 0, 0, 0, 0, 0, 0, 0, 0, 0, 0, 0, 0,
      0, 0]"

section \<open>Firing times, in microseconds\<close>

text \<open>Assignments to the elements of an array of \<open>n\<close> indeterminate elements, in order.\<close>

definition assigns :: "nat \<Rightarrow> (nat \<times> fp) list \<Rightarrow> fp option list" where
  "assigns n ps = foldl (\<lambda>xs (i, v). xs[i := Some v]) (replicate n None) ps"

definition block40_us :: "rat \<Rightarrow> fp" where
  "block40_us k = f_add (f_mul (f_lit (5556 / 100)) (f_lit k)) (f_lit (2858 / 100))"

definition block64_us :: "rat \<Rightarrow> fp" where
  "block64_us k = f_add (f_mul (f_lit (5556 / 100)) (f_lit k)) (f_lit (4258 / 100))"

definition laser_us :: "rat \<Rightarrow> rat \<Rightarrow> fp" where
  "laser_us a b =
     f_add (f_add (f_mul (f_lit (1304 / 1000)) (f_lit a)) (f_mul (f_lit (1968 / 1000)) (f_lit b)))
       (f_lit (362 / 100))"

definition qt_us :: "rat \<Rightarrow> fp" where
  "qt_us k = f_add (f_lit 10) (f_lit k)"

definition block_xt_us :: "rat \<Rightarrow> fp" where
  "block_xt_us k = f_sub (f_lit (5632 / 1000)) (f_mul (f_lit 50) (f_lit k))"

definition laser_xt_us :: "rat \<Rightarrow> fp" where
  "laser_xt_us k = f_add (f_mul (f_lit (1512 / 1000)) (f_lit k)) (f_lit (368 / 1000))"

definition laser_xtm_us :: "rat \<Rightarrow> fp" where
  "laser_xtm_us k = f_add (f_mul (f_lit (2856 / 1000)) (f_lit k)) (f_lit (368 / 1000))"

definition block40OffsetSingle :: "fp option list" where
  "block40OffsetSingle = assigns BLOCKS_PER_PACKET [
      (9, block40_us 0), (8, block40_us 1), (7, block40_us 2), (6, block40_us 3),
      (5, block40_us 4), (4, block40_us 5), (3, block40_us 6), (2, block40_us 7),
      (1, block40_us 8), (0, block40_us 9)]"

definition block40OffsetDual :: "fp option list" where
  "block40OffsetDual = assigns BLOCKS_PER_PACKET [
      (9, block40_us 0), (8, block40_us 0), (7, block40_us 1), (6, block40_us 1),
      (5, block40_us 2), (4, block40_us 2), (3, block40_us 3), (2, block40_us 3),
      (1, block40_us 4), (0, block40_us 4)]"

definition laser40Offset :: "fp option list" where
  "laser40Offset = assigns LASER_COUNT [
      (3, f_lit (362 / 100)), (39, f_lit (362 / 100)), (35, f_lit (492 / 100)),
      (27, f_lit (623 / 100)), (11, f_lit (819 / 100)), (15, f_lit (819 / 100)),
      (31, f_lit (95 / 10)), (23, f_lit (1147 / 100)), (28, f_lit (1277 / 100)),
      (16, f_lit (1474 / 100)), (2, f_lit (1604 / 100)), (38, f_lit (1604 / 100)),
      (34, f_lit (1735 / 100)), (24, f_lit (1865 / 100)), (8, f_lit (2062 / 100)),
      (12, f_lit (2062 / 100)), (30, f_lit (2192 / 100)), (20, f_lit (2389 / 100)),
      (25, f_lit (2519 / 100)), (13, f_lit (2716 / 100)), (1, f_lit (2847 / 100)),
      (37, f_lit (2847 / 100)), (33, f_lit (2977 / 100)), (5, f_lit (3174 / 100)),
      (21, f_lit (317447 / 10000)), (9, f_lit (3371 / 100)), (29, f_lit (3501 / 100)),
      (17, f_lit (3698 / 100)), (22, f_lit (3895 / 100)), (10, f_lit (4091 / 100)),
      (0, f_lit (4222 / 100)), (36, f_lit (4222 / 100)), (32, f_lit (4352 / 100)),
      (4, f_lit (4549 / 100)), (18, f_lit (4549 / 100)), (6, f_lit (4746 / 100)),
      (26, f_lit (4876 / 100)), (14, f_lit (5073 / 100)), (19, f_lit (527 / 10)),
      (9, f_lit (5467 / 100))]"

definition block64OffsetSingle :: "fp option list" where
  "block64OffsetSingle = assigns HS_LIDAR_L64_BLOCK_NUMBER_6 [
      (5, block64_us 0), (4, block64_us 1), (3, block64_us 2), (2, block64_us 3),
      (1, block64_us 4), (0, block64_us 5)]"

definition block64OffsetDual :: "fp option list" where
  "block64OffsetDual = assigns HS_LIDAR_L64_BLOCK_NUMBER_6 [
      (5, block64_us 0), (4, block64_us 0), (3, block64_us 1), (2, block64_us 1),
      (1, block64_us 2), (0, block64_us 2)]"

definition laser64Offset :: "fp option list" where
  "laser64Offset = assigns HS_LIDAR_L64_UNIT_NUM [
      (50, laser_us 0 0), (60, laser_us 0 0), (44, laser_us 1 0), (59, laser_us 1 0),
      (38, laser_us 2 0), (56, laser_us 2 0), (8, laser_us 3 0), (54, laser_us 3 0),
      (48, laser_us 4 0), (62, laser_us 4 0), (42, laser_us 5 0), (58, laser_us 5 0),
      (6, laser_us 6 0), (55, laser_us 6 0), (52, laser_us 7 0), (63, laser_us 7 0),
      (46, laser_us 8 0), (61, laser_us 8 0), (40, laser_us 9 0), (57, laser_us 9 0),
      (5, laser_us 10 0), (53, laser_us 10 0), (4, laser_us 11 0), (47, laser_us 11 0),
      (3, laser_us 12 0), (49, laser_us 12 0), (2, laser_us 13 0), (51, laser_us 13 0),
      (1, laser_us 14 0), (45, laser_us 14 0), (0, laser_us 15 0), (43, laser_us 15 0),
      (23, laser_us 15 1), (32, laser_us 15 1), (26, laser_us 15 2), (41, laser_us 15 2),
      (20, laser_us 15 3), (35, laser_us 15 3), (14, laser_us 15 4), (29, laser_us 15 4),
      (21, laser_us 15 5), (36, laser_us 15 5), (15, laser_us 15 6), (30, laser_us 15 6),
      (9, laser_us 15 7), (24, laser_us 15 7), (18, laser_us 15 8), (33, laser_us 15 8),
      (12, laser_us 15 9), (27, laser_us 15 9), (19, laser_us 15 10), (34, laser_us 15 10),
      (13, laser_us 15 11), (28, laser_us 15 11), (7, laser_us 15 12), (22, laser_us 15 12),
      (16, laser_us 15 13), (31, laser_us 15 13), (10, laser_us 15 14), (25, laser_us 15 14),
      (17, laser_us 15 15), (37, laser_us 15 15), (11, laser_us 15 16), (39, laser_us 15 16)]"

definition laser20AOffset :: "fp option list" where
  "laser20AOffset = assigns HS_LIDAR_L20_UNIT_NUM [
      (1, laser_us 0 0), (19, laser_us 0 0), (16, laser_us 1 0), (14, laser_us 3 1),
      (11, laser_us 3 2), (0, laser_us 5 3), (18, laser_us 5 3), (5, laser_us 7 4),
      (7, laser_us 7 4), (10, laser_us 8 5), (17, laser_us 10 6), (15, laser_us 11 6),
      (3, laser_us 11 7), (13, laser_us 12 8), (9, laser_us 12 9), (6, laser_us 12 11),
      (2, laser_us 14 12), (4, laser_us 14 13), (12, laser_us 15 13), (8, laser_us 15 14)]"

definition laser20BOffset :: "fp option list" where
  "laser20BOffset = assigns HS_LIDAR_L20_UNIT_NUM [
      (17, laser_us 1 0), (5, laser_us 2 1), (15, laser_us 3 1), (11, laser_us 3 2),
      (8, laser_us 4 3), (19, laser_us 5 3), (3, laser_us 7 4), (6, laser_us 7 4),
      (14, laser_us 8 4), (10, laser_us 8 5), (18, laser_us 10 6), (16, laser_us 11 6),
      (1, laser_us 11 7), (13, laser_us 12 8), (4, laser_us 12 11), (0, laser_us 14 12),
      (9, laser_us 14 12), (2, laser_us 14 13), (12, laser_us 15 13), (7, laser_us 15 14)]"

definition blockQTOffsetSingle :: "fp option list" where
  "blockQTOffsetSingle = assigns HS_LIDAR_QT_BLOCK_NUMBER [
      (0, f_lit (2571 / 100)), (1, f_add (f_lit (2571 / 100)) (f_lit (16667 / 100))),
      (2, f_add (f_lit (2571 / 100)) (f_lit (33333 / 100))),
      (3, f_add (f_lit (2571 / 100)) (f_lit 500))]"

definition blockQTOffsetDual :: "fp option list" where
  "blockQTOffsetDual = assigns HS_LIDAR_QT_BLOCK_NUMBER [
      (0, f_lit (2571 / 100)), (1, f_lit (2571 / 100)),
      (2, f_add (f_lit (2571 / 100)) (f_lit (16667 / 100))),
      (3, f_add (f_lit (2571 / 100)) (f_lit (16667 / 100)))]"

definition laserQTOffset :: "fp option list" where
  "laserQTOffset = assigns HS_LIDAR_QT_UNIT_NUM [
      (0, qt_us (231 / 100)), (1, qt_us (437 / 100)), (2, qt_us (643 / 100)),
      (3, qt_us (849 / 100)), (4, qt_us (1054 / 100)), (5, qt_us (126 / 10)),
      (6, qt_us (1466 / 100)), (7, qt_us (1671 / 100)), (8, qt_us (1916 / 100)),
      (9, qt_us (2122 / 100)), (10, qt_us (2328 / 100)), (11, qt_us (2534 / 100)),
      (12, qt_us (2739 / 100)), (13, qt_us (2945 / 100)), (14, qt_us (315 / 10)),
      (15, qt_us (3356 / 100)), (16, qt_us (3661 / 100)), (17, qt_us (3867 / 100)),
      (18, qt_us (4073 / 100)), (19, qt_us (4278 / 100)), (20, qt_us (4484 / 100)),
      (21, qt_us (469 / 10)), (22, qt_us (4895 / 100)), (23, qt_us (5101 / 100)),
      (24, qt_us (5345 / 100)), (25, qt_us (5552 / 100)), (26, qt_us (5758 / 100)),
      (27, qt_us (5963 / 100)), (28, qt_us (6169 / 100)), (29, qt_us (6374 / 100)),
      (30, qt_us (658 / 10)), (31, qt_us (6786 / 100)), (32, qt_us (709 / 10)),
      (33, qt_us (7297 / 100)), (34, qt_us (7502 / 100)), (35, qt_us (7708 / 100)),
      (36, qt_us (7914 / 100)), (37, qt_us (8119 / 100)), (38, qt_us (8325 / 100)),
      (39, qt_us (853 / 10)), (40, qt_us (8775 / 100)), (41, qt_us (8982 / 100)),
      (42, qt_us (9187 / 100)), (43, qt_us (9393 / 100)), (44, qt_us (9598 / 100)),
      (45, qt_us (9804 / 100)), (46, qt_us (1001 / 10)), (47, qt_us (10215 / 100)),
      (48, qt_us (1052 / 10)), (49, qt_us (10726 / 100)), (50, qt_us (10932 / 100)),
      (51, qt_us (11138 / 100)), (52, qt_us (11343 / 100)), (53, qt_us (11549 / 100)),
      (54, qt_us (11754 / 100)), (55, qt_us (1196 / 10)), (56, qt_us (12205 / 100)),
      (57, qt_us (12411 / 100)), (58, qt_us (12617 / 100)), (59, qt_us (12822 / 100)),
      (60, qt_us (13028 / 100)), (61, qt_us (13234 / 100)), (62, qt_us (13439 / 100)),
      (63, qt_us (13645 / 100))]"

definition blockXTOffsetDual :: "fp list" where
  "blockXTOffsetDual = map block_xt_us [3, 3, 2, 2, 1, 1, 0, 0]"

definition blockXTOffsetSingle :: "fp list" where
  "blockXTOffsetSingle = map block_xt_us [7, 6, 5, 4, 3, 2, 1, 0]"

definition blockXTMOffsetTriple :: "fp list" where
  "blockXTMOffsetTriple = map block_xt_us [1, 1, 1, 0, 0, 0, 0, 0]"

definition blockXTMOffsetDual :: "fp list" where
  "blockXTMOffsetDual = map block_xt_us [2, 2, 1, 1, 0, 0, 0, 0]"

definition blockXTMOffsetSingle :: "fp list" where
  "blockXTMOffsetSingle = map block_xt_us [5, 4, 3, 2, 1, 0, 0, 0]"

definition laserXTOffset :: "fp list" where
  "laserXTOffset = map laser_xt_us [
      0, 1, 2, 3, 4, 5, 6, 7, 8, 9, 10, 11, 12, 13, 14, 15, 16, 17, 18, 19, 20, 21, 22, 23, 24,
      25, 26, 27, 28, 29, 30, 31]"

definition laserXTMOffset :: "fp list" where
  "laserXTMOffset = map laser_xtm_us [
      0, 1, 2, 3, 4, 5, 6, 7, 8, 9, 10, 11, 12, 13, 14, 15, 0, 1, 2, 3, 4, 5, 6, 7, 8, 9, 10,
      11, 12, 13, 14, 15]"

definition block20OffsetSingle :: "fp option list" where
  "block20OffsetSingle =
     map (\<lambda>i. Some (f_add (f_lit (2858 / 100)) (f_mul (f_int (20 - 1 - int i)) (f_lit (5556 / 100)))))
       [0..<HS_LIDAR_L20_BLOCK_NUMBER]"

definition block20OffsetDual :: "fp option list" where
  "block20OffsetDual =
     map (\<lambda>i. Some (f_add (f_lit (2858 / 100)) (f_mul (f_int ((20 - 1 - int i) div 2)) (f_lit (5556 / 100)))))
       [0..<HS_LIDAR_L20_BLOCK_NUMBER]"

section \<open>Init\<close>

definition MAX_LASER_NUM :: nat where "MAX_LASER_NUM = 256"
definition MAX_POINT_CLOUD_NUM :: nat where "MAX_POINT_CLOUD_NUM = 1000000"
definition MAX_AZIMUTH_DEGREE_NUM :: nat where "MAX_AZIMUTH_DEGREE_NUM = 36000"
definition HS_LIDAR_XT_COORDINATE_CORRECTION_H :: fp where
  "HS_LIDAR_XT_COORDINATE_CORRECTION_H = d_lit (315 / 10000)"
definition HS_LIDAR_XT_COORDINATE_CORRECTION_B :: fp where
  "HS_LIDAR_XT_COORDINATE_CORRECTION_B = d_lit (13 / 1000)"
definition HS_LIDAR_XTM_COORDINATE_CORRECTION_H :: fp where
  "HS_LIDAR_XTM_COORDINATE_CORRECTION_H = d_lit (305 / 10000)"
definition HS_LIDAR_XTM_COORDINATE_CORRECTION_B :: fp where
  "HS_LIDAR_XTM_COORDINATE_CORRECTION_B = d_lit (13 / 1000)"
definition HS_LIDAR_XT16_UNIT_NUM :: nat where "HS_LIDAR_XT16_UNIT_NUM = 16"

definition PI_lit :: fp where "PI_lit = d_lit (314159265358979323846 / 100000000000000000000)"

definition degreeToRadian :: "fp \<Rightarrow> fp" where
  "degreeToRadian degree = d_div (d_mul degree PI_lit) (d_int 180)"

text \<open>\<^verbatim>\<open>i * M_PI / 18000\<close>, converted to the parameter type of \<^verbatim>\<open>sinf\<close>.\<close>

definition azimuth_radian :: "nat \<Rightarrow> fp" where
  "azimuth_radian i = to_float (d_div (d_mul (d_int (int i)) PI_lit) (d_int 18000))"

record tables =
  sin_azimuth_map :: "fp list"
  cos_azimuth_map :: "fp list"
  sin_azimuth_map_h :: "fp list"
  cos_azimuth_map_h :: "fp list"
  sin_azimuth_map_b :: "fp list"
  cos_azimuth_map_b :: "fp list"
  sin_elevation_map :: "fp list"
  cos_elevation_map :: "fp list"
  General_elev_angle_map :: "fp option list"
  General_horizatal_azimuth_offset_map :: "fp option list"
  blockXTOffsetSingle_m :: "fp option list"
  blockXTOffsetDual_m :: "fp option list"
  blockXTOffsetTriple_m :: "fp option list"
  laserXTOffset_m :: "fp option list"

text \<open>The elevation and azimuth-offset angles copied for a sensor type.\<close>

definition sensor_angles :: "string \<Rightarrow> (fp list \<times> fp list) option" where
  "sensor_angles t =
     (if t = ''Pandar40P'' \<or> t = ''Pandar40M''
        then Some (pandar40p_elev_angle_map, pandar40p_horizatal_azimuth_offset_map)
      else if t = ''Pandar64''
        then Some (pandarGeneral_elev_angle_map, pandarGeneral_horizatal_azimuth_offset_map)
      else if t = ''Pandar20A'' \<or> t = ''Pandar20B''
        then Some (pandar20_elev_angle_map, pandar20_horizatal_azimuth_offset_map)
      else if t = ''PandarQT''
        then Some (pandarQT_elev_angle_map, pandarQT_horizatal_azimuth_offset_map)
      else if t = ''PandarXT-32''
        then Some (pandarXT_elev_angle_map, pandarXT_horizatal_azimuth_offset_map)
      else if t = ''PandarXT-16''
        then Some (map (\<lambda>i. pandarXT_elev_angle_map ! (i * 2)) [0..<HS_LIDAR_XT16_UNIT_NUM],
                   map (\<lambda>i. pandarXT_horizatal_azimuth_offset_map ! (i * 2)) [0..<HS_LIDAR_XT16_UNIT_NUM])
      else if t = ''PandarXTM''
        then Some (pandarXTM_elev_angle_map, pandarXTM_horizatal_azimuth_offset_map)
      else None)"

definition fill :: "nat \<Rightarrow> fp list \<Rightarrow> fp option list" where
  "fill n xs = map Some xs @ replicate (n - length xs) None"

definition xt_laser_offsets :: "string \<Rightarrow> fp option list" where
  "xt_laser_offsets t =
     (if t = ''PandarXT-32'' then fill HS_LIDAR_XT_UNIT_NUM laserXTOffset
      else if t = ''PandarXT-16''
        then fill HS_LIDAR_XT_UNIT_NUM (map (\<lambda>i. laserXTOffset ! (i * 2)) [0..<HS_LIDAR_XT16_UNIT_NUM])
      else if t = ''PandarXTM'' then fill HS_LIDAR_XT_UNIT_NUM laserXTMOffset
      else fill HS_LIDAR_XT_UNIT_NUM [])"

definition Init_tables :: "(fp \<Rightarrow> fp) \<Rightarrow> (fp \<Rightarrow> fp) \<Rightarrow> string \<Rightarrow> tables" where
  "Init_tables sinf cosf t =
     (let n = MAX_AZIMUTH_DEGREE_NUM;
          xtm = (t = ''PandarXTM'');
          h = (if xtm then HS_LIDAR_XTM_COORDINATE_CORRECTION_H else HS_LIDAR_XT_COORDINATE_CORRECTION_H);
          b = (if xtm then HS_LIDAR_XTM_COORDINATE_CORRECTION_B else HS_LIDAR_XT_COORDINATE_CORRECTION_B);
          elev = (case sensor_angles t of None \<Rightarrow> [] | Some (es, hs) \<Rightarrow> es);
          hoff = (case sensor_angles t of None \<Rightarrow> [] | Some (es, hs) \<Rightarrow> hs)
      in \<lparr>sin_azimuth_map = map (\<lambda>i. sinf (azimuth_radian i)) [0..<n],
          cos_azimuth_map = map (\<lambda>i. cosf (azimuth_radian i)) [0..<n],
          sin_azimuth_map_h = map (\<lambda>i. to_float (d_mul (sinf (azimuth_radian i)) h)) [0..<n],
          cos_azimuth_map_h = map (\<lambda>i. to_float (d_mul (cosf (azimuth_radian i)) h)) [0..<n],
          sin_azimuth_map_b = map (\<lambda>i. to_float (d_mul (sinf (azimuth_radian i)) b)) [0..<n],
          cos_azimuth_map_b = map (\<lambda>i. to_float (d_mul (cosf (azimuth_radian i)) b)) [0..<n],
          sin_elevation_map = map (\<lambda>e. sinf (to_float (degreeToRadian e))) elev,
          cos_elevation_map = map (\<lambda>e. cosf (to_float (degreeToRadian e))) elev,
          General_elev_angle_map = fill MAX_LASER_NUM elev,
          General_horizatal_azimuth_offset_map = fill MAX_LASER_NUM hoff,
          blockXTOffsetSingle_m =
            map Some (if xtm then blockXTMOffsetSingle else blockXTOffsetSingle),
          blockXTOffsetDual_m = map Some (if xtm then blockXTMOffsetDual else blockXTOffsetDual),
          blockXTOffsetTriple_m =
            (if xtm then map Some blockXTMOffsetTriple else fill HS_LIDAR_XT_BLOCK_NUMBER []),
          laserXTOffset_m = xt_laser_offsets t\<rparr>)"

text \<open>A read of an array element: outside the array or indeterminate is undefined.\<close>

definition geti :: "'a option list \<Rightarrow> nat \<Rightarrow> 'a option" where
  "geti xs i = Option.bind (rd xs i) (\<lambda>x. x)"

lemma geti_Some_iff: "geti xs i = Some v \<longleftrightarrow> i < length xs \<and> xs ! i = Some v"
  by (auto simp: geti_def rd_def)

lemma geti_fill [simp]: "length xs \<le> n \<Longrightarrow> geti (fill n xs) i = rd xs i"
  by (auto simp: geti_def rd_def fill_def nth_append)

lemma length_fill [simp]: "length xs \<le> n \<Longrightarrow> length (fill n xs) = n"
  by (simp add: fill_def)

lemma geti_map_Some [simp]: "geti (map Some xs) i = rd xs i"
  by (simp add: geti_def rd_def)

end
