(* ===== verification/Point_Calc.thy ===== *)
theory Point_Calc
  imports Lidar_Tables
begin

text \<open>
  From a parsed block to points: \<^verbatim>\<open>CalcPointXYZIT\<close> (Pandar40P), \<^verbatim>\<open>CalcL64PointXYZIT\<close>,
  \<^verbatim>\<open>CalcL20PointXYZIT\<close>, \<^verbatim>\<open>CalcQTPointXYZIT\<close>, \<^verbatim>\<open>CalcXTPointXYZIT\<close>,
  \<^verbatim>\<open>GetFiretimeOffset\<close> and \<^verbatim>\<open>transformPoint\<close>.

  Each arithmetic operator rounds once, to \<^verbatim>\<open>float\<close> or \<^verbatim>\<open>double\<close> by the usual
  conversions (no extended precision, no contraction to fused operations). The value
  \<^term>\<open>None\<close> is undefined behaviour: an index outside a table, a read of an indeterminate
  element, a conversion to \<^verbatim>\<open>int\<close> that does not fit. What is not the program's own code is in
  the record \<open>env\<close>: the signedness of \<^verbatim>\<open>char\<close>, \<^verbatim>\<open>mktime\<close>, \<^verbatim>\<open>sqrt\<close> with the type
  of its unqualified call on a \<^verbatim>\<open>float\<close>, and the decimal output of a \<^verbatim>\<open>float\<close>.
\<close>

section \<open>Environment and configuration\<close>

record env =
  char_signed :: bool
  mktime_fn :: "tm \<Rightarrow> int \<times> tm"
  sqrt_fn :: "fmt \<Rightarrow> fp \<Rightarrow> fp"
  sqrt_fmt :: fmt
  show_float :: "fp \<Rightarrow> string"

type_synonym vec3 = "fp \<times> fp \<times> fp"

record cfg =
  lidarType :: string
  timestampType :: string
  pclType :: int
  tzSecond :: int
  startAngle :: int
  coordCorrection :: bool
  hasCallback :: bool
  sensorFrame :: string
  fixedFrame :: string
  frameId :: string

record point =
  pt_x :: fp
  pt_y :: fp
  pt_z :: fp
  pt_intensity :: fp
  pt_timestamp :: fp
  pt_ring :: u16

text \<open>What a point needs of the driver object besides its tables.\<close>

record calc_ctx =
  cc_cfg :: cfg
  cc_tbl :: tables
  cc_targetFrame :: string
  cc_toFixed :: "vec3 \<Rightarrow> vec3"
  cc_toTarget :: "vec3 \<Rightarrow> vec3"
  cc_pktTimestamp :: fp

section \<open>Shared steps\<close>

definition GetFiretimeOffset :: "fp \<Rightarrow> fp \<Rightarrow> fp" where
  "GetFiretimeOffset spinSpeed deltMicrosecond =
     to_float (d_mul (f_mul spinSpeed deltMicrosecond) (d_lit (6 / 1000000)))"

definition wrong_distance :: "fp \<Rightarrow> bool" where
  "wrong_distance d \<longleftrightarrow> fp_le d (d_lit (1 / 10)) \<or> fp_lt (d_lit 200) d"

definition wrap_azimuth :: "int \<Rightarrow> int" where
  "wrap_azimuth a =
     (let a = (if a < 0 then a + 36000 else a) in if 36000 \<le> a then a - 36000 else a)"

text \<open>\<^verbatim>\<open>offset * 100 + azimuth + fire * 100\<close> and the variant that subtracts.\<close>

definition azimuth_plus :: "fp \<Rightarrow> u16 \<Rightarrow> fp \<Rightarrow> int option" where
  "azimuth_plus off az fire =
     to_i32 (f_add (f_add (f_mul off (f_int 100)) (f_int (uint az))) (f_mul fire (f_int 100)))"

definition azimuth_minus :: "fp \<Rightarrow> u16 \<Rightarrow> fp \<Rightarrow> int option" where
  "azimuth_minus off az fire =
     to_i32 (f_sub (f_add (f_mul off (f_int 100)) (f_int (uint az))) (f_mul fire (f_int 100)))"

text \<open>An \<^verbatim>\<open>int\<close> as an index of a vector: a negative one is far outside.\<close>

definition rdi :: "'a list \<Rightarrow> int \<Rightarrow> 'a option" where
  "rdi xs i = (if 0 \<le> i then rd xs (nat i) else None)"

definition plain_xyz :: "tables \<Rightarrow> fp \<Rightarrow> nat \<Rightarrow> int \<Rightarrow> vec3 option" where
  "plain_xyz tb d i az = do {
     ce \<leftarrow> rd (cos_elevation_map tb) i;
     let xy = to_float (d_mul d ce);
     sa \<leftarrow> rdi (sin_azimuth_map tb) az;
     ca \<leftarrow> rdi (cos_azimuth_map tb) az;
     se \<leftarrow> rd (sin_elevation_map tb) i;
     Some (f_mul xy sa, f_mul xy ca, to_float (d_mul d se))
   }"

definition transformPoint :: "calc_ctx \<Rightarrow> vec3 \<Rightarrow> vec3" where
  "transformPoint c p =
     (if fixedFrame (cc_cfg c) = [] \<and> cc_targetFrame c = [] then p
      else
        (let p = (if fixedFrame (cc_cfg c) \<noteq> [] then cc_toFixed c p else p)
         in if cc_targetFrame c \<noteq> [] then cc_toTarget c p else p))"

text \<open>\<^verbatim>\<open>static_cast<double>(block + laser) / 1000000.0f\<close>\<close>

definition offset_seconds :: "fp \<Rightarrow> fp \<Rightarrow> fp" where
  "offset_seconds blk las = d_div (f_add blk las) (f_lit 1000000)"

definition realtime :: "calc_ctx \<Rightarrow> bool" where
  "realtime c \<longleftrightarrow> timestampType (cc_cfg c) = ''realtime''"

definition sensor_time :: "calc_ctx \<Rightarrow> fp \<Rightarrow> fp" where
  "sensor_time c tp = d_add tp (d_int (tzSecond (cc_cfg c)))"

definition mk_point :: "calc_ctx \<Rightarrow> vec3 \<Rightarrow> fp \<Rightarrow> fp \<Rightarrow> nat \<Rightarrow> point" where
  "mk_point c p inten t i =
     (case transformPoint c p of (x, y, z) \<Rightarrow>
        \<lparr>pt_x = x, pt_y = y, pt_z = z, pt_intensity = inten, pt_timestamp = t, pt_ring = of_nat i\<rparr>)"

section \<open>Pandar40P\<close>

definition time_40p :: "calc_ctx \<Rightarrow> Pandar40PPacket \<Rightarrow> nat \<Rightarrow> nat \<Rightarrow> fp option" where
  "time_40p c pkt blockid i =
     (if realtime c then Some (cc_pktTimestamp c)
      else do {
        blk \<leftarrow> geti (if p40_echo pkt = 0x39 then block40OffsetDual else block40OffsetSingle) blockid;
        las \<leftarrow> geti laser40Offset i;
        Some (d_sub (sensor_time c (p40_timestamp_point pkt)) (offset_seconds blk las))
      })"

definition calc_40p_unit ::
  "calc_ctx \<Rightarrow> Pandar40PPacket \<Rightarrow> nat \<Rightarrow> nat \<Rightarrow> point option option" where
  "calc_40p_unit c pkt blockid i = do {
     blk \<leftarrow> rd (p40_blocks pkt) blockid;
     u \<leftarrow> rd (p40_units blk) i;
     if wrong_distance (p40_distance u) then Some None
     else do {
       off \<leftarrow> geti (General_horizatal_azimuth_offset_map (cc_tbl c)) i;
       las \<leftarrow> geti laser40Offset i;
       a \<leftarrow> azimuth_minus off (p40_azimuth blk) (GetFiretimeOffset (p40_spin_speed pkt) las);
       p \<leftarrow> plain_xyz (cc_tbl c) (p40_distance u) i (wrap_azimuth a);
       t \<leftarrow> time_40p c pkt blockid i;
       Some (Some (mk_point c p (f_int (uint (p40_intensity u))) t i))
     }
   }"

section \<open>Pandar64\<close>

definition time_l64 :: "calc_ctx \<Rightarrow> HS_LIDAR_L64_Packet \<Rightarrow> nat \<Rightarrow> nat \<Rightarrow> fp option" where
  "time_l64 c pkt blockid i =
     (if realtime c then Some (cc_pktTimestamp c)
      else do {
        blk \<leftarrow> geti (if echo pkt = 0x39 then block64OffsetDual else block64OffsetSingle) blockid;
        las \<leftarrow> geti laser64Offset i;
        Some (d_sub (sensor_time c (timestamp_point pkt)) (offset_seconds blk las))
      })"

definition calc_l64_unit ::
  "calc_ctx \<Rightarrow> HS_LIDAR_L64_Packet \<Rightarrow> nat \<Rightarrow> nat \<Rightarrow> point option option" where
  "calc_l64_unit c pkt blockid i = do {
     blk \<leftarrow> rd (blocks pkt) blockid;
     u \<leftarrow> rd (units blk) i;
     if wrong_distance (distance u) then Some None
     else do {
       off \<leftarrow> geti (General_horizatal_azimuth_offset_map (cc_tbl c)) i;
       las \<leftarrow> geti laser64Offset i;
       a \<leftarrow> azimuth_minus off (azimuth blk) (GetFiretimeOffset (spin_speed pkt) las);
       p \<leftarrow> plain_xyz (cc_tbl c) (distance u) i (wrap_azimuth a);
       t \<leftarrow> time_l64 c pkt blockid i;
       Some (Some (mk_point c p (f_int (uint (intensity u))) t i))
     }
   }"

section \<open>Pandar20\<close>

definition time_l20 :: "calc_ctx \<Rightarrow> HS_LIDAR_L20_Packet \<Rightarrow> nat \<Rightarrow> nat \<Rightarrow> fp option" where
  "time_l20 c pkt blockid i =
     (if realtime c then Some (cc_pktTimestamp c)
      else
        (let t = sensor_time c (timestamp_point pkt);
             blks = (if echo pkt = 0x39 then block20OffsetDual else block20OffsetSingle)
         in if lidarType (cc_cfg c) = ''Pandar20A'' then do {
              blk \<leftarrow> geti blks blockid; las \<leftarrow> geti laser20AOffset i;
              Some (d_sub t (offset_seconds blk las)) }
            else if lidarType (cc_cfg c) = ''Pandar20B'' then do {
              blk \<leftarrow> geti blks blockid; las \<leftarrow> geti laser20BOffset i;
              Some (d_sub t (offset_seconds blk las)) }
            else Some t))"

definition calc_l20_unit ::
  "calc_ctx \<Rightarrow> HS_LIDAR_L20_Packet \<Rightarrow> nat \<Rightarrow> nat \<Rightarrow> point option option" where
  "calc_l20_unit c pkt blockid i = do {
     blk \<leftarrow> rd (blocks pkt) blockid;
     u \<leftarrow> rd (units blk) i;
     if wrong_distance (distance u) then Some None
     else do {
       off \<leftarrow> geti (General_horizatal_azimuth_offset_map (cc_tbl c)) i;
       las \<leftarrow> geti laser20BOffset i;
       a \<leftarrow> azimuth_plus off (azimuth blk) (GetFiretimeOffset (spin_speed pkt) las);
       p \<leftarrow> plain_xyz (cc_tbl c) (distance u) i (wrap_azimuth a);
       t \<leftarrow> time_l20 c pkt blockid i;
       Some (Some (mk_point c p (f_int (uint (intensity u))) t i))
     }
   }"

section \<open>QT\<close>

definition ODOG :: fp where "ODOG = d_lit (298 / 10000)"
definition ODOT :: fp where "ODOT = d_lit (72 / 10000)"

text \<open>
  The test that the solution lies on the right side:
  \<^verbatim>\<open>(x + ODOT) * ce * sa + (y - ODOG) * ce * ca + z * se <= 0\<close>, in \<^verbatim>\<open>double\<close> except
  the last product.
\<close>

definition qt_behind :: "fp \<Rightarrow> fp \<Rightarrow> fp \<Rightarrow> fp \<Rightarrow> vec3 \<Rightarrow> bool" where
  "qt_behind se ce sa ca p =
     (case p of (x, y, z) \<Rightarrow>
        fp_le (d_add (d_add (d_mul (d_mul (d_add x ODOT) ce) sa) (d_mul (d_mul (d_sub y ODOG) ce) ca))
                 (f_mul z se))
          (d_int 0))"

text \<open>Elevation different from zero: the two roots of the quadratic in \<^verbatim>\<open>z\<close>.\<close>

definition qt_from_z :: "fp \<Rightarrow> fp \<Rightarrow> fp \<Rightarrow> fp \<Rightarrow> fp \<Rightarrow> vec3" where
  "qt_from_z se ce sa ca z =
     (to_float (d_sub (fp_div binary32 (f_mul (f_mul z sa) ce) se) ODOT),
      to_float (d_add (fp_div binary32 (f_mul (f_mul z ca) ce) se) ODOG), z)"

definition qt_root :: "env \<Rightarrow> bool \<Rightarrow> fp \<Rightarrow> fp \<Rightarrow> fp \<Rightarrow> fp" where
  "qt_root e second b disc den =
     (let F = sqrt_fmt e; s = sqrt_fn e F disc
      in to_float (fp_div F (if second then fp_sub F (fp_neg b) s else fp_add F (fp_neg b) s) den))"

definition qt_elevated :: "env \<Rightarrow> fp \<Rightarrow> fp \<Rightarrow> fp \<Rightarrow> fp \<Rightarrow> fp \<Rightarrow> vec3" where
  "qt_elevated e d se ce sa ca =
     (let c = to_float (d_mul (d_mul
                (d_sub (d_add (d_mul ODOG ODOG) (d_mul ODOT ODOT)) (d_mul d d)) se) se);
          b = to_float (d_mul (f_mul (f_mul (f_int 2) se) ce)
                (d_sub (d_mul ODOG ca) (d_mul ODOT sa)));
          disc = f_sub (f_mul b b) (f_mul (f_int 4) c);
          p = qt_from_z se ce sa ca (qt_root e False b disc (f_int 2))
      in if qt_behind se ce sa ca p then qt_from_z se ce sa ca (qt_root e True b disc (f_int 2)) else p)"

text \<open>Elevation zero: the quadratic in \<^verbatim>\<open>y\<close>, or the degenerate direction.\<close>

definition qt_level :: "env \<Rightarrow> fp \<Rightarrow> fp \<Rightarrow> fp \<Rightarrow> fp \<Rightarrow> fp \<Rightarrow> vec3" where
  "qt_level e d se ce sa ca =
     (let t = fp_div binary32 sa ca;
          m = d_add (d_mul ODOG t) ODOT;
          c = to_float (d_sub (d_mul m m) (d_mul d d));
          a = f_add (f_int 1) (f_mul t t);
          b = to_float (d_mul (f_mul (f_int (- 2)) t) m);
          disc = f_sub (f_mul b b) (f_mul (f_mul (f_int 4) a) c);
          from_y = (\<lambda>y. (to_float (d_sub (d_mul (d_sub y ODOG) t) ODOT), y, f_int 0));
          p = from_y (qt_root e False b disc (f_mul (f_int 2) a))
      in if qt_behind se ce sa ca p then from_y (qt_root e True b disc (f_mul (f_int 2) a)) else p)"

definition qt_sideways :: "env \<Rightarrow> fp \<Rightarrow> fp \<Rightarrow> fp \<Rightarrow> fp \<Rightarrow> fp \<Rightarrow> vec3" where
  "qt_sideways e d se ce sa ca =
     (let s = sqrt_fn e binary64 (d_sub (d_mul d d) (d_mul ODOG ODOG));
          p = (to_float s, to_float ODOG, f_int 0)
      in if qt_behind se ce sa ca p then (to_float (fp_neg s), to_float ODOG, f_int 0) else p)"

definition qt_xyz :: "env \<Rightarrow> tables \<Rightarrow> fp \<Rightarrow> nat \<Rightarrow> int \<Rightarrow> vec3 option" where
  "qt_xyz e tb d i az = do {
     se \<leftarrow> rd (sin_elevation_map tb) i;
     ce \<leftarrow> rd (cos_elevation_map tb) i;
     sa \<leftarrow> rdi (sin_azimuth_map tb) az;
     ca \<leftarrow> rdi (cos_azimuth_map tb) az;
     Some (if \<not> fp_eq se (f_int 0) then qt_elevated e d se ce sa ca
           else if \<not> fp_eq ca (f_int 0) then qt_level e d se ce sa ca
           else qt_sideways e d se ce sa ca)
   }"

definition time_qt :: "calc_ctx \<Rightarrow> HS_LIDAR_QT_Packet \<Rightarrow> nat \<Rightarrow> nat \<Rightarrow> fp option" where
  "time_qt c pkt blockid i =
     (if realtime c then Some (cc_pktTimestamp c)
      else do {
        blk \<leftarrow> geti (if echo pkt = 0x05 then blockQTOffsetDual else blockQTOffsetSingle) blockid;
        las \<leftarrow> geti laserQTOffset i;
        Some (d_add (sensor_time c (timestamp_point pkt)) (offset_seconds blk las))
      })"

definition calc_qt_unit ::
  "env \<Rightarrow> calc_ctx \<Rightarrow> HS_LIDAR_QT_Packet \<Rightarrow> nat \<Rightarrow> nat \<Rightarrow> point option option" where
  "calc_qt_unit e c pkt blockid i = do {
     blk \<leftarrow> rd (blocks pkt) blockid;
     u \<leftarrow> rd (units blk) i;
     if wrong_distance (distance u) then Some None
     else do {
       off \<leftarrow> geti (General_horizatal_azimuth_offset_map (cc_tbl c)) i;
       las \<leftarrow> geti laserQTOffset i;
       a \<leftarrow> azimuth_plus off (azimuth blk) (GetFiretimeOffset (spin_speed pkt) las);
       p \<leftarrow> (if coordCorrection (cc_cfg c) then qt_xyz e (cc_tbl c) (distance u) i (wrap_azimuth a)
             else plain_xyz (cc_tbl c) (distance u) i (wrap_azimuth a));
       t \<leftarrow> time_qt c pkt blockid i;
       Some (Some (mk_point c p (f_int (uint (intensity u))) t i))
     }
   }"

section \<open>XT\<close>

definition xt_xyz :: "tables \<Rightarrow> fp \<Rightarrow> fp \<Rightarrow> nat \<Rightarrow> int \<Rightarrow> vec3 option" where
  "xt_xyz tb off d i az = do {
     k \<leftarrow> to_i32 (f_mul off (f_int 100));
     ch \<leftarrow> rdi (cos_azimuth_map_h tb) \<bar>k\<bar>;
     ce \<leftarrow> rd (cos_elevation_map tb) i;
     sb \<leftarrow> rdi (sin_azimuth_map_b tb) \<bar>k\<bar>;
     let dd = to_float (d_sub d (f_sub (f_mul ch ce) (f_mul sb ce)));
     let xy = f_mul dd ce;
     sa \<leftarrow> rdi (sin_azimuth_map tb) az;
     cb \<leftarrow> rdi (cos_azimuth_map_b tb) az;
     sh \<leftarrow> rdi (sin_azimuth_map_h tb) az;
     ca \<leftarrow> rdi (cos_azimuth_map tb) az;
     sb' \<leftarrow> rdi (sin_azimuth_map_b tb) az;
     ch' \<leftarrow> rdi (cos_azimuth_map_h tb) az;
     se \<leftarrow> rd (sin_elevation_map tb) i;
     Some (f_add (f_sub (f_mul xy sa) cb) sh, f_add (f_add (f_mul xy ca) sb') ch', f_mul dd se)
   }"

definition time_xt :: "calc_ctx \<Rightarrow> HS_LIDAR_XT_Packet \<Rightarrow> nat \<Rightarrow> nat \<Rightarrow> fp option" where
  "time_xt c pkt blockid i =
     (if realtime c then Some (cc_pktTimestamp c)
      else do {
        let tb = cc_tbl c;
        blk \<leftarrow> geti (if echo pkt = 0x3d then blockXTOffsetTriple_m tb
                     else if echo pkt = 0x39 \<or> echo pkt = 0x3b \<or> echo pkt = 0x3c
                     then blockXTOffsetDual_m tb else blockXTOffsetSingle_m tb) blockid;
        las \<leftarrow> geti (laserXTOffset_m tb) i;
        Some (d_add (sensor_time c (timestamp_point pkt)) (offset_seconds blk las))
      })"

definition calc_xt_unit ::
  "calc_ctx \<Rightarrow> HS_LIDAR_XT_Packet \<Rightarrow> nat \<Rightarrow> nat \<Rightarrow> point option option" where
  "calc_xt_unit c pkt blockid i = do {
     blk \<leftarrow> rd (blocks pkt) blockid;
     u \<leftarrow> rd (units blk) i;
     if wrong_distance (distance u) then Some None
     else do {
       off \<leftarrow> geti (General_horizatal_azimuth_offset_map (cc_tbl c)) i;
       las \<leftarrow> geti (laserXTOffset_m (cc_tbl c)) i;
       a \<leftarrow> azimuth_plus off (azimuth blk) (GetFiretimeOffset (spin_speed pkt) las);
       p \<leftarrow> (if coordCorrection (cc_cfg c) then xt_xyz (cc_tbl c) off (distance u) i (wrap_azimuth a)
             else plain_xyz (cc_tbl c) (distance u) i (wrap_azimuth a));
       t \<leftarrow> time_xt c pkt blockid i;
       Some (Some (mk_point c p (f_int (uint (intensity u))) t i))
     }
   }"

end
