(* ===== verification/Driver.thy ===== *)
theory Driver
  imports Point_Calc Spsc_Queue Packet_Defenses
begin

text \<open>
  The driver object \<^verbatim>\<open>PandarGeneral_Internal\<close>: construction, the packet queue, the frame
  transforms, the accumulation of points, the emission of a cloud at the start angle and the
  processing thread \<^verbatim>\<open>ProcessLiarPacket\<close>.

  A step returns an option: \<^term>\<open>None\<close> is undefined behaviour. Otherwise its \<open>outcome\<close> says
  whether the loop goes on, the thread returned, or an exception left the thread function, which
  ends the process. Calls of the point-cloud callback are recorded in \<open>emitted\<close> with the values
  that the shared cloud and scan have during the call. External code is in the record
  \<open>drv_env\<close>: \<^verbatim>\<open>tf2\<close> (the transform found, one of the two exceptions the code catches, or
  another one), the conversion of a message stamp to \<^verbatim>\<open>rclcpp::Time\<close>, which may throw, and
  the clock. The \<open>n\<close>-th look-up may answer differently from the others.
\<close>

section \<open>Objects\<close>

record PandarPacket =
  pp_stamp :: fp
  pp_data :: "byte list"
  pp_size :: nat

text \<open>\<^verbatim>\<open>hesai_lidar::msg::PandarPacket\<close>\<close>

record packet_msg =
  msg_sec :: int
  msg_nanosec :: int
  msg_data :: "byte list"
  msg_size :: nat

text \<open>\<^verbatim>\<open>pcl::PointCloud<PPoint>\<close>\<close>

record cloud =
  cl_frame_id :: string
  cl_width :: nat
  cl_height :: nat
  cl_points :: "point list"

text \<open>A call of \<^verbatim>\<open>pcl_callback_\<close>.\<close>

record emission =
  em_cloud :: cloud
  em_timestamp :: fp
  em_scan :: "packet_msg list"

datatype tf_result = TfFound "vec3 \<Rightarrow> vec3" | TfCaught | TfUncaught

record drv_env =
  base :: env
  tf_lookup :: "nat \<Rightarrow> string \<Rightarrow> string \<Rightarrow> int \<Rightarrow> tf_result"
  ros_time :: "int \<Rightarrow> int \<Rightarrow> int option"
  clock_now :: int

datatype outcome = Next | Exit | Terminated

record driver =
  d_cfg :: cfg
  d_tbl :: tables
  targetFrame :: string
  tfBuffer :: bool
  tfCalls :: nat
  toFixed :: "vec3 \<Rightarrow> vec3"
  toTarget :: "vec3 \<Rightarrow> vec3"
  lastAzimuth :: u16
  lastTimestamp :: fp
  pktTimestamp :: fp
  pointIndex :: nat
  pointCloud :: "nat \<Rightarrow> point"
  pointCloudList :: "point list list"
  tsGuard :: TimestampGuard
  seqTracker :: XtSequenceTracker
  outMsg :: cloud
  scan :: "packet_msg list"
  emitted :: "emission list"
  processedPackets :: u64
  timestampRegressions :: u64
  sequenceGapPackets :: u64
  sequenceDuplicates :: u64
  sequenceBackwards :: u64
  sequenceRestarts :: u64
  emptyCloudDrops :: u64

definition empty_cloud :: cloud where
  "empty_cloud = \<lparr>cl_frame_id = [], cl_width = 0, cl_height = 0, cl_points = []\<rparr>"

definition zero_point :: point where
  "zero_point = \<lparr>pt_x = f_int 0, pt_y = f_int 0, pt_z = f_int 0, pt_intensity = f_int 0,
     pt_timestamp = d_int 0, pt_ring = 0\<rparr>"

text \<open>
  The part of the constructors that the processing depends on. The scan and the output cloud are
  locals of \<^verbatim>\<open>ProcessLiarPacket\<close>, created there. The transforms start out as whatever
  their default constructor leaves.
\<close>

definition frame_id_of :: "string \<Rightarrow> string \<Rightarrow> string \<Rightarrow> string" where
  "frame_id_of sensor fixed target = (if target \<noteq> [] then target else if fixed \<noteq> [] then fixed else sensor)"

definition new_driver ::
  "tables \<Rightarrow> (vec3 \<Rightarrow> vec3) \<Rightarrow> bool \<Rightarrow> u16 \<Rightarrow> int \<Rightarrow> int \<Rightarrow> string \<Rightarrow> string \<Rightarrow> string \<Rightarrow> bool \<Rightarrow>
   string \<Rightarrow> string \<Rightarrow> driver" where
  "new_driver tb tf0 callback start_angle tz pcl_type lidar_type frame_id timestamp_type correction
     target_frame fixed_frame =
     \<lparr>d_cfg = \<lparr>lidarType = lidar_type, timestampType = timestamp_type, pclType = pcl_type,
        tzSecond = tz * 3600, startAngle = uint start_angle, coordCorrection = correction,
        hasCallback = callback, sensorFrame = frame_id, fixedFrame = fixed_frame,
        frameId = frame_id_of frame_id fixed_frame target_frame\<rparr>,
      d_tbl = tb, targetFrame = target_frame, tfBuffer = False, tfCalls = 0,
      toFixed = tf0, toTarget = tf0, lastAzimuth = 0, lastTimestamp = d_int 0,
      pktTimestamp = d_int 0, pointIndex = 0, pointCloud = (\<lambda>k. zero_point),
      pointCloudList = replicate MAX_LASER_NUM [],
      tsGuard = newTimestampGuard kTimestampRegressionToleranceSec,
      seqTracker = newXtSequenceTracker kXtSequenceRestartIdleSec,
      outMsg = empty_cloud, scan = [], emitted = [], processedPackets = 0, timestampRegressions = 0,
      sequenceGapPackets = 0, sequenceDuplicates = 0, sequenceBackwards = 0, sequenceRestarts = 0,
      emptyCloudDrops = 0\<rparr>"

definition ctx_of :: "driver \<Rightarrow> calc_ctx" where
  "ctx_of d = \<lparr>cc_cfg = d_cfg d, cc_tbl = d_tbl d, cc_targetFrame = targetFrame d,
     cc_toFixed = toFixed d, cc_toTarget = toTarget d, cc_pktTimestamp = pktTimestamp d\<rparr>"

section \<open>Transforms\<close>

definition manage_tf_buffer :: "driver \<Rightarrow> driver" where
  "manage_tf_buffer d =
     (let c = d_cfg d
      in if sensorFrame c = [] then d
         else if fixedFrame c = [] \<and> sensorFrame c = targetFrame d then d\<lparr>targetFrame := []\<rparr>
         else if fixedFrame c \<noteq> [] \<or> targetFrame d \<noteq> [] then d\<lparr>tfBuffer := True\<rparr>
         else d\<lparr>tfBuffer := False\<rparr>)"

text \<open>The Boolean is the returned one; the transform is the value assigned to \<^verbatim>\<open>matrix\<close>.\<close>

datatype lookup = Looked bool "(vec3 \<Rightarrow> vec3) option" | Thrown

definition calculateTransformMatrix ::
  "drv_env \<Rightarrow> string \<Rightarrow> string \<Rightarrow> int \<Rightarrow> driver \<Rightarrow> lookup \<times> driver" where
  "calculateTransformMatrix e target source time d =
     (if \<not> tfBuffer d then (Looked False None, d)
      else
        (let d' = d\<lparr>tfCalls := tfCalls d + 1\<rparr>
         in case tf_lookup e (tfCalls d) target source time of
              TfFound m \<Rightarrow> (Looked True (Some m), d')
            | TfCaught \<Rightarrow> (Looked False None, d')
            | TfUncaught \<Rightarrow> (Thrown, d')))"

definition outcome_of :: "lookup \<Rightarrow> outcome" where
  "outcome_of r = (case r of Thrown \<Rightarrow> Terminated | Looked b m \<Rightarrow> if b then Next else Exit)"

definition computeTransformToTarget :: "drv_env \<Rightarrow> int \<Rightarrow> driver \<Rightarrow> outcome \<times> driver" where
  "computeTransformToTarget e time d =
     (if targetFrame d = [] then (Next, d)
      else
        (let source = (if fixedFrame (d_cfg d) = [] then sensorFrame (d_cfg d) else fixedFrame (d_cfg d));
             (r, d') = calculateTransformMatrix e (targetFrame d) source time d
         in (outcome_of r,
             (case r of Looked b (Some m) \<Rightarrow> d'\<lparr>toTarget := m\<rparr> | _ \<Rightarrow> d'))))"

definition computeTransformToFixed :: "drv_env \<Rightarrow> int \<Rightarrow> driver \<Rightarrow> outcome \<times> driver" where
  "computeTransformToFixed e time d =
     (if fixedFrame (d_cfg d) = [] then (Next, d)
      else
        (let (r, d') = calculateTransformMatrix e (fixedFrame (d_cfg d)) (sensorFrame (d_cfg d)) time d
         in (outcome_of r,
             (case r of Looked b (Some m) \<Rightarrow> d'\<lparr>toFixed := m\<rparr> | _ \<Rightarrow> d'))))"

text \<open>A call with a message stamp converts it to \<^verbatim>\<open>rclcpp::Time\<close> first.\<close>

definition with_stamp ::
  "drv_env \<Rightarrow> packet_msg \<Rightarrow> (int \<Rightarrow> driver \<Rightarrow> outcome \<times> driver) \<Rightarrow> driver \<Rightarrow> outcome \<times> driver" where
  "with_stamp e m f d =
     (case ros_time e (msg_sec m) (msg_nanosec m) of None \<Rightarrow> (Terminated, d) | Some t \<Rightarrow> f t d)"

section \<open>The correction file of a scan\<close>

function show_nat :: "nat \<Rightarrow> string" where
  "show_nat n =
     (if n < 10 then [char_of (48 + n)] else show_nat (n div 10) @ [char_of (48 + n mod 10)])"
  by auto
termination by (relation "measure id") auto

declare show_nat.simps [simp del]

definition correction_line :: "env \<Rightarrow> tables \<Rightarrow> nat \<Rightarrow> string option" where
  "correction_line e tb i = do {
     el \<leftarrow> geti (General_elev_angle_map tb) i;
     az \<leftarrow> geti (General_horizatal_azimuth_offset_map tb) i;
     Some (show_nat (i + 1) @ '','' @ show_float e el @ '','' @ show_float e az @ [CHR 0x0A])
   }"

fun correction_lines :: "env \<Rightarrow> tables \<Rightarrow> nat \<Rightarrow> nat \<Rightarrow> string option" where
  "correction_lines e tb i 0 = Some []"
| "correction_lines e tb i (Suc n) = do {
     l \<leftarrow> correction_line e tb i;
     ls \<leftarrow> correction_lines e tb (Suc i) n;
     Some (l @ ls)
   }"

definition SaveCorrectionFile :: "env \<Rightarrow> tables \<Rightarrow> nat \<Rightarrow> packet_msg option" where
  "SaveCorrectionFile e tb laserNumber = do {
     ls \<leftarrow> correction_lines e tb 0 laserNumber;
     let content = map of_char (''Laser id,Elevation,Azimuth'' @ [CHR 0x0A] @ ls);
     let len = length content;
     Some \<lparr>msg_sec = 0, msg_nanosec = 0,
           msg_data = [0x47, 0x74, 0x05, 0x00, of_nat (len div 2 ^ 24), of_nat (len div 2 ^ 16),
             of_nat (len div 2 ^ 8), of_nat len] @ content,
           msg_size = len\<rparr>
   }"

section \<open>Points and clouds\<close>

text \<open>
  The end of the loop body of the \<^verbatim>\<open>Calc...\<close> functions. In \<^verbatim>\<open>CalcQTPointXYZIT\<close> the
  \<^verbatim>\<open>else\<close> has no braces, so the index is incremented in both cases (\<open>unbraced\<close>).
\<close>

definition store_point :: "bool \<Rightarrow> nat \<Rightarrow> point \<Rightarrow> driver \<Rightarrow> driver option" where
  "store_point unbraced i p d =
     (if pclType (d_cfg d) \<noteq> 0 then do {
        ps \<leftarrow> rd (pointCloudList d) i;
        ls \<leftarrow> wr (pointCloudList d) i (ps @ [p]);
        let d = d\<lparr>pointCloudList := ls\<rparr>;
        if \<not> unbraced then Some d
        else if pointIndex d + 1 < 2 ^ 31 then Some (d\<lparr>pointIndex := pointIndex d + 1\<rparr>)
        else None
      }
      else if pointIndex d < MAX_POINT_CLOUD_NUM
        then Some (d\<lparr>pointCloud := (pointCloud d)(pointIndex d := p), pointIndex := pointIndex d + 1\<rparr>)
        else None)"

text \<open>\<^verbatim>\<open>for (int i = 0; i < chLaserNumber; ++i)\<close> of the \<^verbatim>\<open>Calc...\<close> functions.\<close>

fun calc_units :: "bool \<Rightarrow> (driver \<Rightarrow> nat \<Rightarrow> point option option) \<Rightarrow> nat \<Rightarrow> nat \<Rightarrow> driver \<Rightarrow> driver option" where
  "calc_units unbraced calc 0 i d = Some d"
| "calc_units unbraced calc (Suc n) i d = do {
     r \<leftarrow> calc d i;
     d' \<leftarrow> (case r of None \<Rightarrow> Some d | Some p \<Rightarrow> store_point unbraced i p d);
     calc_units unbraced calc n (Suc i) d'
   }"

definition clear_lists :: "nat \<Rightarrow> point list list \<Rightarrow> point list list option" where
  "clear_lists n ls = (if n \<le> length ls then Some (replicate n [] @ drop n ls) else None)"

text \<open>\<^verbatim>\<open>pcl::PointCloud::push_back\<close> keeps \<^verbatim>\<open>width\<close> equal to the number of points.\<close>

definition cloud_append :: "cloud \<Rightarrow> point list \<Rightarrow> cloud" where
  "cloud_append c ps =
     (if ps = [] then c
      else c\<lparr>cl_points := cl_points c @ ps, cl_width := length (cl_points c @ ps), cl_height := 1\<rparr>)"

definition EmitBackMessege :: "nat \<Rightarrow> driver \<Rightarrow> driver option" where
  "EmitBackMessege n d =
     (let lists = (pclType (d_cfg d) \<noteq> 0)
      in do {
        d \<leftarrow> (if lists then
               (if n \<le> length (pointCloudList d)
                then Some (d\<lparr>outMsg := cloud_append (outMsg d) (concat (take n (pointCloudList d)))\<rparr>)
                else None)
             else if pointIndex d \<le> MAX_POINT_CLOUD_NUM then
               (let pts = map (pointCloud d) [0..<pointIndex d]
                in Some (d\<lparr>outMsg := (outMsg d)\<lparr>cl_points := pts, cl_width := length pts, cl_height := 1\<rparr>,
                           pointIndex := 0\<rparr>))
             else None);
        case cl_points (outMsg d) of
          [] \<Rightarrow> do {
            ls \<leftarrow> (if lists then clear_lists n (pointCloudList d) else Some (pointCloudList d));
            Some (d\<lparr>emptyCloudDrops := emptyCloudDrops d + 1, pointCloudList := ls\<rparr>)
          }
        | p # ps \<Rightarrow> do {
            let d = d\<lparr>emitted := emitted d @ [\<lparr>em_cloud = outMsg d, em_timestamp = pt_timestamp p,
                                              em_scan = scan d\<rparr>]\<rparr>;
            if lists then do {
              ls \<leftarrow> clear_lists n (pointCloudList d);
              Some (d\<lparr>pointCloudList := ls,
                      outMsg := (if n = 0 then outMsg d
                                 else (outMsg d)\<lparr>cl_points := [], cl_width := 0, cl_height := 1\<rparr>)\<rparr>)
            }
            else Some d
          }
      })"

section \<open>Frames\<close>

definition azimuth_gap :: "u16 \<Rightarrow> u16 \<Rightarrow> int" where
  "azimuth_gap prev az =
     (if uint az < uint prev then uint az + (36000 - uint prev) else uint az - uint prev)"

definition plausible_rotation :: "driver \<Rightarrow> u16 \<Rightarrow> fp \<Rightarrow> bool" where
  "plausible_rotation d az tp \<longleftrightarrow>
     lastAzimuth d \<noteq> az \<and>
     fp_lt (d_div (d_int (azimuth_gap (lastAzimuth d) az))
             (d_add (d_sub tp (lastTimestamp d)) (d_lit (1 / 1000))))
       (d_int (int MAX_AZIMUTH_DEGREE_NUM * 100))"

definition crosses_start :: "driver \<Rightarrow> u16 \<Rightarrow> bool" where
  "crosses_start d az \<longleftrightarrow>
     (uint az < uint (lastAzimuth d) \<and> startAngle (d_cfg d) \<le> uint az) \<or>
     (uint (lastAzimuth d) < startAngle (d_cfg d) \<and> startAngle (d_cfg d) \<le> uint az)"

definition has_points :: "driver \<Rightarrow> bool" where
  "has_points d \<longleftrightarrow> 0 < pointIndex d \<or> pointCloudList d ! 0 \<noteq> []"

definition frame_ends :: "driver \<Rightarrow> u16 \<Rightarrow> fp \<Rightarrow> bool" where
  "frame_ends d az tp \<longleftrightarrow>
     plausible_rotation d az tp \<and> crosses_start d az \<and> hasCallback (d_cfg d) \<and> has_points d"

definition finish_frame :: "drv_env \<Rightarrow> nat \<Rightarrow> packet_msg \<Rightarrow> driver \<Rightarrow> (outcome \<times> driver) option" where
  "finish_frame e lasers raw d = do {
     cor \<leftarrow> SaveCorrectionFile (base e) (d_tbl d) lasers;
     d \<leftarrow> EmitBackMessege lasers (d\<lparr>scan := scan d @ [cor]\<rparr>);
     Some (with_stamp e raw (computeTransformToTarget e) (d\<lparr>scan := []\<rparr>))
   }"

text \<open>
  The loop over the blocks, the same text for the five packet formats: \<open>az i\<close> is the azimuth of
  block \<open>i\<close>, \<open>tp\<close> the packet's time, \<open>lasers\<close> the laser count and \<open>calc\<close> the format's point
  computation.
\<close>

definition process_block ::
  "drv_env \<Rightarrow> bool \<Rightarrow> nat \<Rightarrow> packet_msg \<Rightarrow> fp \<Rightarrow> u16 \<Rightarrow> (driver \<Rightarrow> nat \<Rightarrow> point option option) \<Rightarrow>
   driver \<Rightarrow> (outcome \<times> driver) option" where
  "process_block e unbraced lasers raw tp az calc d = do {
     (r, d) \<leftarrow> (if frame_ends d az tp then finish_frame e lasers raw d else Some (Next, d));
     if r \<noteq> Next then Some (r, d)
     else do {
       d \<leftarrow> calc_units unbraced calc lasers 0 d;
       Some (Next, d\<lparr>lastAzimuth := az, lastTimestamp := tp\<rparr>)
     }
   }"

fun process_blocks ::
  "drv_env \<Rightarrow> bool \<Rightarrow> nat \<Rightarrow> packet_msg \<Rightarrow> fp \<Rightarrow> (nat \<Rightarrow> u16 option) \<Rightarrow>
   (nat \<Rightarrow> driver \<Rightarrow> nat \<Rightarrow> point option option) \<Rightarrow> nat \<Rightarrow> nat \<Rightarrow> driver \<Rightarrow> (outcome \<times> driver) option" where
  "process_blocks e unbraced lasers raw tp az calc 0 i d = Some (Next, d)"
| "process_blocks e unbraced lasers raw tp az calc (Suc n) i d = do {
     a \<leftarrow> az i;
     (r, d) \<leftarrow> process_block e unbraced lasers raw tp a (calc i) d;
     if r \<noteq> Next then Some (r, d)
     else process_blocks e unbraced lasers raw tp az calc n (Suc i) d
   }"

section \<open>Packets\<close>

text \<open>The raw packet message; \<^verbatim>\<open>&rawpacket.data[0]\<close> needs a non-empty vector.\<close>

definition raw_message :: "PandarPacket \<Rightarrow> packet_msg option" where
  "raw_message p = do {
     let fl = fp_floor (pp_stamp p);
     s \<leftarrow> to_i32 fl;
     ns \<leftarrow> to_u32 (d_mul (d_sub (pp_stamp p) fl) (d_int 1000000000));
     if 0 < pp_size p \<and> pp_size p \<le> length (pp_data p)
     then Some \<lparr>msg_sec = s, msg_nanosec = ns, msg_data = take (pp_size p) (pp_data p), msg_size = pp_size p\<rparr>
     else None
   }"

text \<open>The statements after the branches.\<close>

definition finish_packet :: "outcome \<times> driver \<Rightarrow> outcome \<times> driver" where
  "finish_packet rs =
     (case rs of (r, d) \<Rightarrow>
        (r, if r = Next then d\<lparr>outMsg := (outMsg d)\<lparr>cl_frame_id := frameId (d_cfg d), cl_height := 1\<rparr>\<rparr> else d))"

definition prepare_transform :: "drv_env \<Rightarrow> packet_msg \<Rightarrow> driver \<Rightarrow> outcome \<times> driver" where
  "prepare_transform e raw d = with_stamp e raw (computeTransformToFixed e) (manage_tf_buffer d)"

definition process_40p :: "drv_env \<Rightarrow> PandarPacket \<Rightarrow> packet_msg \<Rightarrow> Pandar40PPacket \<Rightarrow> driver \<Rightarrow>
   (outcome \<times> driver) option" where
  "process_40p e p raw pkt0 d = do {
     (ret, pkt) \<leftarrow> ParseRawData (mktime_fn (base e)) pkt0 (pp_data p) (pp_size p);
     if ret \<noteq> 0 then Some (Next, d)
     else map_option finish_packet
       (process_blocks e False LASER_COUNT raw (p40_timestamp_point pkt)
          (\<lambda>i. map_option p40_azimuth (rd (p40_blocks pkt) i))
          (\<lambda>b d. calc_40p_unit (ctx_of d) pkt b)
          BLOCKS_PER_PACKET 0 (d\<lparr>scan := scan d @ [raw]\<rparr>))
   }"

text \<open>The header of Pandar64, Pandar20, QT and XT packets gives the loop bounds.\<close>

definition process_general ::
  "drv_env \<Rightarrow> bool \<Rightarrow> packet_msg \<Rightarrow> byte \<Rightarrow> byte \<Rightarrow> ('h, 'u, 'z) lidar_packet_scheme \<Rightarrow>
   (nat \<Rightarrow> driver \<Rightarrow> nat \<Rightarrow> point option option) \<Rightarrow> driver \<Rightarrow> (outcome \<times> driver) option" where
  "process_general e unbraced raw lasers nblocks pkt calc d =
     (let cs = char_signed (base e)
      in map_option finish_packet
           (process_blocks e unbraced (char_count cs lasers) raw (timestamp_point pkt)
              (\<lambda>i. map_option azimuth (rd (blocks pkt) i)) calc (char_count cs nblocks) 0
              (d\<lparr>scan := scan d @ [raw]\<rparr>)))"

definition process_l64 :: "drv_env \<Rightarrow> PandarPacket \<Rightarrow> packet_msg \<Rightarrow> HS_LIDAR_L64_Packet \<Rightarrow> driver \<Rightarrow>
   (outcome \<times> driver) option" where
  "process_l64 e p raw pkt0 d = do {
     (ret, pkt) \<leftarrow> ParseL64Data (char_signed (base e)) (mktime_fn (base e)) pkt0 (pp_data p) (pp_size p);
     if ret \<noteq> 0 then Some (Next, d)
     else process_general e False raw (chLaserNumber (header pkt)) (chBlockNumber (header pkt)) pkt
       (\<lambda>b d. calc_l64_unit (ctx_of d) pkt b) d
   }"

definition process_l20 :: "drv_env \<Rightarrow> PandarPacket \<Rightarrow> packet_msg \<Rightarrow> HS_LIDAR_L20_Packet \<Rightarrow> driver \<Rightarrow>
   (outcome \<times> driver) option" where
  "process_l20 e p raw pkt0 d = do {
     (ret, pkt) \<leftarrow> ParseL20Data (char_signed (base e)) (mktime_fn (base e)) pkt0 (pp_data p) (pp_size p);
     if ret \<noteq> 0 then Some (Next, d)
     else process_general e False raw (chLaserNumber (header pkt)) (chBlockNumber (header pkt)) pkt
       (\<lambda>b d. calc_l20_unit (ctx_of d) pkt b) d
   }"

definition process_qt :: "drv_env \<Rightarrow> PandarPacket \<Rightarrow> packet_msg \<Rightarrow> HS_LIDAR_QT_Packet \<Rightarrow> driver \<Rightarrow>
   (outcome \<times> driver) option" where
  "process_qt e p raw pkt0 d = do {
     (ret, pkt) \<leftarrow> ParseQTData (char_signed (base e)) (mktime_fn (base e)) pkt0 (pp_data p) (pp_size p);
     if ret \<noteq> 0 then Some (Next, d)
     else process_general e True raw (chLaserNumber (header pkt)) (chBlockNumber (header pkt)) pkt
       (\<lambda>b d. calc_qt_unit (base e) (ctx_of d) pkt b) d
   }"

text \<open>The sequence check of XT packets: the counters, and whether the packet is kept.\<close>

definition observe_sequence :: "u32 \<Rightarrow> fp \<Rightarrow> driver \<Rightarrow> bool \<times> driver" where
  "observe_sequence n stamp d =
     (let (dec, t) = seq_observe (seqTracker d) n stamp;
          d = d\<lparr>seqTracker := t\<rparr>
      in case seq_status dec of
           SeqForwardGap \<Rightarrow> (True, d\<lparr>sequenceGapPackets := sequenceGapPackets d + ucast (seq_missing dec)\<rparr>)
         | SeqDuplicate \<Rightarrow> (False, d\<lparr>sequenceDuplicates := sequenceDuplicates d + 1\<rparr>)
         | SeqBackward \<Rightarrow> (False, d\<lparr>sequenceBackwards := sequenceBackwards d + 1\<rparr>)
         | SeqRestartAfterIdle \<Rightarrow> (True, d\<lparr>sequenceRestarts := sequenceRestarts d + 1\<rparr>)
         | _ \<Rightarrow> (True, d))"

definition process_xt :: "drv_env \<Rightarrow> PandarPacket \<Rightarrow> packet_msg \<Rightarrow> HS_LIDAR_XT_Packet \<Rightarrow> driver \<Rightarrow>
   (outcome \<times> driver) option" where
  "process_xt e p raw pkt0 d = do {
     (ret, pkt) \<leftarrow> ParseXTData (char_signed (base e)) (mktime_fn (base e)) pkt0 (pp_data p) (pp_size p);
     if ret \<noteq> 0 then Some (Next, d)
     else
       (case observe_sequence (udp_sequence pkt) (pp_stamp p) d of
          (False, d) \<Rightarrow> Some (Next, d)
        | (True, d) \<Rightarrow>
            process_general e False raw (chLaserNumber (header pkt)) (chBlockNumber (header pkt)) pkt
              (\<lambda>b d. calc_xt_unit (ctx_of d) pkt b) d)
   }"

section \<open>The processing thread\<close>

text \<open>
  The packet objects on the stack: headers are zeroed by their constructors, the arrays hold old
  values, all of which the parsers overwrite before they are read.
\<close>

definition stack_40p :: Pandar40PPacket where
  "stack_40p = \<lparr>p40_blocks = replicate BLOCKS_PER_PACKET \<lparr>p40_azimuth = 0, p40_sob = 0,
       p40_units = replicate LASER_COUNT \<lparr>p40_intensity = 0, p40_distance = d_int 0\<rparr>\<rparr>,
     p40_t = \<lparr>tm_year = 0, tm_mon = 0, tm_mday = 0, tm_hour = 0, tm_min = 0, tm_sec = 0, tm_isdst = 0\<rparr>,
     p40_usec = 0, p40_echo = 0, p40_timestamp_point = d_int 0, p40_spin_speed = f_int 0\<rparr>"

definition is_40p_size :: "nat \<Rightarrow> bool" where
  "is_40p_size n \<longleftrightarrow> n = PACKET_SIZE \<or> n = PACKET_SIZE + SEQ_NUM_SIZE"

definition is_l64_size :: "nat \<Rightarrow> bool" where
  "is_l64_size n \<longleftrightarrow> n = HS_LIDAR_L64_6PACKET_SIZE \<or> n = HS_LIDAR_L64_7PACKET_SIZE \<or>
     n = HS_LIDAR_L64_6PACKET_WITHOUT_UDPSEQ_SIZE \<or> n = HS_LIDAR_L64_7PACKET_WITHOUT_UDPSEQ_SIZE"

definition is_qt_size :: "nat \<Rightarrow> bool" where
  "is_qt_size n \<longleftrightarrow> n = HS_LIDAR_QT_PACKET_SIZE \<or> n = HS_LIDAR_QT_PACKET_WITHOUT_UDPSEQ_SIZE"

definition is_xt_size :: "string \<Rightarrow> nat \<Rightarrow> bool" where
  "is_xt_size t n \<longleftrightarrow>
     (n = HS_LIDAR_XT_PACKET_SIZE \<and> (t = ''XT'' \<or> t = ''PandarXT-32'')) \<or>
     (n = HS_LIDAR_XT16_PACKET_SIZE \<and> t = ''PandarXT-16'') \<or>
     (n = HS_LIDAR_XTM_PACKET_SIZE \<and> t = ''PandarXTM'')"

text \<open>Every format prepares the transform and then parses.\<close>

definition prepared ::
  "drv_env \<Rightarrow> packet_msg \<Rightarrow> (driver \<Rightarrow> (outcome \<times> driver) option) \<Rightarrow> driver \<Rightarrow> (outcome \<times> driver) option" where
  "prepared e raw f d =
     (case prepare_transform e raw d of (r, d) \<Rightarrow> if r = Next then f d else Some (r, d))"

definition dispatch_packet ::
  "drv_env \<Rightarrow> PandarPacket \<Rightarrow> packet_msg \<Rightarrow> driver \<Rightarrow> (outcome \<times> driver) option" where
  "dispatch_packet e p raw d =
     (let n = pp_size p
      in if is_40p_size n then prepared e raw (process_40p e p raw stack_40p) d
         else if is_l64_size n
           then prepared e raw (process_l64 e p raw (blank_packet blank_l64_header blank_l64_unit 7 64)) d
         else if n = HS_LIDAR_L20_PACKET_SIZE
           then prepared e raw (process_l20 e p raw (blank_packet blank_l64_header blank_l64_unit 20 20)) d
         else if is_qt_size n
           then prepared e raw (process_qt e p raw (blank_packet blank_xt_header blank_xt_unit 4 64)) d
         else if is_xt_size (lidarType (d_cfg d)) n
           then prepared e raw (process_xt e p raw blank_xt_packet) d
         else Some (Next, d))"

text \<open>The body of the \<^verbatim>\<open>while\<close> loop for a packet taken from the queue.\<close>

definition process_packet :: "drv_env \<Rightarrow> PandarPacket \<Rightarrow> driver \<Rightarrow> (outcome \<times> driver) option" where
  "process_packet e p d =
     (let d = d\<lparr>processedPackets := processedPackets d + 1\<rparr>;
          (dec, g) = ts_observe (tsGuard d) (pp_stamp p);
          d = d\<lparr>tsGuard := g\<rparr>
      in if \<not> ts_accepted dec then Some (Next, d\<lparr>timestampRegressions := timestampRegressions d + 1\<rparr>)
         else do {
           raw \<leftarrow> raw_message p;
           dispatch_packet e p raw (d\<lparr>pktTimestamp := pp_stamp p\<rparr>)
         })"

fun process_packets :: "drv_env \<Rightarrow> PandarPacket list \<Rightarrow> driver \<Rightarrow> (outcome \<times> driver) option" where
  "process_packets e [] d = Some (Next, d)"
| "process_packets e (p # ps) d = do {
     (r, d) \<leftarrow> process_packet e p d;
     if r = Next then process_packets e ps d else Some (r, d)
   }"

text \<open>
  \<^verbatim>\<open>ProcessLiarPacket\<close> on the packets it takes from the queue until the thread is stopped:
  fresh locals, the first transform, then the loop.
\<close>

definition ProcessLiarPacket :: "drv_env \<Rightarrow> PandarPacket list \<Rightarrow> driver \<Rightarrow> (outcome \<times> driver) option" where
  "ProcessLiarPacket e ps d =
     (case computeTransformToTarget e (clock_now e) (d\<lparr>outMsg := empty_cloud, scan := []\<rparr>) of (r, d) \<Rightarrow>
        if r = Next then process_packets e ps d else Some (r, d))"

section \<open>The queue\<close>

definition PACKET_BUFFER_STORAGE_SIZE :: nat where "PACKET_BUFFER_STORAGE_SIZE = 36000"
definition MAX_PACKET_BACKLOG :: nat where "MAX_PACKET_BACKLOG = 400"

record receiver =
  packetsBuffer :: "PandarPacket spsc"
  queueOverloadDrops :: u64
  enqueuedPackets :: u64
  maxQueueDepthObserved :: nat
  gpsTimes :: "fp list"

definition PushLiDARData :: "PandarPacket \<Rightarrow> receiver \<Rightarrow> receiver" where
  "PushLiDARData p r =
     (case try_push PACKET_BUFFER_STORAGE_SIZE MAX_PACKET_BACKLOG p (packetsBuffer r) of (ok, depth, q) \<Rightarrow>
        if \<not> ok then r\<lparr>packetsBuffer := q, queueOverloadDrops := queueOverloadDrops r + 1\<rparr>
        else r\<lparr>packetsBuffer := q, enqueuedPackets := enqueuedPackets r + 1,
               maxQueueDepthObserved := max (maxQueueDepthObserved r) (case depth of None \<Rightarrow> 0 | Some n \<Rightarrow> n)\<rparr>)"

text \<open>
  The \<^verbatim>\<open>memcpy\<close> of \<^verbatim>\<open>FillPacket\<close> must stay inside \<^verbatim>\<open>pkt.data\<close>, whose old
  contents remain after the copied bytes.
\<close>

definition FillPacket :: "byte list \<Rightarrow> byte list \<Rightarrow> nat \<Rightarrow> fp \<Rightarrow> receiver \<Rightarrow> receiver option" where
  "FillPacket old buf len stamp r =
     (if len = GPS_PACKET_SIZE then Some r
      else if len \<le> length buf \<and> len \<le> length old
        then Some (PushLiDARData \<lparr>pp_stamp = stamp,
               pp_data = take len buf @ drop len old, pp_size = len\<rparr> r)
        else None)"

text \<open>One turn of \<^verbatim>\<open>RecvTask\<close>; \<^term>\<open>None\<close> for \<open>pk\<close> is \<^verbatim>\<open>getPacket\<close> returning -1.\<close>

definition RecvTask_turn ::
  "env \<Rightarrow> int \<Rightarrow> bool \<Rightarrow> PandarGPS \<Rightarrow> PandarPacket option \<Rightarrow> receiver \<Rightarrow> receiver option" where
  "RecvTask_turn e tz gps_callback gps0 pk r =
     (case pk of
        None \<Rightarrow> Some r
      | Some p \<Rightarrow>
          if pp_size p = GPS_PACKET_SIZE then do {
            (ret, g) \<leftarrow> ParseGPS gps0 (pp_data p) (pp_size p);
            Some (if ret = 0 \<and> gps_callback
                  then r\<lparr>gpsTimes := gpsTimes r @ [ProcessGps (mktime_fn e) tz g]\<rparr> else r)
          }
          else Some (PushLiDARData p r))"

section \<open>Start and stop\<close>

definition Stop_state :: "driver \<Rightarrow> receiver \<Rightarrow> driver \<times> receiver" where
  "Stop_state d r =
     (d\<lparr>tsGuard := ts_reset (tsGuard d), seqTracker := seq_reset (seqTracker d)\<rparr>,
      r\<lparr>packetsBuffer := spsc_reset (packetsBuffer r)\<rparr>)"

definition Start_state :: "driver \<Rightarrow> receiver \<Rightarrow> driver \<times> receiver" where
  "Start_state d r =
     (case Stop_state d r of (d, r) \<Rightarrow>
        (d\<lparr>tsGuard := ts_reset (tsGuard d), seqTracker := seq_reset (seqTracker d), lastAzimuth := 0,
           lastTimestamp := d_int 0, pointIndex := 0,
           pointCloudList := map (\<lambda>ps. []) (pointCloudList d)\<rparr>,
         r\<lparr>packetsBuffer := spsc_reset (packetsBuffer r)\<rparr>))"

definition ResetStartAngle :: "u16 \<Rightarrow> driver \<Rightarrow> driver" where
  "ResetStartAngle a d = d\<lparr>d_cfg := (d_cfg d)\<lparr>startAngle := uint a\<rparr>\<rparr>"

end
