(* ===== verification/Correction_File.thy ===== *)
theory Correction_File
  imports Driver
begin

text \<open>
  The calibration file, a table of three comma-separated columns: reading it
  (\<^verbatim>\<open>LoadCorrectionFile\<close>), and the replay of a recorded scan (\<^verbatim>\<open>PushScanPacket\<close>), whose
  correction packet is loaded the same way. What the code uses of the streams of the standard
  library is modelled here: \<^verbatim>\<open>std::getline\<close> and the extraction of an \<^verbatim>\<open>int\<close> and of a
  \<^verbatim>\<open>double\<close>, with the value they leave when they fail. A variable that was never assigned is
  \<^term>\<open>None\<close>, and its use is undefined, as is a write outside an array and a C string without
  a terminator.
\<close>

section \<open>Streams\<close>

text \<open>The characters left and the end-of-file flag.\<close>

type_synonym stream = "string \<times> bool"

definition open_stream :: "string \<Rightarrow> stream" where
  "open_stream s = (s, False)"

text \<open>
  \<^verbatim>\<open>std::getline(stream, str, d)\<close>: whether it succeeds, the new value of \<open>str\<close> and the
  stream. At the end of the file \<open>str\<close> keeps its old value.
\<close>

definition getline :: "char \<Rightarrow> stream \<Rightarrow> string \<Rightarrow> bool \<times> string \<times> stream" where
  "getline d st old =
     (if snd st then (False, old, st)
      else
        (let l = takeWhile (\<lambda>c. c \<noteq> d) (fst st)
         in case dropWhile (\<lambda>c. c \<noteq> d) (fst st) of
              [] \<Rightarrow> (l \<noteq> [], l, ([], True))
            | _ # r \<Rightarrow> (True, l, (r, False))))"

definition is_space :: "char \<Rightarrow> bool" where
  "is_space c \<longleftrightarrow> c \<in> {CHR '' '', CHR 0x09, CHR 0x0A, CHR 0x0B, CHR 0x0C, CHR 0x0D}"

definition is_digit :: "char \<Rightarrow> bool" where
  "is_digit c \<longleftrightarrow> 48 \<le> (of_char c :: nat) \<and> (of_char c :: nat) \<le> 57"

definition digits_value :: "string \<Rightarrow> nat" where
  "digits_value = foldl (\<lambda>n c. 10 * n + (of_char c - 48)) 0"

fun take_sign :: "string \<Rightarrow> bool \<times> string" where
  "take_sign (c # cs) = (if c = CHR ''-'' then (True, cs) else if c = CHR ''+'' then (False, cs) else (False, c # cs))"
| "take_sign [] = (False, [])"

text \<open>
  \<^verbatim>\<open>std::stringstream(s) >> n\<close> for an \<^verbatim>\<open>int\<close>: nothing but white space leaves the old
  value, no digits give 0, and a number out of range the nearest one in range.
\<close>

definition stream_int :: "string \<Rightarrow> int \<Rightarrow> int" where
  "stream_int s old =
     (case dropWhile is_space s of
        [] \<Rightarrow> old
      | t \<Rightarrow>
          (let (neg, u) = take_sign t;
               v = int (digits_value (takeWhile is_digit u))
           in max (- 2147483648) (min 2147483647 (if neg then - v else v))))"

definition DBL_MAX :: rat where
  "DBL_MAX = of_int (2 ^ 53 - 1) * pow2 971"

text \<open>
  The same for a \<^verbatim>\<open>double\<close>; \<^term>\<open>None\<close> leaves the old value. The number is an optional
  sign, digits with at most one point and an exponent after a digit, rounded to the format; what
  is not a number gives 0, and a number out of range the largest one.
\<close>

definition take_exponent :: "string \<Rightarrow> int option" where
  "take_exponent s =
     (case s of
        c # cs \<Rightarrow>
          if c = CHR ''e'' \<or> c = CHR ''E''
          then
            (let (neg, u) = take_sign cs; ds = takeWhile is_digit u
             in if ds = [] then None else Some (if neg then - int (digits_value ds) else int (digits_value ds)))
          else Some 0
      | [] \<Rightarrow> Some 0)"

definition stream_double :: "string \<Rightarrow> fp option" where
  "stream_double s =
     (case dropWhile is_space s of
        [] \<Rightarrow> None
      | t \<Rightarrow>
          (let (neg, u) = take_sign t;
               ip = takeWhile is_digit u;
               u = dropWhile is_digit u;
               (fr, u) = (case u of
                            c # cs \<Rightarrow> if c = CHR ''.'' then (takeWhile is_digit cs, dropWhile is_digit cs) else ([], u)
                          | [] \<Rightarrow> ([], []))
           in Some
                (if ip = [] \<and> fr = [] then d_int 0
                 else
                   (case take_exponent u of
                      None \<Rightarrow> d_int 0
                    | Some ex \<Rightarrow>
                        (let m = of_nat (digits_value (ip @ fr)) * power_int 10 (ex - int (length fr))
                         in case fp_round binary64 neg (if neg then - m else m) of
                              Inf z \<Rightarrow> Fin z DBL_MAX
                            | x \<Rightarrow> x)))))"

section \<open>Loading\<close>

text \<open>The three columns of a line: the number, the elevation and the azimuth offset.\<close>

definition parse_line :: "string \<Rightarrow> int \<times> fp option \<times> fp option" where
  "parse_line line =
     (let (_, s1, st) = getline (CHR '','') (open_stream line) [];
          lineId = stream_int s1 0;
          (_, s2, st) = getline (CHR '','') st s1;
          elev = stream_double s2;
          (_, s3, st) = getline (CHR '','') st s2;
          azim = stream_double s3
      in (lineId, elev, azim))"

record angles =
  lineCounter :: nat
  elev_angle :: "fp option list"
  azimuthOffset :: "fp option list"

definition store_line :: "int \<Rightarrow> fp option \<Rightarrow> fp option \<Rightarrow> angles \<Rightarrow> angles option" where
  "store_line lineId elev azim a = do {
     e \<leftarrow> elev;
     es \<leftarrow> wr (elev_angle a) (nat (lineId - 1)) (Some e);
     z \<leftarrow> azim;
     zs \<leftarrow> wr (azimuthOffset a) (nat (lineId - 1)) (Some z);
     Some (a\<lparr>elev_angle := es, azimuthOffset := zs\<rparr>)
   }"

text \<open>
  The body of the loop; the Boolean says whether it goes on. A line whose number is not the next
  one ends the loop after the counter has been incremented.
\<close>

definition load_line :: "string \<Rightarrow> angles \<Rightarrow> (bool \<times> angles) option" where
  "load_line line a =
     (if length line < 5 then Some (False, a)
      else
        (let a = a\<lparr>lineCounter := lineCounter a + 1\<rparr>;
             (lineId, elev, azim) = parse_line line
         in if lineId \<noteq> int (lineCounter a) then Some (False, a)
            else map_option (Pair True) (store_line lineId elev azim a)))"

lemma getline_shrinks:
  assumes "getline d st old = (True, l, st')"
  shows "length (fst st') + (if snd st' then 0 else 1) < length (fst st) + (if snd st then 0 else 1)"
proof (cases "dropWhile (\<lambda>c. c \<noteq> d) (fst st)")
  case Nil
  from assms [unfolded getline_def Nil Let_def] show ?thesis by (auto split: if_splits)
next
  case (Cons c r)
  have "length (dropWhile (\<lambda>c. c \<noteq> d) (fst st)) \<le> length (fst st)" by (rule length_dropWhile_le)
  with Cons assms [unfolded getline_def Cons Let_def] show ?thesis by (auto split: if_splits)
qed

function load_lines :: "stream \<Rightarrow> string \<Rightarrow> angles \<Rightarrow> angles option" where
  "load_lines st line a =
     (case getline (CHR 0x0A) st line of (ok, line', st') \<Rightarrow>
        if \<not> ok then Some a
        else
          (case load_line line' a of
             None \<Rightarrow> None
           | Some (go, a') \<Rightarrow> if go then load_lines st' line' a' else Some a'))"
  by pat_completeness auto
termination
  by (relation "measure (\<lambda>(st, line, a). length (fst st) + (if snd st then 0 else 1))")
    (auto dest!: getline_shrinks [OF sym])

declare load_lines.simps [simp del]

text \<open>The elements \<open>0, ..., n - 1\<close> of the local arrays, converted to \<^verbatim>\<open>float\<close>.\<close>

fun copy_angles :: "nat \<Rightarrow> fp option list \<Rightarrow> fp list option" where
  "copy_angles 0 xs = Some []"
| "copy_angles (Suc n) xs = do {
     ys \<leftarrow> copy_angles n xs;
     x \<leftarrow> geti xs n;
     Some (ys @ [to_float x])
   }"

definition LoadCorrectionFile :: "(fp \<Rightarrow> fp) \<Rightarrow> (fp \<Rightarrow> fp) \<Rightarrow> string \<Rightarrow> tables \<Rightarrow> (int \<times> tables) option" where
  "LoadCorrectionFile sinf cosf correction_content tb = do {
     let (_, line, ifs) = getline (CHR 0x0A) (open_stream correction_content) [];
     let unset = replicate HS_LIDAR_L64_UNIT_NUM None;
     a \<leftarrow> load_lines ifs line \<lparr>lineCounter = 0, elev_angle = unset, azimuthOffset = unset\<rparr>;
     es \<leftarrow> copy_angles (lineCounter a) (elev_angle a);
     zs \<leftarrow> copy_angles (lineCounter a) (azimuthOffset a);
     Some (0, tb\<lparr>General_elev_angle_map := map Some es @ drop (lineCounter a) (General_elev_angle_map tb),
                 General_horizatal_azimuth_offset_map :=
                   map Some zs @ drop (lineCounter a) (General_horizatal_azimuth_offset_map tb),
                 sin_elevation_map := map (\<lambda>e. sinf (to_float (degreeToRadian e))) es,
                 cos_elevation_map := map (\<lambda>e. cosf (to_float (degreeToRadian e))) es\<rparr>)
   }"

section \<open>C strings\<close>

definition text_of :: "byte list \<Rightarrow> string" where
  "text_of bs = map (\<lambda>b. char_of (unat b)) bs"

text \<open>\<^verbatim>\<open>std::string(buffer)\<close> from a buffer: the bytes before the first zero, which must be there.\<close>

definition string_of_buffer :: "byte list \<Rightarrow> string option" where
  "string_of_buffer bs = (if 0 \<in> set bs then Some (text_of (takeWhile (\<lambda>b. b \<noteq> 0) bs)) else None)"

text \<open>
  Reading a whole file into \<^verbatim>\<open>new char[length]\<close> and making a string of it: the buffer has no
  room for a terminator.
\<close>

definition load_file ::
  "(fp \<Rightarrow> fp) \<Rightarrow> (fp \<Rightarrow> fp) \<Rightarrow> byte list \<Rightarrow> tables \<Rightarrow> (int \<times> tables) option" where
  "load_file sinf cosf contents tb = do {
     s \<leftarrow> string_of_buffer contents;
     LoadCorrectionFile sinf cosf s tb
   }"

section \<open>Replay of a scan\<close>

record replay =
  rp_tables :: tables
  rp_flag :: bool
  rp_receiver :: receiver

definition SetCorrectionFileFlag :: "bool \<Rightarrow> replay \<Rightarrow> replay" where
  "SetCorrectionFileFlag flag r = r\<lparr>rp_flag := flag\<rparr>"

text \<open>
  A packet of the scan. \<open>file\<close> is what is found at \<^verbatim>\<open>correction_file_path_\<close>, if it can be
  opened, and \<open>old\<close> the old contents of the local packet buffer. The announced length is compared
  as an unsigned number and is the size of a local array, which must be positive. The flag is
  set in all cases in the end.
\<close>

definition load_correction_packet ::
  "(fp \<Rightarrow> fp) \<Rightarrow> (fp \<Rightarrow> fp) \<Rightarrow> byte list option \<Rightarrow> packet_msg \<Rightarrow> replay \<Rightarrow> replay option" where
  "load_correction_packet sinf cosf file m r = do {
     bs \<leftarrow> rd_bytes (msg_data m) 4 4;
     let correction_lenth = be32 (bs ! 0) (bs ! 1) (bs ! 2) (bs ! 3);
     r \<leftarrow> (if unat correction_lenth = msg_size m
           then if sint correction_lenth \<le> 0 then None else do {
             buffer \<leftarrow> rd_bytes (msg_data m) 8 (msg_size m);
             s \<leftarrow> string_of_buffer buffer;
             (ret, tb) \<leftarrow> LoadCorrectionFile sinf cosf s (rp_tables r);
             Some (if ret \<noteq> 0 then r\<lparr>rp_tables := tb\<rparr> else r\<lparr>rp_tables := tb, rp_flag := True\<rparr>)
           }
           else Some r);
     if rp_flag r then Some r
     else
       (case file of
          None \<Rightarrow> Some (r\<lparr>rp_flag := True\<rparr>)
        | Some contents \<Rightarrow> do {
            (ret, tb) \<leftarrow> load_file sinf cosf contents (rp_tables r);
            Some (r\<lparr>rp_tables := tb, rp_flag := True\<rparr>)
          })
   }"

definition push_scan_packet ::
  "(fp \<Rightarrow> fp) \<Rightarrow> (fp \<Rightarrow> fp) \<Rightarrow> byte list option \<Rightarrow> byte list \<Rightarrow> packet_msg \<Rightarrow> replay \<Rightarrow> replay option" where
  "push_scan_packet sinf cosf file old m r = do {
     b0 \<leftarrow> rd (msg_data m) 0;
     b1 \<leftarrow> (if b0 = 0x47 then rd (msg_data m) 1 else Some 0);
     if b0 = 0x47 \<and> b1 = 0x74
     then (if rp_flag r then Some r else load_correction_packet sinf cosf file m r)
     else do {
       bs \<leftarrow> rd_bytes (msg_data m) 0 (msg_size m);
       if msg_size m \<le> length old
       then Some (r\<lparr>rp_receiver := PushLiDARData
              \<lparr>pp_stamp = d_add (d_int (msg_sec m)) (d_div (d_int (msg_nanosec m)) (d_lit 1000000000)),
               pp_data = bs @ drop (msg_size m) old, pp_size = msg_size m\<rparr> (rp_receiver r)\<rparr>)
       else None
     }
   }"

fun PushScanPacket ::
  "(fp \<Rightarrow> fp) \<Rightarrow> (fp \<Rightarrow> fp) \<Rightarrow> byte list option \<Rightarrow> byte list \<Rightarrow> packet_msg list \<Rightarrow> replay \<Rightarrow> replay option" where
  "PushScanPacket sinf cosf file old [] r = Some r"
| "PushScanPacket sinf cosf file old (m # ms) r = do {
     r \<leftarrow> push_scan_packet sinf cosf file old m r;
     PushScanPacket sinf cosf file old ms r
   }"

end
