(* ===== verification/Packet_Roundtrip.thy ===== *)
theory Packet_Roundtrip
  imports Packet_Parsers
begin

text \<open>
  What the parsers recover: an encoder of XT datagrams written from the layout comments of
  \<^verbatim>\<open>pandarXT.h\<close> and the round trip through \<^verbatim>\<open>ParseXTData\<close>; the 40P parser is total and
  its filter never fires; the GPS digits.
\<close>

section \<open>An encoder for XT datagrams\<close>

type_synonym xt_sample = "u16 \<times> byte \<times> byte"

record xt_msg =
  m_major :: byte
  m_minor :: byte
  m_reserved1 :: "byte list"
  m_return :: byte
  m_unit :: byte
  m_reserved2 :: "byte list"
  m_blocks :: "(u16 \<times> xt_sample list) list"
  m_reserved3 :: "byte list"
  m_echo :: byte
  m_spin :: u16
  m_utc :: "byte list"
  m_ts :: u32
  m_factory :: byte
  m_seq :: u32

fun enc_sample :: "xt_sample \<Rightarrow> byte list" where
  "enc_sample (r, i, c) = [byte_of 0 r, byte_of 1 r, i, c]"

fun enc_block :: "u16 \<times> xt_sample list \<Rightarrow> byte list" where
  "enc_block (az, us) = [byte_of 0 az, byte_of 1 az] @ concat (map enc_sample us)"

definition m_lasers :: "xt_msg \<Rightarrow> nat" where
  "m_lasers m = (case m_blocks m of [] \<Rightarrow> 0 | (az, us) # bs \<Rightarrow> length us)"

definition enc_head :: "xt_msg \<Rightarrow> byte list" where
  "enc_head m =
     [0xEE, 0xFF, m_major m, m_minor m] @ m_reserved1 m @
     [of_nat (m_lasers m), of_nat (length (m_blocks m)), m_return m, m_unit m] @ m_reserved2 m"

definition enc_tail :: "xt_msg \<Rightarrow> byte list" where
  "enc_tail m =
     m_reserved3 m @ [m_echo m, byte_of 0 (m_spin m), byte_of 1 (m_spin m)] @ m_utc m @
     map (\<lambda>k. byte_of k (m_ts m)) [0, 1, 2, 3] @ [m_factory m] @
     map (\<lambda>k. byte_of k (m_seq m)) [0, 1, 2, 3]"

definition encode_xt :: "xt_msg \<Rightarrow> byte list" where
  "encode_xt m = enc_head m @ concat (map enc_block (m_blocks m)) @ enc_tail m"

text \<open>The three products: XT-32, XT-16 and XTM.\<close>

definition wf_xt_msg :: "xt_msg \<Rightarrow> bool" where
  "wf_xt_msg m \<longleftrightarrow>
     length (m_reserved1 m) = 2 \<and> length (m_reserved2 m) = 2 \<and> length (m_reserved3 m) = 10 \<and>
     length (m_utc m) = 6 \<and> list_all (\<lambda>(az, us). length us = m_lasers m) (m_blocks m) \<and>
     (length (m_blocks m), m_lasers m) \<in> {(8, 32), (8, 16), (6, 32)}"

section \<open>Reading an encoded buffer\<close>

lemma rd_offset: "length xs = n \<Longrightarrow> rd (xs @ ys) (n + i) = rd ys i"
  by (auto simp: rd_def nth_append)

lemma rd_offset0: "length xs = n \<Longrightarrow> rd (xs @ ys) n = rd ys 0"
  using rd_offset [of xs n ys 0] by simp

lemma rd_le16_offset: "length xs = n \<Longrightarrow> rd_le16 (xs @ ys) (n + i) = rd_le16 ys i"
  using rd_offset [of xs n ys i] rd_offset [of xs n ys "i + 1"] by (simp add: rd_le16_def add.assoc)

lemma rd_le32_offset: "length xs = n \<Longrightarrow> rd_le32 (xs @ ys) (n + i) = rd_le32 ys i"
  using rd_offset [of xs n ys i] rd_offset [of xs n ys "i + 1"] rd_offset [of xs n ys "i + 2"]
    rd_offset [of xs n ys "i + 3"] by (simp add: rd_le32_def add.assoc)

lemma rd_bytes_offset: "length xs = n \<Longrightarrow> rd_bytes (xs @ ys) (n + i) k = rd_bytes ys i k"
proof (induction k arbitrary: i)
  case (Suc k)
  then show ?case using rd_offset [of xs n ys i] Suc.IH [of "Suc i"] by simp
qed simp

lemma parse_units_enc:
  assumes rdr: "\<And>x pre post. ru (pre @ enc x @ post) (length pre) = Some (dec x)"
    and sz: "\<And>x. length (enc x) = sz" and "unit + length xs \<le> length us" and "length pre = index"
  shows "parse_units ru sz (pre @ concat (map enc xs) @ post) (length xs) unit index us =
    Some (index + length xs * sz, take unit us @ map dec xs @ drop (unit + length xs) us)"
  using assms(3,4)
proof (induction xs arbitrary: pre unit index us)
  case (Cons x xs)
  let ?us = "us[unit := dec x]"
  have u: "ru (pre @ concat (map enc (x # xs)) @ post) index = Some (dec x)"
    using rdr [of pre x "concat (map enc xs) @ post"] Cons.prems by simp
  have "parse_units ru sz ((pre @ enc x) @ concat (map enc xs) @ post) (length xs) (Suc unit)
      (index + sz) ?us =
      Some (index + sz + length xs * sz, take (Suc unit) ?us @ map dec xs @ drop (Suc unit + length xs) ?us)"
    using Cons.prems by (intro Cons.IH) (simp_all add: sz)
  moreover have "take (Suc unit) ?us = take unit us @ [dec x]"
    using Cons.prems by (simp add: take_Suc_conv_app_nth)
  ultimately show ?case using u Cons.prems by (simp add: add.assoc)
qed simp

definition put_block :: "('x \<Rightarrow> 'u) \<Rightarrow> 'u lidar_block \<Rightarrow> u16 \<times> 'x list \<Rightarrow> 'u lidar_block" where
  "put_block dec blk b =
     blk\<lparr>azimuth := fst b, units := map dec (snd b) @ drop (length (snd b)) (units blk)\<rparr>"

lemma parse_blocks_enc:
  assumes rdr: "\<And>x pre post. ru (pre @ enc x @ post) (length pre) = Some (dec x)"
    and sz: "\<And>x. length (enc x) = sz" and nu: "lasers \<le> nu"
    and fmt: "\<And>b. encb b = [byte_of 0 (fst b), byte_of 1 (fst b)] @ concat (map enc (snd b))"
    and "list_all (\<lambda>(az, us). length us = lasers) xs"
    and "block + length xs \<le> length bs" and "length pre = index" and "all_units nu bs"
  shows "parse_blocks ru sz lasers (pre @ concat (map encb xs) @ post) (length xs) block index bs =
    Some (index + length xs * (2 + lasers * sz),
      take block bs @ map2 (put_block dec) (take (length xs) (drop block bs)) xs @
      drop (block + length xs) bs)"
  using assms(5-8)
proof (induction xs arbitrary: pre block index bs)
  case (Cons b xs)
  obtain az us where b: "b = (az, us)" by (cases b)
  let ?blk = "bs ! block" and ?h = "[byte_of 0 az, byte_of 1 az]"
  let ?rest = "concat (map encb xs) @ post"
  have lt: "block < length bs" and us: "length us = lasers" using Cons.prems b by auto
  have ublk: "length us \<le> length (units ?blk)"
    using all_units_nth [OF Cons.prems(4) lt] us nu by simp
  have buf: "pre @ concat (map encb (b # xs)) @ post =
      pre @ ?h @ concat (map enc us) @ ?rest"
    by (simp add: fmt b)
  have az: "rd_le16 (pre @ ?h @ concat (map enc us) @ ?rest) index = Some az"
    using rd_le16_offset [OF Cons.prems(3), of "?h @ concat (map enc us) @ ?rest" 0]
    by (simp add: byte_simps)
  have un: "parse_units ru sz (pre @ ?h @ concat (map enc us) @ ?rest) lasers 0 (index + 2) (units ?blk)
      = Some (index + 2 + lasers * sz, map dec us @ drop lasers (units ?blk))"
    using parse_units_enc [of ru enc dec sz 0 us "units ?blk" "pre @ ?h" "index + 2" ?rest]
      rdr sz ublk Cons.prems(3) us by simp
  let ?bs = "bs[block := put_block dec ?blk b]"
  have len: "length (units (put_block dec ?blk b)) = nu"
    using ublk all_units_nth [OF Cons.prems(4) lt] by (simp add: put_block_def b)
  have "parse_blocks ru sz lasers ((pre @ ?h @ concat (map enc us)) @ concat (map encb xs) @ post)
      (length xs) (Suc block) (index + 2 + lasers * sz) ?bs =
      Some (index + 2 + lasers * sz + length xs * (2 + lasers * sz),
        take (Suc block) ?bs @ map2 (put_block dec) (take (length xs) (drop (Suc block) ?bs)) xs @
        drop (Suc block + length xs) ?bs)"
  proof (intro Cons.IH)
    have "length (concat (map enc us)) = lasers * sz"
      using us by (induction us arbitrary: lasers) (auto simp: sz)
    then show "length (pre @ ?h @ concat (map enc us)) = index + 2 + lasers * sz"
      using Cons.prems(3) by simp
  qed (use Cons.prems len in \<open>auto intro: all_units_update\<close>)
  moreover have "take (Suc block) ?bs = take block bs @ [put_block dec ?blk b]"
    using lt by (simp add: take_Suc_conv_app_nth)
  moreover have "put_block dec ?blk b =
      ?blk\<lparr>azimuth := az, units := map dec us @ drop lasers (units ?blk)\<rparr>"
    by (simp add: put_block_def b us)
  moreover have "take (Suc (length xs)) (drop block bs) = ?blk # take (length xs) (drop (Suc block) bs)"
    using lt by (simp add: Cons_nth_drop_Suc [symmetric])
  ultimately show ?case
    unfolding buf using az un lt by (simp add: add.assoc)
qed simp

section \<open>The round trip\<close>

definition dec_sample :: "bool \<Rightarrow> byte \<Rightarrow> xt_sample \<Rightarrow> HS_LIDAR_XT_Unit" where
  "dec_sample cs dis x =
     \<lparr>distance = unit_distance cs dis (fst x), intensity = ucast (fst (snd x)),
      confidence = ucast (snd (snd x))\<rparr>"

lemma parse_xt_unit_enc:
  "parse_xt_unit cs dis (pre @ enc_sample x @ post) (length pre) = Some (dec_sample cs dis x)"
proof -
  obtain r i c where x: "x = (r, i, c)" by (cases x)
  show ?thesis
    using rd_le16_offset [of pre "length pre" "enc_sample x @ post" 0]
      rd_offset [of pre "length pre" "enc_sample x @ post" 2]
      rd_offset [of pre "length pre" "enc_sample x @ post" 3]
    by (simp add: parse_xt_unit_def x dec_sample_def byte_simps)
qed

lemma length_enc_sample: "length (enc_sample x) = 4"
  by (cases x) simp

lemma length_enc_blocks:
  "list_all (\<lambda>(az, us). length us = l) bs \<Longrightarrow> length (concat (map enc_block bs)) = length bs * (2 + l * 4)"
proof (induction bs)
  case (Cons b bs)
  obtain az us where b: "b = (az, us)" by (cases b)
  have "length (concat (map enc_sample us)) = length us * 4"
    by (induction us) (auto simp: length_enc_sample)
  with Cons b show ?case by simp
qed simp

lemma length_enc_head [simp]: "wf_xt_msg m \<Longrightarrow> length (enc_head m) = 12"
  by (simp add: enc_head_def wf_xt_msg_def)

lemma length_enc_tail [simp]: "wf_xt_msg m \<Longrightarrow> length (enc_tail m) = 28"
  by (simp add: enc_tail_def wf_xt_msg_def)

lemma enc_head_nth:
  assumes "wf_xt_msg m"
  shows "enc_head m ! 0 = 0xEE" "enc_head m ! 1 = 0xFF" "enc_head m ! 2 = m_major m"
    "enc_head m ! 3 = m_minor m" "enc_head m ! 6 = of_nat (m_lasers m)"
    "enc_head m ! 7 = of_nat (length (m_blocks m))" "enc_head m ! 8 = m_return m"
    "enc_head m ! 9 = m_unit m"
proof -
  obtain a b where "m_reserved1 m = [a, b]"
    using assms by (auto simp: wf_xt_msg_def numeral_2_eq_2 length_Suc_conv)
  then show "enc_head m ! 0 = 0xEE" "enc_head m ! 1 = 0xFF" "enc_head m ! 2 = m_major m"
    "enc_head m ! 3 = m_minor m" "enc_head m ! 6 = of_nat (m_lasers m)"
    "enc_head m ! 7 = of_nat (length (m_blocks m))" "enc_head m ! 8 = m_return m"
    "enc_head m ! 9 = m_unit m"
    by (simp_all add: enc_head_def nth_Cons')
qed

lemma enc_tail_reads:
  assumes "wf_xt_msg m"
  shows "rd (enc_tail m @ junk) 10 = Some (m_echo m)"
    "rd_le16 (enc_tail m @ junk) 11 = Some (m_spin m)"
    "rd_bytes (enc_tail m @ junk) 13 6 = Some (m_utc m)"
    "rd_le32 (enc_tail m @ junk) 19 = Some (m_ts m)"
    "rd_le32 (enc_tail m @ junk) 24 = Some (m_seq m)"
proof -
  let ?a = "m_reserved3 m" and ?e = "[m_echo m, byte_of 0 (m_spin m), byte_of 1 (m_spin m)]"
  let ?t = "map (\<lambda>k. byte_of k (m_ts m)) [0, 1, 2, 3]" and ?s = "map (\<lambda>k. byte_of k (m_seq m)) [0, 1, 2, 3]"
  have l: "length ?a = 10" "length (?a @ ?e) = 13" "length (?a @ ?e @ m_utc m) = 19"
    "length (?a @ ?e @ m_utc m @ ?t @ [m_factory m]) = 24"
    using assms by (auto simp: wf_xt_msg_def)
  show "rd (enc_tail m @ junk) 10 = Some (m_echo m)"
    using rd_offset [OF l(1), of "?e @ m_utc m @ ?t @ [m_factory m] @ ?s @ junk" 0]
    by (simp add: enc_tail_def)
  show "rd_le16 (enc_tail m @ junk) 11 = Some (m_spin m)"
    using rd_le16_offset [OF l(1), of "?e @ m_utc m @ ?t @ [m_factory m] @ ?s @ junk" 1]
    by (simp add: enc_tail_def byte_simps)
  show "rd_bytes (enc_tail m @ junk) 13 6 = Some (m_utc m)"
    using rd_bytes_offset [OF l(2), of "m_utc m @ ?t @ [m_factory m] @ ?s @ junk" 0 6] assms
    by (simp add: enc_tail_def wf_xt_msg_def)
  show "rd_le32 (enc_tail m @ junk) 19 = Some (m_ts m)"
    using rd_le32_offset [OF l(3), of "?t @ [m_factory m] @ ?s @ junk" 0]
    by (simp add: enc_tail_def byte_simps)
  show "rd_le32 (enc_tail m @ junk) 24 = Some (m_seq m)"
    using rd_le32_offset [OF l(4), of "?s @ junk" 0]
    by (simp add: enc_tail_def byte_simps)
qed

lemma decode_le32:
  assumes "isSupportedXtPacketSize len" and "len \<le> length d"
  shows "decodeXtUdpSequence (Some d) len True = map_option Some (rd_le32 d (len - 4))"
proof -
  have "len - 4 + 3 < length d"
    using assms by (auto simp: isSupportedXtPacketSize_def kXt16PacketSize_def kXtmPacketSize_def
        kXt32PacketSize_def)
  then show ?thesis using assms(1)
    by (simp add: decodeXtUdpSequence_def kXtSequenceSize_def Let_def)
qed

lemma ParseXTData_encoded:
  assumes wf: "wf_xt_msg m" and arr: "packet_arrays 8 32 packet"
  defines "b \<equiv> length (m_blocks m)"
  shows "\<exists>p. ParseXTData cs mktime packet (encode_xt m @ junk) (length (encode_xt m)) = Some (0, p) \<and>
    header p = \<lparr>sob = 0xEEFF, chLaserNumber = of_nat (m_lasers m), chBlockNumber = of_nat b,
      chReturnType = m_return m, chDisUnit = m_unit m, chProtocolMajor = m_major m,
      chProtocolMinor = m_minor m\<rparr> \<and>
    blocks p = map2 (put_block (dec_sample cs (m_unit m))) (take b (blocks packet)) (m_blocks m) @
      drop b (blocks packet) \<and>
    echo p = ucast (m_echo m) \<and> spin_speed p = f_int (uint (m_spin m)) \<and> addtime p = m_utc m \<and>
    timestamp p = m_ts m \<and> udp_sequence p = m_seq m \<and>
    timestamp_point p = point_time mktime (utc_tm (m_utc m)) (m_ts m)"
proof -
  let ?body = "concat (map enc_block (m_blocks m))" and ?l = "m_lasers m"
  let ?buf = "enc_head m @ ?body @ enc_tail m @ junk"
  define L where "L = 12 + b * (2 + ?l * 4)"
  have bl: "(b, ?l) \<in> {(8, 32), (8, 16), (6, 32)}" and units_l: "list_all (\<lambda>(az, us). length us = ?l) (m_blocks m)"
    using wf by (auto simp: wf_xt_msg_def b_def)
  have body: "length ?body = b * (2 + ?l * 4)" using length_enc_blocks [OF units_l] by (simp add: b_def)
  have pre: "length (enc_head m @ ?body) = L" using body wf by (simp add: L_def)
  have len: "length (encode_xt m) = L + 28" using body wf by (simp add: encode_xt_def L_def)
  have un: "unat (of_nat ?l :: byte) = ?l" "unat (of_nat b :: byte) = b" using bl by auto
  have cc: "char_count cs (of_nat ?l) = ?l" "char_count cs (of_nat b) = b"
    using bl by (auto intro!: trans [OF char_count_small])
  have sup: "isSupportedXtPacketSize (length (encode_xt m))"
    using bl len by (auto simp: isSupportedXtPacketSize_def kXt16PacketSize_def
        kXtmPacketSize_def kXt32PacketSize_def L_def)
  have hd: "i < 12 \<Longrightarrow> ?buf ! i = enc_head m ! i" for i using wf by (simp add: nth_append)
  note tl = enc_tail_reads [OF wf, of junk]
  have reads: "rd ?buf (L + 10) = Some (m_echo m)" "rd_le16 ?buf (L + 11) = Some (m_spin m)"
    "rd_bytes ?buf (L + 13) 6 = Some (m_utc m)" "rd_le32 ?buf (L + 19) = Some (m_ts m)"
    "rd_le32 ?buf (L + 24) = Some (m_seq m)"
    using rd_offset [OF pre, of "enc_tail m @ junk" 10] rd_le16_offset [OF pre, of "enc_tail m @ junk" 11]
      rd_bytes_offset [OF pre, of "enc_tail m @ junk" 13 6] rd_le32_offset [OF pre, of "enc_tail m @ junk" 19]
      rd_le32_offset [OF pre, of "enc_tail m @ junk" 24]
    by (simp_all add: tl)
  have sq: "decodeXtUdpSequence (Some ?buf) (L + 28) True = Some (Some (m_seq m))"
  proof -
    have le: "L + 28 \<le> length ?buf" and e: "L + 28 - 4 = L + 24" using pre wf by simp_all
    show ?thesis using decode_le32 [OF sup [unfolded len] le] unfolding e reads(5) by simp
  qed
  have pb: "parse_blocks (parse_xt_unit cs (m_unit m)) 4 ?l ?buf b 0 12 (blocks packet) =
      Some (L, map2 (put_block (dec_sample cs (m_unit m))) (take b (blocks packet)) (m_blocks m) @
        drop b (blocks packet))"
    using parse_blocks_enc [where ru = "parse_xt_unit cs (m_unit m)" and enc = enc_sample
        and dec = "dec_sample cs (m_unit m)" and sz = 4 and encb = enc_block and nu = 32 and
        xs = "m_blocks m" and pre = "enc_head m" and post = "enc_tail m @ junk" and block = 0 and
        bs = "blocks packet" and lasers = ?l and index = 12]
      parse_xt_unit_enc length_enc_sample units_l bl packet_arrays_blocks [OF arr] wf
    by (auto simp: b_def L_def)
  have ok: "\<not> (b = 0 \<or> HS_LIDAR_XT_BLOCK_NUMBER < b \<or> ?l = 0 \<or> HS_LIDAR_XT_UNIT_NUM < ?l \<or>
      xt_expected_size b ?l \<noteq> L + 28)"
    using bl by (auto simp: xt_expected_size_def layout_defs L_def)
  have sz: "\<not> (L + 28 \<noteq> HS_LIDAR_XT_PACKET_SIZE \<and> L + 28 \<noteq> HS_LIDAR_XT16_PACKET_SIZE \<and>
      L + 28 \<noteq> HS_LIDAR_XTM_PACKET_SIZE)"
    using sup supported_xt_sizes unfolding len by blast
  have mark: "rd_be16 ?buf 0 = Some 0xEEFF"
    using hd [of 0] hd [of 1] enc_head_nth [OF wf] wf by (simp add: be16_def)
  have rds: "rd ?buf 2 = Some (m_major m)" "rd ?buf 3 = Some (m_minor m)"
    "rd ?buf 6 = Some (of_nat ?l)" "rd ?buf 7 = Some (of_nat b)" "rd ?buf 8 = Some (m_return m)"
    "rd ?buf 9 = Some (m_unit m)"
    using hd enc_head_nth [OF wf] wf by (simp_all add: b_def)
  show ?thesis
    unfolding len unfolding encode_xt_def append_assoc ParseXTData_def if_not_P [OF sz] mark rds sq
    using ok un cc pb reads reads [unfolded add.commute [of L]]
    by (simp add: HS_LIDAR_XT_UNIT_SIZE_def HS_LIDAR_XT_HEAD_SIZE_def Let_def
        HS_LIDAR_XT_RESERVED_SIZE_def HS_LIDAR_XT_ECHO_SIZE_def
        HS_LIDAR_XT_ENGINE_VELOCITY_def HS_LIDAR_XT_UTC_SIZE_def)
qed

lemma put_block_simps [simp]:
  "azimuth (put_block dec blk b) = fst b"
  "take (length (snd b)) (units (put_block dec blk b)) = map dec (snd b)"
  by (simp_all add: put_block_def)

text \<open>
  C9. Round trip of XT datagrams: for each of the three products, whatever the packet
  object held before and whatever follows the datagram in the buffer, parsing the encoding of a
  message returns 0 and recovers the header, the azimuth of every block, distance, intensity
  and confidence of every sample, the return mode, the spin rate, the UTC bytes, the
  microseconds, the UDP sequence number and the absolute time.
\<close>

theorem ParseXTData_roundtrip:
  assumes "wf_xt_msg m" and "packet_arrays 8 32 packet"
  shows "\<exists>p. ParseXTData cs mktime packet (encode_xt m @ junk) (length (encode_xt m)) = Some (0, p) \<and>
    chBlockNumber (header p) = of_nat (length (m_blocks m)) \<and>
    chLaserNumber (header p) = of_nat (m_lasers m) \<and> chReturnType (header p) = m_return m \<and>
    (\<forall>k < length (m_blocks m).
       azimuth (blocks p ! k) = fst (m_blocks m ! k) \<and>
       take (m_lasers m) (units (blocks p ! k)) =
         map (dec_sample cs (m_unit m)) (snd (m_blocks m ! k))) \<and>
    echo p = ucast (m_echo m) \<and> spin_speed p = f_int (uint (m_spin m)) \<and> addtime p = m_utc m \<and>
    timestamp p = m_ts m \<and> udp_sequence p = m_seq m \<and>
    timestamp_point p = point_time mktime (utc_tm (m_utc m)) (m_ts m)"
proof -
  obtain p where p: "ParseXTData cs mktime packet (encode_xt m @ junk) (length (encode_xt m)) = Some (0, p)"
    "blocks p = map2 (put_block (dec_sample cs (m_unit m)))
        (take (length (m_blocks m)) (blocks packet)) (m_blocks m) @
      drop (length (m_blocks m)) (blocks packet)"
    "chBlockNumber (header p) = of_nat (length (m_blocks m))"
    "chLaserNumber (header p) = of_nat (m_lasers m)" "chReturnType (header p) = m_return m"
    "echo p = ucast (m_echo m)" "spin_speed p = f_int (uint (m_spin m))" "addtime p = m_utc m"
    "timestamp p = m_ts m" "udp_sequence p = m_seq m"
    "timestamp_point p = point_time mktime (utc_tm (m_utc m)) (m_ts m)"
    using ParseXTData_encoded [OF assms, of cs mktime junk] by auto
  have "length (blocks packet) = 8" "length (m_blocks m) \<le> 8"
    using assms by (auto simp: packet_arrays_def wf_xt_msg_def)
  then have "azimuth (blocks p ! k) = fst (m_blocks m ! k) \<and>
       take (m_lasers m) (units (blocks p ! k)) =
         map (dec_sample cs (m_unit m)) (snd (m_blocks m ! k))"
    if "k < length (m_blocks m)" for k
  proof -
    have "length (snd (m_blocks m ! k)) = m_lasers m"
      using assms(1) that by (simp add: wf_xt_msg_def list_all_length case_prod_beta)
    moreover have "blocks p ! k = put_block (dec_sample cs (m_unit m)) (blocks packet ! k) (m_blocks m ! k)"
      using that \<open>length (blocks packet) = 8\<close> \<open>length (m_blocks m) \<le> 8\<close>
      by (simp add: p(2) nth_append)
    ultimately show ?thesis using put_block_simps by metis
  qed
  with p show ?thesis by blast
qed

definition demo_msg :: xt_msg where
  "demo_msg = \<lparr>m_major = 6, m_minor = 1, m_reserved1 = [0, 0], m_return = 0x37, m_unit = 4,
     m_reserved2 = [0, 0], m_blocks = replicate 8 (0x1234, replicate 16 (1000, 7, 9)),
     m_reserved3 = replicate 10 0, m_echo = 0x37, m_spin = 600, m_utc = [24, 1, 2, 3, 4, 5],
     m_ts = 123456, m_factory = 0x42, m_seq = 0xDEADBEEF\<rparr>"

theorem ParseXTData_roundtrip_witness:
  "\<exists>p. ParseXTData True (\<lambda>t. (0, t)) blank_xt_packet (encode_xt demo_msg @ [1, 2, 3])
      (length (encode_xt demo_msg)) = Some (0, p) \<and> udp_sequence p = 0xDEADBEEF"
proof -
  have "wf_xt_msg demo_msg"
    by code_simp
  then show ?thesis
    using ParseXTData_roundtrip [of demo_msg blank_xt_packet True "\<lambda>t. (0, t)" "[1, 2, 3]"]
    by (auto simp: demo_msg_def)
qed

section \<open>Pandar40P\<close>

text \<open>Without the filter.\<close>

definition plain_40p_unit :: "byte list \<Rightarrow> nat \<Rightarrow> Pandar40PUnit option" where
  "plain_40p_unit buf index = do {
     rng \<leftarrow> rd_le16 buf index;
     b2 \<leftarrow> rd buf (index + 2);
     Some \<lparr>p40_intensity = b2,
           p40_distance = d_mul (d_int (uint rng)) LASER_RETURN_TO_DISTANCE_RATE\<rparr>
   }"

lemma plain_40p_distance:
  fixes rng :: u16
  defines "d \<equiv> d_mul (d_int (uint rng)) LASER_RETURN_TO_DISTANCE_RATE"
  shows "isfinite d" and "\<bar>fval d\<bar> \<le> 512"
proof -
  have r: "\<bar>uint rng\<bar> \<le> 2 ^ 16" using uint_bounded [of rng] by simp
  then have i: "isfinite (d_int (uint rng))" "fval (d_int (uint rng)) = of_int (uint rng)" by simp_all
  have "isfinite LASER_RETURN_TO_DISTANCE_RATE" "\<bar>fval LASER_RETURN_TO_DISTANCE_RATE\<bar> \<le> pow2 (- 7)"
    using fp_round_finite(1,2) [of binary64 "4 / 1000" "- 7" False]
      fp_round_finite(3) [of binary64 "4 / 1000" "- 7"]
    by (simp_all add: LASER_RETURN_TO_DISTANCE_RATE_def fp_lit_def power_int_minus)
  moreover have "\<bar>of_int (uint rng) :: rat\<bar> \<le> pow2 16"
    using r by (metis of_int_abs of_int_le_iff of_int_power of_int_numeral power_int_numeral)
  ultimately have b: "isfinite LASER_RETURN_TO_DISTANCE_RATE"
    "\<bar>fval (d_int (uint rng)) * fval LASER_RETURN_TO_DISTANCE_RATE\<bar> \<le> pow2 9"
    using mult_mono [of "\<bar>of_int (uint rng) :: rat\<bar>" "pow2 16"
        "\<bar>fval LASER_RETURN_TO_DISTANCE_RATE\<bar>" "pow2 (- 7)"]
    by (simp_all add: i(2) abs_mult pow2_add [symmetric])
  from fp_mul_bounded [OF _ i(1) b] show "isfinite d" "\<bar>fval d\<bar> \<le> 512"
    by (simp_all add: d_def)
qed

lemma parse_40p_blocks_total:
  assumes "index + n * BLOCK_SIZE \<le> length buf" and "i + n \<le> length bs"
    and "list_all (\<lambda>b. length (p40_units b) = LASER_COUNT) bs"
  shows "\<exists>bs'. parse_40p_blocks buf n i index bs = Some (index + n * BLOCK_SIZE, bs') \<and>
    length bs' = length bs \<and> list_all (\<lambda>b. length (p40_units b) = LASER_COUNT) bs'"
  using assms
proof (induction n arbitrary: i index bs)
  case (Suc n)
  let ?blk = "bs ! i"
  have nu: "length (p40_units ?blk) = 40"
    using Suc.prems(2,3) by (simp add: list_all_length layout_defs)
  have "\<exists>us'. parse_units parse_40p_unit 3 buf 40 0 (index + 4) (p40_units ?blk) =
      Some (index + 4 + 40 * 3, us') \<and> length us' = length (p40_units ?blk)"
    using Suc.prems(1) nu by (intro parse_units_total unit_readers) (auto simp: layout_defs)
  then obtain us where us: "parse_units parse_40p_unit 3 buf 40 0 (index + 4) (p40_units ?blk) =
      Some (index + 124, us)" "length us = 40"
    using nu by auto
  let ?b = "?blk\<lparr>p40_sob := le16 (buf ! index) (buf ! (index + 1)),
      p40_azimuth := le16 (buf ! (index + 2)) (buf ! (index + 3)), p40_units := us\<rparr>"
  have "\<exists>bs'. parse_40p_blocks buf n (Suc i) (index + 124) (bs[i := ?b]) =
      Some (index + 124 + n * BLOCK_SIZE, bs') \<and> length bs' = length (bs[i := ?b]) \<and>
      list_all (\<lambda>b. length (p40_units b) = LASER_COUNT) bs'"
    using Suc.prems us(2)
    by (intro Suc.IH) (auto simp: layout_defs list_all_length nth_list_update)
  then show ?case using Suc.prems us(1)
    by (auto simp: layout_defs numeral_2_eq_2 numeral_3_eq_3)
qed simp

text \<open>
  C32. The Pandar40P parser is total on the driver's buffer: it returns 0 exactly for the two
  sizes of the format, without an access outside the buffer or the packet object. Its filter
  for wrong data never fires: every sample is stored as measured, range times 4 mm.
\<close>

theorem ParseRawData_total:
  assumes "length buf = ETHERNET_MTU" and "p40_arrays packet"
  shows "(\<exists>st p. ParseRawData mktime packet buf len = Some (st, p) \<and> p40_arrays p \<and>
      st = (if len = 1262 \<or> len = 1266 then 0 else - 1)) \<and>
    parse_40p_unit = plain_40p_unit"
proof
  have "\<exists>bs. parse_40p_blocks buf BLOCKS_PER_PACKET 0 0 (p40_blocks packet) =
      Some (0 + BLOCKS_PER_PACKET * BLOCK_SIZE, bs) \<and> length bs = length (p40_blocks packet) \<and>
      list_all (\<lambda>b. length (p40_units b) = LASER_COUNT) bs"
    using assms by (intro parse_40p_blocks_total) (simp_all add: p40_arrays_def layout_defs)
  then obtain bs where "parse_40p_blocks buf BLOCKS_PER_PACKET 0 0 (p40_blocks packet) = Some (1240, bs)"
    "length bs = 10" "list_all (\<lambda>b. length (p40_units b) = LASER_COUNT) bs"
    using assms(2) by (auto simp: p40_arrays_def layout_defs)
  then show "\<exists>st p. ParseRawData mktime packet buf len = Some (st, p) \<and> p40_arrays p \<and>
      st = (if len = 1262 \<or> len = 1266 then 0 else - 1)"
    using assms by (auto simp: ParseRawData_def p40_arrays_def layout_defs Let_def)
  show "parse_40p_unit = plain_40p_unit"
  proof (intro ext)
    fix b :: "byte list" and i
    have "\<not> fp_eq d (d_int 0x010101)" "\<not> fp_lt (d_int (200 * 1000 div 2)) d"
      if "isfinite d" "\<bar>fval d\<bar> \<le> 512" for d
      using that by (simp_all add: fp_simps abs_le_iff)
    then show "parse_40p_unit b i = plain_40p_unit b i"
      using plain_40p_distance by (simp add: parse_40p_unit_def plain_40p_unit_def Let_def)
  qed
qed

definition blank_40p_packet :: Pandar40PPacket where
  "blank_40p_packet = \<lparr>p40_blocks = replicate 10 \<lparr>p40_azimuth = 0, p40_sob = 0,
       p40_units = replicate 40 \<lparr>p40_intensity = 0, p40_distance = d_int 0\<rparr>\<rparr>,
     p40_t = utc_tm (replicate 6 0), p40_usec = 0, p40_echo = 0, p40_timestamp_point = d_int 0,
     p40_spin_speed = f_int 0\<rparr>"

theorem ParseRawData_total_witness:
  "\<exists>p. ParseRawData (\<lambda>t. (0, t)) blank_40p_packet (replicate 1500 7) 1262 = Some (0, p)"
proof -
  have "length (replicate 1500 (7 :: byte)) = ETHERNET_MTU" "p40_arrays blank_40p_packet"
    by (simp_all add: ETHERNET_MTU_def p40_arrays_def blank_40p_packet_def layout_defs list_all_length)
  from ParseRawData_total [OF this, of "\<lambda>t. (0, t)" 1262] show ?thesis by auto
qed

section \<open>GPS\<close>

text \<open>A GPS item as the device sends it: two ASCII digits, the lower one first.\<close>

definition enc_item :: "nat \<Rightarrow> byte list" where
  "enc_item n = [0x30 + of_nat (n mod 10), 0x30 + of_nat (n div 10)]"

definition encode_gps :: "u16 \<Rightarrow> nat list \<Rightarrow> u32 \<Rightarrow> byte list \<Rightarrow> byte list" where
  "encode_gps flag items fine rest =
     [byte_of 0 flag, byte_of 1 flag] @ concat (map enc_item items) @
     map (\<lambda>k. byte_of k fine) [0, 1, 2, 3] @ rest"

lemma digit_mask: "n < 10 \<Longrightarrow> unat ((0x30 + of_nat n :: byte) AND (0xff - 0x30)) = n"
proof -
  assume "n < 10"
  then have "n \<in> {0, 1, 2, 3, 4, 5, 6, 7, 8, 9}" by auto
  then show ?thesis by (elim insertE emptyE) simp_all
qed

lemma gps_item_enc:
  assumes "n < 100"
  shows "gps_item (enc_item n ! 0) (enc_item n ! 1) = of_nat n"
proof -
  have "n mod 10 + n div 10 * 10 = n" by simp
  then show ?thesis using assms
    using digit_mask [of "n mod 10"] digit_mask [of "n div 10"]
    by (simp add: gps_item_def enc_item_def del: of_nat_add of_nat_mult)
qed

lemma ParseGPS_encoded:
  assumes "list_all (\<lambda>n. n < 100) [y, mo, d, se, mi, h]"
  shows "ParseGPS packet (encode_gps flag [y, mo, d, se, mi, h] fine rest) GPS_PACKET_SIZE =
    Some (0, \<lparr>gps_flag = flag, gps_year = of_nat y, gps_month = of_nat mo, gps_day = of_nat d,
       gps_second = of_nat se, gps_minute = of_nat mi, gps_hour = of_nat h, gps_fineTime = fine\<rparr>)"
proof -
  have "gps_item (0x30 + of_nat (n mod 10)) (0x30 + of_nat (n div 10)) = of_nat n" if "n < 100" for n
    using gps_item_enc [OF that] by (simp add: enc_item_def)
  then show ?thesis
    using assms
    by (simp add: ParseGPS_def encode_gps_def enc_item_def rd_gps_item_def layout_defs Let_def
        nth_Cons' byte_simps)
qed

text \<open>
  C34. The GPS parser reads what the device encodes: from a 512-byte message with two ASCII
  digits per item it recovers flag, date, time and sub-second field, although its digit masks
  are \<^verbatim>\<open>& 0xcf\<close> by operator precedence and not a subtraction of the ASCII zero; every
  other size is refused.
\<close>

theorem ParseGPS_roundtrip:
  assumes "list_all (\<lambda>n. n < 100) [y, mo, d, se, mi, h]"
    and "length (encode_gps flag [y, mo, d, se, mi, h] fine rest) = GPS_PACKET_SIZE"
  shows "ParseGPS packet (encode_gps flag [y, mo, d, se, mi, h] fine rest) len =
    (if len = GPS_PACKET_SIZE
     then Some (0, \<lparr>gps_flag = flag, gps_year = of_nat y, gps_month = of_nat mo, gps_day = of_nat d,
       gps_second = of_nat se, gps_minute = of_nat mi, gps_hour = of_nat h, gps_fineTime = fine\<rparr>)
     else Some (- 1, packet))"
  using ParseGPS_encoded [OF assms(1)] by (simp add: ParseGPS_def)

theorem ParseGPS_roundtrip_witness:
  "\<exists>p. ParseGPS \<lparr>gps_flag = 0, gps_year = 0, gps_month = 0, gps_day = 0, gps_second = 0,
       gps_minute = 0, gps_hour = 0, gps_fineTime = 0\<rparr>
     (encode_gps 0xFFEE [24, 12, 31, 59, 58, 23] 7 (replicate 494 0)) 512 = Some (0, p) \<and>
   gps_year p = 24 \<and> gps_hour p = 23"
proof -
  have "list_all (\<lambda>n. n < 100) [24, 12, 31, 59, 58, 23 :: nat]"
    "length (encode_gps 0xFFEE [24, 12, 31, 59, 58, 23] 7 (replicate 494 0)) = GPS_PACKET_SIZE"
    by (simp_all add: encode_gps_def enc_item_def GPS_PACKET_SIZE_def)
  from ParseGPS_roundtrip [OF this, of _ 512] show ?thesis by (simp add: GPS_PACKET_SIZE_def)
qed

end
