(* ===== verification/Point_Props.thy ===== *)
theory Point_Props
  imports Point_Calc Packet_Roundtrip
begin

text \<open>
  Facts about the point computation: the azimuth index of every sensor stays inside the
  trigonometric tables, the XT computation is defined on every accepted packet, and the
  places where the other sensors read elements that do not exist or were never assigned.
\<close>

section \<open>The azimuth index\<close>

lemma wrap_azimuth_range: "- 36000 \<le> a \<Longrightarrow> a < 72000 \<Longrightarrow> 0 \<le> wrap_azimuth a \<and> wrap_azimuth a < 36000"
  by (auto simp: wrap_azimuth_def Let_def)

definition fire_rate :: fp where "fire_rate = d_lit (6 / 1000000)"

lemma fire_rate_value: "isfinite fire_rate" "0 \<le> fval fire_rate" "fval fire_rate \<le> 60001 / 10000000000"
  by code_simp+

lemma u16_rat:
  "0 \<le> (of_int (uint (w :: u16)) :: rat)" "(of_int (uint (w :: u16)) :: rat) \<le> 65535"
proof -
  have "of_int 0 \<le> (of_int (uint w) :: rat)" by (rule of_int_le_iff [THEN iffD2]) simp
  then show "0 \<le> (of_int (uint w) :: rat)" by (simp only: of_int_0)
  have "of_int (uint w) \<le> (of_int 65535 :: rat)"
    using uint_bounded [of w] by (intro of_int_le_iff [THEN iffD2]) simp
  then show "(of_int (uint w) :: rat) \<le> 65535" by (simp only: of_int_numeral)
qed

text \<open>The speed is a 16-bit integer; \<open>B\<close> bounds the laser's offset, \<open>G\<close> the result.\<close>

lemma GetFiretimeOffset_range:
  fixes sp :: u16
  assumes las: "isfinite las" "0 \<le> fval las" "fval las \<le> of_int B"
    and B: "65535 * B \<le> 2 ^ 24" and G: "65535 * B * 60001 \<le> G * 10000000000" "G \<le> 2 ^ 24"
  shows "isfinite (GetFiretimeOffset (f_int (uint sp)) las) \<and>
    0 \<le> fval (GetFiretimeOffset (f_int (uint sp)) las) \<and>
    fval (GetFiretimeOffset (f_int (uint sp)) las) \<le> of_int G"
proof -
  have u: "0 \<le> uint sp" "uint sp \<le> 65535" using uint_bounded [of sp] by simp_all
  note u' = u16_rat [of sp]
  have s: "isfinite (f_int (uint sp))" "fval (f_int (uint sp)) = of_int (uint sp)" using u by simp_all
  have B0: "0 \<le> B" using las(2,3) by (metis of_int_0 of_int_le_iff order_trans)
  have "of_int (uint sp) * fval las \<le> 65535 * of_int B"
    using u' las(2,3) by (intro mult_mono) auto
  then have le: "of_int (uint sp) * fval las \<le> of_int (65535 * B)" by simp
  have ge: "of_int 0 \<le> of_int (uint sp) * fval las"
    unfolding of_int_0 using u'(1) las(2) by (rule mult_nonneg_nonneg)
  note m = f_between(3) [OF s(1) las(1), of 0 "65535 * B", unfolded s(2), OF _ _ ge le]
  let ?m = "f_mul (f_int (uint sp)) las"
  have m': "isfinite ?m" "0 \<le> fval ?m" "fval ?m \<le> of_int (65535 * B)" using m B B0 by auto
  have "fval ?m * fval fire_rate \<le> of_int (65535 * B) * (60001 / 10000000000)"
    using m'(2,3) fire_rate_value(2,3) B0 by (intro mult_mono) auto
  also have "\<dots> = of_int (65535 * B * 60001) / 10000000000" by simp
  also have "\<dots> \<le> of_int (G * 10000000000) / 10000000000"
    by (rule divide_right_mono, rule of_int_le_iff [THEN iffD2, OF G(1)]) simp
  finally have le2: "fval ?m * fval fire_rate \<le> of_int G" by simp
  have ge2: "of_int 0 \<le> fval ?m * fval fire_rate" using m'(2) fire_rate_value(2) by simp
  have G0: "0 \<le> G" using ge2 le2 by (metis of_int_le_iff order_trans)
  have d: "isfinite (d_mul ?m fire_rate) \<and> of_int 0 \<le> fval (d_mul ?m fire_rate) \<and>
      fval (d_mul ?m fire_rate) \<le> of_int G"
    using d_mul_between [OF m'(1) fire_rate_value(1), of 0 G] G(2) G0 ge2 le2 by simp
  then show ?thesis
    using to_float_between [of "d_mul ?m fire_rate" 0 G] G(2) G0
    by (simp add: GetFiretimeOffset_def fire_rate_def)
qed

lemma azimuth_sum_range:
  fixes az :: u16
  assumes off: "isfinite off" "- of_int D \<le> fval off" "fval off \<le> of_int A" and A: "A \<le> 300" "0 \<le> A" "D \<le> 300" "0 \<le> D"
  shows "isfinite (f_add (f_mul off (f_int 100)) (f_int (uint az))) \<and>
    of_int (- 100 * D) \<le> fval (f_add (f_mul off (f_int 100)) (f_int (uint az))) \<and>
    fval (f_add (f_mul off (f_int 100)) (f_int (uint az))) \<le> of_int (100 * A + 65535)"
proof -
  have u: "0 \<le> uint az" "uint az \<le> 65535" using uint_bounded [of az] by simp_all
  have h: "isfinite (f_int 100)" "fval (f_int 100) = 100" by simp_all
  have m: "isfinite (f_mul off (f_int 100)) \<and> of_int (- 100 * D) \<le> fval (f_mul off (f_int 100)) \<and>
      fval (f_mul off (f_int 100)) \<le> of_int (100 * A)"
    using f_between(3) [OF off(1) h(1), of "- 100 * D" "100 * A"] off A by simp
  have a: "isfinite (f_int (uint az))" "fval (f_int (uint az)) = of_int (uint az)" using u by simp_all
  note u' = u16_rat [of az]
  show ?thesis
    using f_between(1) [of "f_mul off (f_int 100)" "f_int (uint az)" "- 100 * D" "100 * A + 65535"]
      m a u' A by simp
qed

lemma azimuth_plus_range:
  fixes az sp :: u16
  assumes off: "isfinite off" "- of_int D \<le> fval off" "fval off \<le> of_int A"
    and las: "isfinite las" "0 \<le> fval las" "fval las \<le> of_int B"
    and A: "A \<le> 300" "0 \<le> A" "D \<le> 300" "0 \<le> D" and B: "65535 * B \<le> 2 ^ 24"
    and G: "65535 * B * 60001 \<le> G * 10000000000" "0 \<le> G"
    and sum: "100 * A + 65535 + 100 * G < 72000"
  shows "\<exists>a. azimuth_plus off az (GetFiretimeOffset (f_int (uint sp)) las) = Some a \<and>
    0 \<le> wrap_azimuth a \<and> wrap_azimuth a < 36000"
proof -
  let ?g = "GetFiretimeOffset (f_int (uint sp)) las"
  let ?s = "f_add (f_mul off (f_int 100)) (f_int (uint az))"
  have g: "isfinite ?g" "0 \<le> fval ?g" "fval ?g \<le> of_int G"
    using GetFiretimeOffset_range [OF las B G(1)] sum A by simp_all
  have s: "isfinite ?s" "of_int (- 100 * D) \<le> fval ?s" "fval ?s \<le> of_int (100 * A + 65535)"
    using azimuth_sum_range [OF off A] by blast+
  have g100: "isfinite (f_mul ?g (f_int 100)) \<and> of_int 0 \<le> fval (f_mul ?g (f_int 100)) \<and>
      fval (f_mul ?g (f_int 100)) \<le> of_int (100 * G)"
    using f_between(3) [OF g(1), of "f_int 100" 0 "100 * G"] g sum A G(2) by simp
  have t: "isfinite (f_add ?s (f_mul ?g (f_int 100))) \<and>
      of_int (- 100 * D) \<le> fval (f_add ?s (f_mul ?g (f_int 100))) \<and>
      fval (f_add ?s (f_mul ?g (f_int 100))) \<le> of_int (100 * A + 65535 + 100 * G)"
    using f_between(1) [OF s(1), of "f_mul ?g (f_int 100)" "- 100 * D" "100 * A + 65535 + 100 * G"]
      g100 s sum A G(2) by simp
  obtain a where a: "azimuth_plus off az ?g = Some a" "- 100 * D \<le> a" "a \<le> 100 * A + 65535 + 100 * G"
    using to_i32_between [of "f_add ?s (f_mul ?g (f_int 100))" "- 100 * D" "100 * A + 65535 + 100 * G"]
      t sum A unfolding azimuth_plus_def by auto
  show ?thesis using a wrap_azimuth_range [of a] sum A by auto
qed

lemma azimuth_minus_range:
  fixes az sp :: u16
  assumes off: "isfinite off" "- of_int D \<le> fval off" "fval off \<le> of_int A"
    and las: "isfinite las" "0 \<le> fval las" "fval las \<le> of_int B"
    and A: "A \<le> 300" "0 \<le> A" "D \<le> 300" "0 \<le> D" and B: "65535 * B \<le> 2 ^ 24"
    and G: "65535 * B * 60001 \<le> G * 10000000000" "0 \<le> G"
    and sum: "100 * D + 100 * G \<le> 6000" "100 * A \<le> 6000"
  shows "\<exists>a. azimuth_minus off az (GetFiretimeOffset (f_int (uint sp)) las) = Some a \<and>
    0 \<le> wrap_azimuth a \<and> wrap_azimuth a < 36000"
proof -
  let ?g = "GetFiretimeOffset (f_int (uint sp)) las"
  let ?s = "f_add (f_mul off (f_int 100)) (f_int (uint az))"
  have g: "isfinite ?g" "0 \<le> fval ?g" "fval ?g \<le> of_int G"
    using GetFiretimeOffset_range [OF las B G(1)] sum A by simp_all
  have s: "isfinite ?s" "of_int (- 100 * D) \<le> fval ?s" "fval ?s \<le> of_int (100 * A + 65535)"
    using azimuth_sum_range [OF off A] by blast+
  have g100: "isfinite (f_mul ?g (f_int 100)) \<and> of_int 0 \<le> fval (f_mul ?g (f_int 100)) \<and>
      fval (f_mul ?g (f_int 100)) \<le> of_int (100 * G)"
    using f_between(3) [OF g(1), of "f_int 100" 0 "100 * G"] g sum A G(2) by simp
  have t: "isfinite (f_sub ?s (f_mul ?g (f_int 100))) \<and>
      of_int (- 100 * D - 100 * G) \<le> fval (f_sub ?s (f_mul ?g (f_int 100))) \<and>
      fval (f_sub ?s (f_mul ?g (f_int 100))) \<le> of_int (100 * A + 65535)"
    using f_between(2) [OF s(1), of "f_mul ?g (f_int 100)" "- 100 * D - 100 * G" "100 * A + 65535"]
      g100 s sum A G(2) by simp
  obtain a where a: "azimuth_minus off az ?g = Some a" "- 100 * D - 100 * G \<le> a" "a \<le> 100 * A + 65535"
    using to_i32_between [of "f_sub ?s (f_mul ?g (f_int 100))" "- 100 * D - 100 * G" "100 * A + 65535"]
      t sum A unfolding azimuth_minus_def by auto
  show ?thesis using a wrap_azimuth_range [of a] sum A G(2) by auto
qed

text \<open>Bounds on the tables.\<close>

definition fbetween :: "int \<Rightarrow> int \<Rightarrow> fp \<Rightarrow> bool" where
  "fbetween lo hi x \<longleftrightarrow> isfinite x \<and> of_int lo \<le> fval x \<and> fval x \<le> of_int hi"

lemma fbetween_lit:
  "of_int lo \<le> q \<Longrightarrow> q \<le> of_int hi \<Longrightarrow> \<bar>lo\<bar> \<le> 2 ^ 24 \<Longrightarrow> \<bar>hi\<bar> \<le> 2 ^ 24 \<Longrightarrow> fbetween lo hi (f_lit q)"
  using fp_round_between [of binary32 lo q hi False] by (simp add: fbetween_def fp_lit_def nat_numeral)

lemma fbetween_add:
  assumes "fbetween a b x" and "fbetween c d y" and "\<bar>a + c\<bar> \<le> 2 ^ 24" and "\<bar>b + d\<bar> \<le> 2 ^ 24"
  shows "fbetween (a + c) (b + d) (f_add x y)"
  using f_between(1) [of x y "a + c" "b + d"] assms by (simp add: fbetween_def)

lemma fbetween_mul:
  assumes "fbetween 0 a x" and "fbetween 0 b y" and "\<bar>a * b\<bar> \<le> 2 ^ 24"
  shows "fbetween 0 (a * b) (f_mul x y)"
proof -
  have "fval x * fval y \<le> of_int a * of_int b"
    using assms(1,2) by (intro mult_mono) (auto simp: fbetween_def intro: order_trans)
  then show ?thesis using f_between(3) [of x y 0 "a * b"] assms by (simp add: fbetween_def)
qed

lemma fbetween_weaken: "fbetween a b x \<Longrightarrow> c \<le> a \<Longrightarrow> b \<le> d \<Longrightarrow> fbetween c d x"
  unfolding fbetween_def by (metis of_int_le_iff order_trans)

lemma laser_us_range: "0 \<le> a \<Longrightarrow> a \<le> 15 \<Longrightarrow> 0 \<le> b \<Longrightarrow> b \<le> 16 \<Longrightarrow> fbetween 0 66 (laser_us a b)"
  using fbetween_add [OF fbetween_add [OF
      fbetween_mul [OF fbetween_lit [of 0 "1304 / 1000" 2] fbetween_lit [of 0 a 15]]
      fbetween_mul [OF fbetween_lit [of 0 "1968 / 1000" 2] fbetween_lit [of 0 b 16]]]
      fbetween_lit [of 0 "362 / 100" 4]]
  by (simp add: laser_us_def)

lemma laser_xt_us_range: "0 \<le> k \<Longrightarrow> k \<le> 31 \<Longrightarrow> fbetween 0 66 (laser_xt_us k)"
  using fbetween_weaken [OF fbetween_add [OF
      fbetween_mul [OF fbetween_lit [of 0 "1512 / 1000" 2] fbetween_lit [of 0 k 31]]
      fbetween_lit [of 0 "368 / 1000" 1]], of 0 66]
  by (simp add: laser_xt_us_def)

lemma laser_xtm_us_range: "0 \<le> k \<Longrightarrow> k \<le> 15 \<Longrightarrow> fbetween 0 66 (laser_xtm_us k)"
  using fbetween_weaken [OF fbetween_add [OF
      fbetween_mul [OF fbetween_lit [of 0 "2856 / 1000" 3] fbetween_lit [of 0 k 15]]
      fbetween_lit [of 0 "368 / 1000" 1]], of 0 66]
  by (simp add: laser_xtm_us_def)

lemma qt_us_range:
  "0 \<le> k \<Longrightarrow> k \<le> 35 \<Longrightarrow> fbetween 0 45 (qt_us k)" "0 \<le> k \<Longrightarrow> k \<le> 137 \<Longrightarrow> fbetween 0 147 (qt_us k)"
  using fbetween_add [OF fbetween_lit [of 0 10 10] fbetween_lit [of 0 k 35]]
    fbetween_add [OF fbetween_lit [of 0 10 10] fbetween_lit [of 0 k 137]]
  by (simp_all add: qt_us_def)

lemma offset_tables:
  "list_all (fbetween (- 6) 6) pandar40p_horizatal_azimuth_offset_map"
  "list_all (fbetween (- 6) 6) pandarGeneral_horizatal_azimuth_offset_map"
  "list_all (fbetween (- 6) 6) pandar20_horizatal_azimuth_offset_map"
  "list_all (fbetween (- 6) 6) pandarXT_horizatal_azimuth_offset_map"
  "list_all (fbetween (- 6) 6) pandarXTM_horizatal_azimuth_offset_map"
  by (simp_all add: pandar40p_horizatal_azimuth_offset_map_def pandarGeneral_horizatal_azimuth_offset_map_def
      pandar20_horizatal_azimuth_offset_map_def pandarXT_horizatal_azimuth_offset_map_def
      pandarXTM_horizatal_azimuth_offset_map_def fbetween_lit)

text \<open>An assigned element has one of the assigned values.\<close>

lemma assigns_nth:
  assumes "i < n" and "assigns n ps ! i = Some v"
  shows "(i, v) \<in> set ps"
proof -
  have "xs ! i = Some v \<or> (i, v) \<in> set ps"
    if "foldl (\<lambda>xs (i, v). xs[i := Some v]) xs ps ! i = Some v" "i < length xs" for xs
    using that
  proof (induction ps arbitrary: xs)
    case (Cons a ps)
    obtain j w where a: "a = (j, w)" by (cases a)
    from Cons.IH [of "xs[j := Some w]"] Cons.prems
    show ?case by (cases "j = i") (auto simp: a)
  qed simp
  from this [of "replicate n None"] assms show ?thesis by (auto simp: assigns_def)
qed

lemma length_assigns [simp]: "length (assigns n ps) = n"
proof -
  have "length (foldl (\<lambda>xs (i, v). xs[i := Some v]) xs ps) = length xs" for xs
    by (induction ps arbitrary: xs) (auto split: prod.splits)
  then show ?thesis by (simp add: assigns_def)
qed

lemma geti_assigns:
  assumes "geti (assigns n ps) i = Some v" and "list_all (\<lambda>(i, v). P i v) ps"
  shows "P i v"
  using assms assigns_nth [of i n ps v] by (auto simp: geti_Some_iff list_all_iff)

lemma geti_assigns_unset: "i \<notin> fst ` set ps \<Longrightarrow> geti (assigns n ps) i = None"
  using assigns_nth [of i n ps] by (cases "geti (assigns n ps) i") (force simp: geti_Some_iff)+

lemma laser40_row: "geti laser40Offset i = Some v \<Longrightarrow> fbetween 0 66 v"
  unfolding laser40Offset_def
  by (erule geti_assigns [where P = "\<lambda>i. fbetween 0 66"]) (simp add: fbetween_lit)

lemma laser64_row: "geti laser64Offset i = Some v \<Longrightarrow> fbetween 0 66 v"
  unfolding laser64Offset_def
  by (erule geti_assigns [where P = "\<lambda>i. fbetween 0 66"]) (simp add: laser_us_range)

lemma laser20B_row: "geti laser20BOffset i = Some v \<Longrightarrow> fbetween 0 66 v"
  unfolding laser20BOffset_def
  by (erule geti_assigns [where P = "\<lambda>i. fbetween 0 66"]) (simp add: laser_us_range)

lemma laser_xt_rows: "list_all (fbetween 0 66) laserXTOffset" "list_all (fbetween 0 66) laserXTMOffset"
  by (simp_all add: laserXTOffset_def laserXTMOffset_def laser_xt_us_range laser_xtm_us_range)

text \<open>For QT the large azimuth offsets come with the early lasers.\<close>

lemma laserQT_row:
  assumes "geti laserQTOffset i = Some v"
  shows "fbetween (- 9) 9 (pandarQT_horizatal_azimuth_offset_map ! i) \<and> fbetween 0 45 v \<or>
    fbetween (- 8) 6 (pandarQT_horizatal_azimuth_offset_map ! i) \<and> fbetween 0 147 v"
  using assms unfolding laserQTOffset_def
  by (rule geti_assigns [where P = "\<lambda>i v. fbetween (- 9) 9 (pandarQT_horizatal_azimuth_offset_map ! i) \<and>
      fbetween 0 45 v \<or> fbetween (- 8) 6 (pandarQT_horizatal_azimuth_offset_map ! i) \<and> fbetween 0 147 v"])
    (simp add: pandarQT_horizatal_azimuth_offset_map_def fbetween_lit qt_us_range)

definition azimuth_ok :: "int option \<Rightarrow> bool" where
  "azimuth_ok r \<longleftrightarrow> (case r of None \<Rightarrow> False | Some a \<Rightarrow>
     0 \<le> wrap_azimuth a \<and> wrap_azimuth a < int MAX_AZIMUTH_DEGREE_NUM)"

lemma azimuth_ok_plus:
  assumes "fbetween (- D) A off" "fbetween 0 B las" "A \<le> 300" "0 \<le> A" "D \<le> 300" "0 \<le> D"
    "65535 * B \<le> 2 ^ 24" "65535 * B * 60001 \<le> G * 10000000000" "0 \<le> G" "100 * A + 65535 + 100 * G < 72000"
  shows "azimuth_ok (azimuth_plus off az (GetFiretimeOffset (f_int (uint (sp :: u16))) las))"
  using azimuth_plus_range [of off D A las B G az sp] assms
  by (auto simp: azimuth_ok_def fbetween_def MAX_AZIMUTH_DEGREE_NUM_def)

lemma azimuth_ok_minus:
  assumes "fbetween (- D) A off" "fbetween 0 B las" "A \<le> 300" "0 \<le> A" "D \<le> 300" "0 \<le> D"
    "65535 * B \<le> 2 ^ 24" "65535 * B * 60001 \<le> G * 10000000000" "0 \<le> G"
    "100 * D + 100 * G \<le> 6000" "100 * A \<le> 6000"
  shows "azimuth_ok (azimuth_minus off az (GetFiretimeOffset (f_int (uint (sp :: u16))) las))"
  using azimuth_minus_range [of off D A las B G az sp] assms
  by (auto simp: azimuth_ok_def fbetween_def MAX_AZIMUTH_DEGREE_NUM_def)

text \<open>
  C27. With the built-in tables the azimuth index never leaves the trigonometric tables: for
  each of the five sensor families, every 16-bit block azimuth, every 16-bit spin rate and every
  laser whose firing offset is assigned, the conversion to \<^verbatim>\<open>int\<close> is defined and the
  wrapped value lies in 0 to 35999, all roundings of the \<^verbatim>\<open>float\<close> expression included.
\<close>

theorem azimuth_index_in_range:
  fixes az sp :: u16
  shows "(\<forall>i off las. rd pandar40p_horizatal_azimuth_offset_map i = Some off \<and>
        geti laser40Offset i = Some las \<longrightarrow>
        azimuth_ok (azimuth_minus off az (GetFiretimeOffset (f_int (uint sp)) las))) \<and>
    (\<forall>i off las. rd pandarGeneral_horizatal_azimuth_offset_map i = Some off \<and>
        geti laser64Offset i = Some las \<longrightarrow>
        azimuth_ok (azimuth_minus off az (GetFiretimeOffset (f_int (uint sp)) las))) \<and>
    (\<forall>i off las. rd pandar20_horizatal_azimuth_offset_map i = Some off \<and>
        geti laser20BOffset i = Some las \<longrightarrow>
        azimuth_ok (azimuth_plus off az (GetFiretimeOffset (f_int (uint sp)) las))) \<and>
    (\<forall>i off las. rd pandarQT_horizatal_azimuth_offset_map i = Some off \<and>
        geti laserQTOffset i = Some las \<longrightarrow>
        azimuth_ok (azimuth_plus off az (GetFiretimeOffset (f_int (uint sp)) las))) \<and>
    (\<forall>off las. off \<in> set pandarXT_horizatal_azimuth_offset_map \<union> set pandarXTM_horizatal_azimuth_offset_map \<and>
        las \<in> set laserXTOffset \<union> set laserXTMOffset \<longrightarrow>
        azimuth_ok (azimuth_plus off az (GetFiretimeOffset (f_int (uint sp)) las)))"
proof (intro conjI allI impI)
  fix i off las
  assume a: "rd pandar40p_horizatal_azimuth_offset_map i = Some off \<and> geti laser40Offset i = Some las"
  then have "fbetween (- 6) 6 off" using offset_tables(1) by (auto simp: rd_Some_iff list_all_length)
  then show "azimuth_ok (azimuth_minus off az (GetFiretimeOffset (f_int (uint sp)) las))"
    using a laser40_row by (intro azimuth_ok_minus [where A = 6 and D = 6 and B = 66 and G = 26]) auto
next
  fix i off las
  assume a: "rd pandarGeneral_horizatal_azimuth_offset_map i = Some off \<and> geti laser64Offset i = Some las"
  then have "fbetween (- 6) 6 off" using offset_tables(2) by (auto simp: rd_Some_iff list_all_length)
  then show "azimuth_ok (azimuth_minus off az (GetFiretimeOffset (f_int (uint sp)) las))"
    using a laser64_row by (intro azimuth_ok_minus [where A = 6 and D = 6 and B = 66 and G = 26]) auto
next
  fix i off las
  assume a: "rd pandar20_horizatal_azimuth_offset_map i = Some off \<and> geti laser20BOffset i = Some las"
  then have "fbetween (- 6) 6 off" using offset_tables(3) by (auto simp: rd_Some_iff list_all_length)
  then show "azimuth_ok (azimuth_plus off az (GetFiretimeOffset (f_int (uint sp)) las))"
    using a laser20B_row by (intro azimuth_ok_plus [where A = 6 and D = 6 and B = 66 and G = 26]) auto
next
  fix i off las
  assume a: "rd pandarQT_horizatal_azimuth_offset_map i = Some off \<and> geti laserQTOffset i = Some las"
  then have "off = pandarQT_horizatal_azimuth_offset_map ! i" by (simp add: rd_Some_iff)
  then consider "fbetween (- 9) 9 off" "fbetween 0 45 las" | "fbetween (- 8) 6 off" "fbetween 0 147 las"
    using a laserQT_row by blast
  then show "azimuth_ok (azimuth_plus off az (GetFiretimeOffset (f_int (uint sp)) las))"
  proof cases
    case 1
    then show ?thesis by (intro azimuth_ok_plus [where A = 9 and D = 9 and B = 45 and G = 18]) auto
  next
    case 2
    then show ?thesis by (intro azimuth_ok_plus [where A = 6 and D = 8 and B = 147 and G = 58]) auto
  qed
next
  fix off las
  assume a: "off \<in> set pandarXT_horizatal_azimuth_offset_map \<union> set pandarXTM_horizatal_azimuth_offset_map \<and>
    las \<in> set laserXTOffset \<union> set laserXTMOffset"
  then have "fbetween (- 6) 6 off" "fbetween 0 66 las"
    using offset_tables(4,5) laser_xt_rows by (auto simp: list_all_iff)
  then show "azimuth_ok (azimuth_plus off az (GetFiretimeOffset (f_int (uint sp)) las))"
    by (intro azimuth_ok_plus [where A = 6 and D = 6 and B = 66 and G = 26]) auto
qed

theorem azimuth_index_in_range_witness:
  "azimuth_ok (azimuth_plus (pandarXT_horizatal_azimuth_offset_map ! 0) 0xFFFF
     (GetFiretimeOffset (f_int (uint (0xFFFF :: u16))) (laserXTOffset ! 31)))"
proof -
  have "pandarXT_horizatal_azimuth_offset_map ! 0 \<in> set pandarXT_horizatal_azimuth_offset_map"
    "laserXTOffset ! 31 \<in> set laserXTOffset"
    by (simp_all add: pandarXT_horizatal_azimuth_offset_map_def laserXTOffset_def)
  then show ?thesis using azimuth_index_in_range [where az = "0xFFFF" and sp = "0xFFFF"] by blast
qed

section \<open>The XT computation is defined on accepted packets\<close>

definition xt_lasers :: "string \<Rightarrow> nat" where
  "xt_lasers t = (if t = ''PandarXT-16'' then 16 else 32)"

lemma xt_maps_length [simp]:
  "length pandarXT_horizatal_azimuth_offset_map = 32" "length pandarXTM_horizatal_azimuth_offset_map = 32"
  "length pandarXT_elev_angle_map = 32" "length pandarXTM_elev_angle_map = 32"
  "length laserXTOffset = 32" "length laserXTMOffset = 32"
  "length blockXTOffsetDual = 8" "length blockXTOffsetSingle = 8" "length blockXTMOffsetTriple = 8"
  "length blockXTMOffsetDual = 8" "length blockXTMOffsetSingle = 8"
  by (simp_all add: pandarXT_horizatal_azimuth_offset_map_def pandarXTM_horizatal_azimuth_offset_map_def
      pandarXT_elev_angle_map_def pandarXTM_elev_angle_map_def laserXTOffset_def laserXTMOffset_def
      blockXTOffsetDual_def blockXTOffsetSingle_def blockXTMOffsetTriple_def blockXTMOffsetDual_def
      blockXTMOffsetSingle_def)

lemma ParseXTData_accepted:
  assumes "ParseXTData cs mktime q buf len = Some (0, p)" and "packet_arrays 8 32 q"
    and "len \<le> length buf"
  shows "packet_arrays 8 32 p \<and> (\<exists>sp :: u16. spin_speed p = f_int (uint sp)) \<and>
    unat (chBlockNumber (header p)) \<le> 8 \<and> unat (chLaserNumber (header p)) \<le> 32"
proof -
  have arr: "packet_arrays 8 32 p"
    using ParseXTData_accepts [OF _ assms(3,2), of cs mktime] ParseXTData_rejects [OF _ assms(3,2), of cs mktime]
      assms(1) by auto
  moreover have "(\<exists>sp :: u16. spin_speed p = f_int (uint sp)) \<and>
    unat (chBlockNumber (header p)) \<le> 8 \<and> unat (chLaserNumber (header p)) \<le> 32"
    using assms(1)
    by (auto simp: ParseXTData_def Let_def layout_defs bind_eq_Some_conv
        split: if_splits option.splits prod.splits) (rule exI, rule refl)+
  ultimately show ?thesis by blast
qed

lemma Init_tables_azimuth [simp]:
  "length (sin_azimuth_map (Init_tables sinf cosf t)) = 36000"
  "length (cos_azimuth_map (Init_tables sinf cosf t)) = 36000"
  "length (sin_azimuth_map_h (Init_tables sinf cosf t)) = 36000"
  "length (cos_azimuth_map_h (Init_tables sinf cosf t)) = 36000"
  "length (sin_azimuth_map_b (Init_tables sinf cosf t)) = 36000"
  "length (cos_azimuth_map_b (Init_tables sinf cosf t)) = 36000"
  by (simp_all add: Init_tables_def Let_def MAX_AZIMUTH_DEGREE_NUM_def)

text \<open>
  Tables for an XT sensor: the trigonometric tables are complete, every laser of the sensor has its
  elevation, a horizontal offset of at most 6 degrees and a firing offset, and every block its offsets.
  The tables that \<^verbatim>\<open>Init\<close> builds are such tables, for any \<^verbatim>\<open>sinf\<close> and \<^verbatim>\<open>cosf\<close>.
\<close>

definition laser_ok :: "tables \<Rightarrow> nat \<Rightarrow> bool" where
  "laser_ok tb i \<longleftrightarrow> i < length (sin_elevation_map tb) \<and> i < length (cos_elevation_map tb) \<and>
     geti (General_elev_angle_map tb) i \<noteq> None \<and>
     (case geti (General_horizatal_azimuth_offset_map tb) i of Some off \<Rightarrow> fbetween (- 6) 6 off | None \<Rightarrow> False) \<and>
     (case geti (laserXTOffset_m tb) i of Some las \<Rightarrow> fbetween 0 66 las | None \<Rightarrow> False)"

definition xt_tables :: "string \<Rightarrow> tables \<Rightarrow> bool" where
  "xt_tables t tb \<longleftrightarrow>
     list_all (\<lambda>m. length m = 36000) [sin_azimuth_map tb, cos_azimuth_map tb, sin_azimuth_map_h tb,
       cos_azimuth_map_h tb, sin_azimuth_map_b tb, cos_azimuth_map_b tb] \<and>
     list_all (laser_ok tb) [0..<xt_lasers t] \<and>
     list_all (\<lambda>b. geti (blockXTOffsetSingle_m tb) b \<noteq> None \<and> geti (blockXTOffsetDual_m tb) b \<noteq> None \<and>
       (t = ''PandarXTM'' \<longrightarrow> geti (blockXTOffsetTriple_m tb) b \<noteq> None)) [0..<8]"

lemma Init_xt_tables:
  assumes t: "t \<in> {''PandarXT-32'', ''PandarXT-16'', ''PandarXTM''}"
  shows "xt_tables t (Init_tables sinf cosf t)"
proof -
  note d = Init_tables_def Let_def sensor_angles_def xt_laser_offsets_def xt_lasers_def
    HS_LIDAR_XT16_UNIT_NUM_def HS_LIDAR_XT_UNIT_NUM_def MAX_LASER_NUM_def
  have n: "fbetween (- 6) 6 (pandarXT_horizatal_azimuth_offset_map ! j)"
    "fbetween (- 6) 6 (pandarXTM_horizatal_azimuth_offset_map ! j)"
    "fbetween 0 66 (laserXTOffset ! j)" "fbetween 0 66 (laserXTMOffset ! j)" if "j < 32" for j
    using that offset_tables(4,5) laser_xt_rows by (simp_all add: list_all_length)
  have "laser_ok (Init_tables sinf cosf t) i" if i: "i < xt_lasers t" for i
    using t i n [of i] n [of "i * 2"] by (auto simp: d laser_ok_def)
  moreover have "geti (blockXTOffsetSingle_m (Init_tables sinf cosf t)) b \<noteq> None \<and>
      geti (blockXTOffsetDual_m (Init_tables sinf cosf t)) b \<noteq> None \<and>
      (t = ''PandarXTM'' \<longrightarrow> geti (blockXTOffsetTriple_m (Init_tables sinf cosf t)) b \<noteq> None)" if "b < 8" for b
    using that by (auto simp: d)
  ultimately show ?thesis by (simp add: xt_tables_def list_all_iff)
qed

lemma xt_tables_laser:
  assumes "xt_tables t tb" and "i < xt_lasers t"
  shows "\<exists>off las. geti (General_horizatal_azimuth_offset_map tb) i = Some off \<and>
      geti (laserXTOffset_m tb) i = Some las \<and> fbetween (- 6) 6 off \<and> fbetween 0 66 las"
    and "i < length (sin_elevation_map tb)" and "i < length (cos_elevation_map tb)"
proof -
  have "laser_ok tb i" using assms by (simp add: xt_tables_def list_all_iff)
  then show "\<exists>off las. geti (General_horizatal_azimuth_offset_map tb) i = Some off \<and>
      geti (laserXTOffset_m tb) i = Some las \<and> fbetween (- 6) 6 off \<and> fbetween 0 66 las"
    and "i < length (sin_elevation_map tb)" and "i < length (cos_elevation_map tb)"
    by (auto simp: laser_ok_def split: option.splits)
qed

lemma xt_tables_block:
  "xt_tables t tb \<Longrightarrow> b < 8 \<Longrightarrow> geti (blockXTOffsetSingle_m tb) b \<noteq> None \<and> geti (blockXTOffsetDual_m tb) b \<noteq> None \<and>
    (t = ''PandarXTM'' \<longrightarrow> geti (blockXTOffsetTriple_m tb) b \<noteq> None)"
  by (simp add: xt_tables_def list_all_iff)

lemma xt_tables_azimuth:
  "xt_tables t tb \<Longrightarrow> length (sin_azimuth_map tb) = 36000 \<and> length (cos_azimuth_map tb) = 36000 \<and>
    length (sin_azimuth_map_h tb) = 36000 \<and> length (cos_azimuth_map_h tb) = 36000 \<and>
    length (sin_azimuth_map_b tb) = 36000 \<and> length (cos_azimuth_map_b tb) = 36000"
  by (simp add: xt_tables_def)

lemma plain_xyz_defined:
  assumes "xt_tables t tb" and "i < length (sin_elevation_map tb)" "i < length (cos_elevation_map tb)" "0 \<le> a" "a < 36000"
  shows "\<exists>v. plain_xyz tb d i a = Some v"
  using assms xt_tables_azimuth [OF assms(1)] by (simp add: plain_xyz_def rdi_def Let_def)

lemma xt_xyz_defined:
  assumes tb: "xt_tables t tb" and "i < length (sin_elevation_map tb)" "i < length (cos_elevation_map tb)" "0 \<le> a" "a < 36000"
    and off: "fbetween (- 6) 6 off"
  shows "\<exists>v. xt_xyz tb off d i a = Some v"
proof -
  have m: "isfinite (f_mul off (f_int 100)) \<and> of_int (- 600) \<le> fval (f_mul off (f_int 100)) \<and>
      fval (f_mul off (f_int 100)) \<le> of_int 600"
    using f_between(3) [of off "f_int 100" "- 600" 600] off by (simp add: fbetween_def)
  obtain k where k: "to_i32 (f_mul off (f_int 100)) = Some k" "- 600 \<le> k" "k \<le> 600"
    using to_i32_between [of "f_mul off (f_int 100)" "- 600" 600] m by auto
  then have "nat \<bar>k\<bar> < 36000" by simp
  then show ?thesis using assms(2-5) xt_tables_azimuth [OF tb] k(1) by (simp add: xt_xyz_def rdi_def Let_def)
qed

lemma time_xt_defined:
  assumes tb: "xt_tables t (cc_tbl c)" and i: "i < xt_lasers t" and b: "b < 8"
    and triple: "realtime c \<or> echo pkt \<noteq> 0x3d \<or> t = ''PandarXTM''"
  shows "time_xt c pkt b i \<noteq> None"
  using xt_tables_laser(1) [OF tb i] xt_tables_block [OF tb b] triple by (auto simp: time_xt_def Let_def)

text \<open>
  With tables for an XT sensor, every block and laser of an accepted packet is computed without an
  index outside a table, a read of an unassigned element or an unrepresentable conversion.
\<close>

lemma calc_xt_unit_ok:
  assumes tb: "xt_tables t (cc_tbl c)"
    and parsed: "ParseXTData cs mktime q buf len = Some (0, pkt)" "packet_arrays 8 32 q" "len \<le> length buf"
    and "unat (chLaserNumber (header pkt)) \<le> xt_lasers t"
    and triple: "realtime c \<or> echo pkt \<noteq> 0x3d \<or> t = ''PandarXTM''"
    and "blockid < unat (chBlockNumber (header pkt))" and "i < unat (chLaserNumber (header pkt))"
  shows "calc_xt_unit c pkt blockid i \<noteq> None"
proof -
  note acc = ParseXTData_accepted [OF parsed]
  obtain sp :: u16 where sp: "spin_speed pkt = f_int (uint sp)" using acc by blast
  have b: "blockid < 8" and i: "i < xt_lasers t" "i < 32" using acc assms(5,7,8) by auto
  then have idx: "blockid < length (blocks pkt)" "i < length (units (blocks pkt ! blockid))"
    using acc by (auto simp: packet_arrays_def list_all_length)
  obtain off las where ol: "geti (General_horizatal_azimuth_offset_map (cc_tbl c)) i = Some off"
    "geti (laserXTOffset_m (cc_tbl c)) i = Some las" "fbetween (- 6) 6 off" "fbetween 0 66 las"
    using xt_tables_laser(1) [OF tb i(1)] by blast
  have "azimuth_ok (azimuth_plus off az (GetFiretimeOffset (f_int (uint sp)) las))" for az
    using ol by (intro azimuth_ok_plus [where A = 6 and D = 6 and B = 66 and G = 26]) auto
  then obtain a where a: "azimuth_plus off (azimuth (blocks pkt ! blockid))
      (GetFiretimeOffset (spin_speed pkt) las) = Some a" "0 \<le> wrap_azimuth a" "wrap_azimuth a < 36000"
    unfolding azimuth_ok_def sp MAX_AZIMUTH_DEGREE_NUM_def by (fastforce split: option.splits)
  note el = xt_tables_laser(2,3) [OF tb i(1)]
  obtain v w tm where
    "plain_xyz (cc_tbl c) (distance (units (blocks pkt ! blockid) ! i)) i (wrap_azimuth a) = Some v"
    "xt_xyz (cc_tbl c) off (distance (units (blocks pkt ! blockid) ! i)) i (wrap_azimuth a) = Some w"
    "time_xt c pkt blockid i = Some tm"
    using plain_xyz_defined [OF tb el a(2,3)] xt_xyz_defined [OF tb el a(2,3) ol(3)]
      time_xt_defined [OF tb i(1) b triple] by blast
  then show ?thesis using idx ol(1,2) a(1) by (simp add: calc_xt_unit_def)
qed

definition demo_cfg :: "string \<Rightarrow> cfg" where
  "demo_cfg t = \<lparr>lidarType = t, timestampType = '''', pclType = 0, tzSecond = 0, startAngle = 0,
     coordCorrection = True, hasCallback = True, sensorFrame = '''', fixedFrame = '''',
     frameId = ''hesai_lidar''\<rparr>"

definition demo_ctx :: "string \<Rightarrow> calc_ctx" where
  "demo_ctx t = \<lparr>cc_cfg = demo_cfg t, cc_tbl = Init_tables (\<lambda>x. x) (\<lambda>x. x) t, cc_targetFrame = '''',
     cc_toFixed = (\<lambda>p. p), cc_toTarget = (\<lambda>p. p), cc_pktTimestamp = d_int 0\<rparr>"

lemma demo_msg_parsed:
  "\<exists>p. ParseXTData True (\<lambda>t. (0, t)) blank_xt_packet (encode_xt demo_msg) (length (encode_xt demo_msg))
      = Some (0, p) \<and> chLaserNumber (header p) = 16 \<and> chBlockNumber (header p) = 8 \<and> echo p = 0x37"
proof -
  have "wf_xt_msg demo_msg" by code_simp
  moreover have "m_lasers demo_msg = 16" "length (m_blocks demo_msg) = 8" "m_echo demo_msg = 0x37" by code_simp+
  ultimately show ?thesis
    using ParseXTData_encoded [of demo_msg blank_xt_packet True "\<lambda>t. (0, t)" "[]"] by auto
qed

section \<open>Elements that are read and never assigned\<close>

text \<open>
  C39. Three reads of elements that do not exist or never receive a value. Channel 7 of a
  Pandar40P: \<^verbatim>\<open>Init\<close> assigns \<^verbatim>\<open>laser40Offset_[9]\<close> twice and
  \<^verbatim>\<open>[7]\<close> never, so every valid return of that channel uses an indeterminate firing offset.
  The seventh block of a Pandar64 packet with sensor time stamps indexes the six-element block
  offset arrays past their end. A triple-return XT packet with sensor time stamps reads the
  triple-return offsets, which only an XTM fills in.
\<close>

theorem unassigned_offsets_read:
  "(\<forall>pkt b blk u. rd (p40_blocks pkt) b = Some blk \<and> rd (p40_units blk) 7 = Some u \<and>
      \<not> wrong_distance (p40_distance u) \<longrightarrow> calc_40p_unit c pkt b 7 = None) \<and>
   (\<forall>pkt i blk u. \<not> realtime c \<and> rd (blocks pkt) 6 = Some blk \<and> rd (units blk) i = Some u \<and>
      \<not> wrong_distance (distance u) \<longrightarrow> calc_l64_unit c pkt 6 i = None) \<and>
   (\<forall>pkt b i blk u t sinf cosf. \<not> realtime c \<and> t \<noteq> ''PandarXTM'' \<and> cc_tbl c = Init_tables sinf cosf t \<and>
      rd (blocks pkt) b = Some blk \<and> rd (units blk) i = Some u \<and> \<not> wrong_distance (distance u) \<and>
      echo pkt = 0x3d \<longrightarrow> calc_xt_unit c pkt b i = None)"
proof (intro conjI allI impI)
  fix pkt b blk u
  have "geti laser40Offset 7 = None" by (simp add: laser40Offset_def geti_assigns_unset)
  then show "calc_40p_unit c pkt b 7 = None"
    if "rd (p40_blocks pkt) b = Some blk \<and> rd (p40_units blk) 7 = Some u \<and> \<not> wrong_distance (p40_distance u)"
    using that by (simp add: calc_40p_unit_def)
next
  fix pkt :: HS_LIDAR_L64_Packet and i blk u
  assume a: "\<not> realtime c \<and> rd (blocks pkt) 6 = Some blk \<and> rd (units blk) i = Some u \<and>
    \<not> wrong_distance (distance u)"
  have "geti block64OffsetDual 6 = None" "geti block64OffsetSingle 6 = None"
    by (simp_all add: block64OffsetDual_def block64OffsetSingle_def geti_assigns_unset)
  then show "calc_l64_unit c pkt 6 i = None" using a by (simp add: calc_l64_unit_def time_l64_def)
next
  fix pkt :: HS_LIDAR_XT_Packet and b i blk u t sinf cosf
  assume a: "\<not> realtime c \<and> t \<noteq> ''PandarXTM'' \<and> cc_tbl c = Init_tables sinf cosf t \<and>
      rd (blocks pkt) b = Some blk \<and> rd (units blk) i = Some u \<and> \<not> wrong_distance (distance u) \<and>
      echo pkt = 0x3d"
  then have "geti (blockXTOffsetTriple_m (cc_tbl c)) b = None" by (simp add: Init_tables_def Let_def)
  with a have "time_xt c pkt b i = None" by (simp add: time_xt_def Let_def)
  with a show "calc_xt_unit c pkt b i = None" by (simp add: calc_xt_unit_def)
qed

definition demo_40p_packet :: Pandar40PPacket where
  "demo_40p_packet = \<lparr>p40_blocks = replicate 10 \<lparr>p40_azimuth = 0, p40_sob = 0xEEFF,
       p40_units = replicate 40 \<lparr>p40_intensity = 9, p40_distance = d_int 5\<rparr>\<rparr>,
     p40_t = \<lparr>tm_year = 0, tm_mon = 0, tm_mday = 0, tm_hour = 0, tm_min = 0, tm_sec = 0, tm_isdst = 0\<rparr>,
     p40_usec = 0, p40_echo = 0x37, p40_timestamp_point = d_int 0, p40_spin_speed = f_int 600\<rparr>"

theorem unassigned_offsets_read_witness: "calc_40p_unit (demo_ctx ''Pandar40P'') demo_40p_packet 0 7 = None"
proof -
  have "\<not> wrong_distance (d_int 5)" by code_simp
  then show ?thesis
    using unassigned_offsets_read [THEN conjunct1, rule_format, of demo_40p_packet 0 _ _ "demo_ctx ''Pandar40P''"]
    by (simp add: demo_40p_packet_def rd_def)
qed

end
