(* ===== verification/Driver_Props.thy ===== *)
theory Driver_Props
  imports Driver Point_Props
begin

text \<open>
  Facts about the driver: the points of accepted packets reach the callback in order and
  without loss, refused packets leave no trace in the frame, what a delivered cloud looks like,
  the XT path has no undefined behaviour, and a non-empty target frame stops the thread.
\<close>

section \<open>Points in the driver\<close>

definition pending :: "driver \<Rightarrow> point list" where
  "pending d = map (pointCloud d) [0..<pointIndex d]"

definition delivered :: "driver \<Rightarrow> point list" where
  "delivered d = concat (map (cl_points \<circ> em_cloud) (emitted d))"

lemma pending_push:
  "pending (d\<lparr>pointCloud := (pointCloud d)(pointIndex d := p), pointIndex := pointIndex d + 1\<rparr>) = pending d @ [p]"
  by (simp add: pending_def)

text \<open>The points of a list of units.\<close>

definition unit_points :: "(nat \<Rightarrow> point option option) \<Rightarrow> nat list \<Rightarrow> point list" where
  "unit_points g is = concat (map (\<lambda>i. case g i of Some (Some p) \<Rightarrow> [p] | _ \<Rightarrow> []) is)"

lemma unit_points_simps [simp]:
  "unit_points g [] = []"
  "unit_points g (i # is) = (case g i of Some (Some p) \<Rightarrow> [p] | _ \<Rightarrow> []) @ unit_points g is"
  by (simp_all add: unit_points_def)

text \<open>What the frame consists of, and what a point computation reads.\<close>

lemma ctx_of_simps [simp]:
  "ctx_of (d\<lparr>pointCloud := a\<rparr>) = ctx_of d" "ctx_of (d\<lparr>pointIndex := b\<rparr>) = ctx_of d"
  "ctx_of (d\<lparr>pointCloudList := l\<rparr>) = ctx_of d" "ctx_of (d\<lparr>scan := s\<rparr>) = ctx_of d"
  "ctx_of (d\<lparr>outMsg := m\<rparr>) = ctx_of d" "ctx_of (d\<lparr>emitted := es\<rparr>) = ctx_of d"
  "ctx_of (d\<lparr>lastAzimuth := az\<rparr>) = ctx_of d" "ctx_of (d\<lparr>lastTimestamp := t\<rparr>) = ctx_of d"
  "ctx_of (d\<lparr>tfBuffer := tb\<rparr>) = ctx_of d" "ctx_of (d\<lparr>emptyCloudDrops := n\<rparr>) = ctx_of d"
  "ctx_of (d\<lparr>seqTracker := st\<rparr>) = ctx_of d" "ctx_of (d\<lparr>sequenceGapPackets := n\<rparr>) = ctx_of d"
  "ctx_of (d\<lparr>sequenceRestarts := n\<rparr>) = ctx_of d" "ctx_of (d\<lparr>sequenceDuplicates := n\<rparr>) = ctx_of d"
  "ctx_of (d\<lparr>sequenceBackwards := n\<rparr>) = ctx_of d"
  by (simp_all add: ctx_of_def)

definition frame_state :: "driver \<Rightarrow> nat \<times> (nat \<Rightarrow> point) \<times> point list list \<times> emission list \<times>
    packet_msg list \<times> cloud \<times> u16 \<times> fp" where
  "frame_state d = (pointIndex d, pointCloud d, pointCloudList d, emitted d, scan d, outMsg d,
     lastAzimuth d, lastTimestamp d)"

section \<open>No point is lost\<close>

text \<open>
  The configuration of the shipped launch files: one cloud in firing order, no transforms. The
  interesting part of the state is in three components.
\<close>

definition plain :: "driver \<Rightarrow> bool" where
  "plain d \<longleftrightarrow> pclType (d_cfg d) = 0 \<and> targetFrame d = [] \<and> fixedFrame (d_cfg d) = []"

lemma plain_simps [simp]:
  "plain (d\<lparr>pointCloud := a\<rparr>) = plain d" "plain (d\<lparr>pointIndex := b\<rparr>) = plain d"
  "plain (d\<lparr>scan := s\<rparr>) = plain d" "plain (d\<lparr>outMsg := m\<rparr>) = plain d"
  "plain (d\<lparr>lastAzimuth := az\<rparr>) = plain d" "plain (d\<lparr>lastTimestamp := t\<rparr>) = plain d"
  "plain (d\<lparr>emitted := es\<rparr>) = plain d" "plain (d\<lparr>emptyCloudDrops := n\<rparr>) = plain d"
  "plain (d\<lparr>pointCloudList := l\<rparr>) = plain d"
  "plain (d\<lparr>tfBuffer := tb\<rparr>) = plain d" "plain (d\<lparr>seqTracker := st\<rparr>) = plain d"
  "plain (d\<lparr>pktTimestamp := ts\<rparr>) = plain d" "plain (d\<lparr>tsGuard := g\<rparr>) = plain d"
  "plain (d\<lparr>processedPackets := n\<rparr>) = plain d" "plain (d\<lparr>timestampRegressions := n\<rparr>) = plain d"
  by (simp_all add: plain_def)

definition all_points :: "driver \<Rightarrow> point list" where
  "all_points d = delivered d @ pending d"

text \<open>\<open>d'\<close> adds the points \<open>ps\<close> to \<open>d\<close> and leaves the configuration and the guards alone.\<close>

definition adds :: "driver \<Rightarrow> point list \<Rightarrow> driver \<Rightarrow> bool" where
  "adds d ps d' \<longleftrightarrow> plain d' \<and> ctx_of d' = ctx_of d \<and> tsGuard d' = tsGuard d \<and>
     seqTracker d' = seqTracker d \<and> processedPackets d' = processedPackets d \<and>
     all_points d' = all_points d @ ps"

lemma adds_refl: "plain d \<Longrightarrow> adds d [] d"
  by (simp add: adds_def)

lemma adds_trans: "adds d ps d1 \<Longrightarrow> adds d1 qs d2 \<Longrightarrow> adds d (ps @ qs) d2"
  by (simp add: adds_def)

lemma upt_next: "[i..<i + Suc n] = i # [Suc i..<Suc i + n]"
  by (simp add: upt_conv_Cons del: upt_Suc)

lemma store_point_plain:
  assumes "plain d" and "store_point u i p d = Some d'"
  shows "adds d [p] d'"
  using assms
  by (auto simp: store_point_def adds_def plain_def all_points_def delivered_def pending_def
      split: if_splits)

lemma calc_units_plain:
  assumes "plain d" and "calc_units u (\<lambda>d. g (ctx_of d)) n i d = Some d'"
  shows "adds d (unit_points (g (ctx_of d)) [i..<i + n]) d'"
  using assms
proof (induction n arbitrary: i d)
  case 0
  then show ?case by (simp add: adds_refl)
next
  case (Suc n)
  from Suc.prems(2) obtain r d1 where r: "g (ctx_of d) i = Some r"
    "(case r of None \<Rightarrow> Some d | Some p \<Rightarrow> store_point u i p d) = Some d1"
    "calc_units u (\<lambda>d. g (ctx_of d)) n (Suc i) d1 = Some d'"
    by (auto simp: bind_eq_Some_conv)
  have one: "adds d (case g (ctx_of d) i of Some (Some p) \<Rightarrow> [p] | _ \<Rightarrow> []) d1"
    using r(1,2) Suc.prems(1) by (auto simp: adds_refl store_point_plain split: option.splits)
  then have "adds d1 (unit_points (g (ctx_of d1)) [Suc i..<Suc i + n]) d'"
    using r(3) by (intro Suc.IH) (auto simp: adds_def)
  moreover have "ctx_of d1 = ctx_of d" using one by (simp add: adds_def)
  ultimately show ?case unfolding upt_next using adds_trans [OF one] by (simp del: upt_Suc)
qed

lemma EmitBackMessege_plain:
  assumes "plain d" and "EmitBackMessege n d = Some d'"
  shows "adds d [] d'"
  using assms
  by (auto simp: EmitBackMessege_def Let_def adds_def plain_def all_points_def delivered_def pending_def ctx_of_def
      split: if_splits list.splits)

lemma finish_frame_plain:
  assumes "plain d" and "finish_frame e lasers raw d = Some (Next, d')"
  shows "adds d [] d'"
proof -
  from assms(2) obtain cor d1 where 1: "EmitBackMessege lasers (d\<lparr>scan := scan d @ [cor]\<rparr>) = Some d1"
    "with_stamp e raw (computeTransformToTarget e) (d1\<lparr>scan := []\<rparr>) = (Next, d')"
    by (auto simp: finish_frame_def bind_eq_Some_conv)
  have a: "adds (d\<lparr>scan := scan d @ [cor]\<rparr>) [] d1" using 1 assms(1) by (intro EmitBackMessege_plain) auto
  then have "d' = d1\<lparr>scan := []\<rparr>"
    using 1(2) by (auto simp: with_stamp_def computeTransformToTarget_def adds_def plain_def split: option.splits)
  then show ?thesis using a by (simp add: adds_def all_points_def delivered_def pending_def)
qed

lemma process_block_plain:
  assumes "plain d" and "process_block e u lasers raw tp az (\<lambda>d. g (ctx_of d)) d = Some (Next, d')"
  shows "adds d (unit_points (g (ctx_of d)) [0..<lasers]) d'"
proof -
  from assms(2) obtain d1 d2 where
    1: "(if frame_ends d az tp then finish_frame e lasers raw d else Some (Next, d)) = Some (Next, d1)" and
    2: "calc_units u (\<lambda>d. g (ctx_of d)) lasers 0 d1 = Some d2"
    "d' = d2\<lparr>lastAzimuth := az, lastTimestamp := tp\<rparr>"
    by (auto simp: process_block_def bind_eq_Some_conv split: if_splits)
  have a: "adds d [] d1"
    using 1 assms(1) finish_frame_plain by (auto simp: adds_refl split: if_splits)
  then have "adds d1 (unit_points (g (ctx_of d1)) [0..<0 + lasers]) d2"
    using 2(1) by (intro calc_units_plain) (auto simp: adds_def)
  with a show ?thesis
    by (simp add: 2(2) adds_def all_points_def delivered_def pending_def)
qed

lemma process_blocks_plain:
  assumes "plain d"
    and "process_blocks e u lasers raw tp az (\<lambda>b d. g b (ctx_of d)) n i d = Some (Next, d')"
  shows "adds d (concat (map (\<lambda>b. unit_points (g b (ctx_of d)) [0..<lasers]) [i..<i + n])) d'"
  using assms
proof (induction n arbitrary: i d)
  case 0
  then show ?case by (simp add: adds_refl)
next
  case (Suc n)
  from Suc.prems(2) obtain a d1 where
    1: "process_block e u lasers raw tp a (\<lambda>d. g i (ctx_of d)) d = Some (Next, d1)"
    "process_blocks e u lasers raw tp az (\<lambda>b d. g b (ctx_of d)) n (Suc i) d1 = Some (Next, d')"
    by (auto simp: bind_eq_Some_conv split: if_splits)
  have a: "adds d (unit_points (g i (ctx_of d)) [0..<lasers]) d1"
    using 1 Suc.prems(1) by (intro process_block_plain)
  then have "adds d1 (concat (map (\<lambda>b. unit_points (g b (ctx_of d1)) [0..<lasers]) [Suc i..<Suc i + n])) d'"
    using 1(2) by (intro Suc.IH) (auto simp: adds_def)
  moreover have "ctx_of d1 = ctx_of d" using a by (simp add: adds_def)
  ultimately show ?case unfolding upt_next using adds_trans [OF a] by (simp del: upt_Suc)
qed

lemmas process_blocks_plain0 = process_blocks_plain [where i = 0, unfolded add_0]

text \<open>
  The specification of what a packet contributes: nothing when it is refused, otherwise the points
  of its units, block by block. \<open>decode\<close> is the choice of the format by size and sensor type with
  the parser's verdict.
\<close>

datatype decoded =
  D40 Pandar40PPacket | D64 HS_LIDAR_L64_Packet | D20 HS_LIDAR_L20_Packet
| DQT HS_LIDAR_QT_Packet | DXT HS_LIDAR_XT_Packet

definition verdict :: "('p \<Rightarrow> decoded) \<Rightarrow> (int \<times> 'p) option \<Rightarrow> decoded option" where
  "verdict f r = (case r of Some (ret, pkt) \<Rightarrow> if ret = 0 then Some (f pkt) else None | None \<Rightarrow> None)"

definition decode :: "env \<Rightarrow> string \<Rightarrow> PandarPacket \<Rightarrow> decoded option" where
  "decode e t p =
     (let n = pp_size p; b = pp_data p; cs = char_signed e; mk = mktime_fn e
      in if is_40p_size n then verdict D40 (ParseRawData mk stack_40p b n)
         else if is_l64_size n
           then verdict D64 (ParseL64Data cs mk (blank_packet blank_l64_header blank_l64_unit 7 64) b n)
         else if n = HS_LIDAR_L20_PACKET_SIZE
           then verdict D20 (ParseL20Data cs mk (blank_packet blank_l64_header blank_l64_unit 20 20) b n)
         else if is_qt_size n
           then verdict DQT (ParseQTData cs mk (blank_packet blank_xt_header blank_xt_unit 4 64) b n)
         else if is_xt_size t n then verdict DXT (ParseXTData cs mk blank_xt_packet b n)
         else None)"

definition block_points ::
  "bool \<Rightarrow> byte \<Rightarrow> byte \<Rightarrow> (nat \<Rightarrow> nat \<Rightarrow> point option option) \<Rightarrow> point list" where
  "block_points cs lasers nblocks g =
     concat (map (\<lambda>b. unit_points (g b) [0..<char_count cs lasers]) [0..<char_count cs nblocks])"

fun decoded_points :: "env \<Rightarrow> calc_ctx \<Rightarrow> decoded \<Rightarrow> point list" where
  "decoded_points e c (D40 k) =
     concat (map (\<lambda>b. unit_points (calc_40p_unit c k b) [0..<LASER_COUNT]) [0..<BLOCKS_PER_PACKET])"
| "decoded_points e c (D64 k) =
     block_points (char_signed e) (chLaserNumber (header k)) (chBlockNumber (header k)) (calc_l64_unit c k)"
| "decoded_points e c (D20 k) =
     block_points (char_signed e) (chLaserNumber (header k)) (chBlockNumber (header k)) (calc_l20_unit c k)"
| "decoded_points e c (DQT k) =
     block_points (char_signed e) (chLaserNumber (header k)) (chBlockNumber (header k)) (calc_qt_unit e c k)"
| "decoded_points e c (DXT k) =
     block_points (char_signed e) (chLaserNumber (header k)) (chBlockNumber (header k)) (calc_xt_unit c k)"

fun in_sequence :: "XtSequenceTracker \<Rightarrow> fp \<Rightarrow> decoded \<Rightarrow> bool" where
  "in_sequence t stamp (DXT k) = seq_accepted (fst (seq_observe t (udp_sequence k) stamp))"
| "in_sequence t stamp _ = True"

text \<open>The outcome of one format.\<close>

lemma finish_packet_Next: "finish_packet rs = (Next, d') \<Longrightarrow> \<exists>d1. rs = (Next, d1) \<and>
    d' = d1\<lparr>outMsg := (outMsg d1)\<lparr>cl_frame_id := frameId (d_cfg d1), cl_height := 1\<rparr>\<rparr>"
  by (auto simp: finish_packet_def split: prod.splits if_splits)

lemma adds_frame: "adds d ps d1 \<Longrightarrow> adds d ps (d1\<lparr>outMsg := m\<rparr>)"
  by (simp add: adds_def all_points_def delivered_def pending_def)

lemma adds_scan: "adds (d\<lparr>scan := s\<rparr>) ps d1 \<Longrightarrow> adds d ps d1"
  by (simp add: adds_def all_points_def delivered_def pending_def)

lemma process_general_plain:
  assumes "plain d"
    and "process_general e u raw nl nb pkt (\<lambda>b d. g b (ctx_of d)) d = Some (Next, d')"
  shows "adds d (block_points (char_signed (base e)) nl nb (\<lambda>b. g b (ctx_of d))) d'"
proof -
  let ?cs = "char_signed (base e)"
  from assms(2) obtain rs where rs: "process_blocks e u (char_count ?cs nl) raw (timestamp_point pkt)
      (\<lambda>i. map_option azimuth (rd (blocks pkt) i)) (\<lambda>b d. g b (ctx_of d)) (char_count ?cs nb) 0
      (d\<lparr>scan := scan d @ [raw]\<rparr>) = Some rs" "finish_packet rs = (Next, d')"
    by (auto simp: process_general_def Let_def)
  obtain d1 where d1: "rs = (Next, d1)"
    "d' = d1\<lparr>outMsg := (outMsg d1)\<lparr>cl_frame_id := frameId (d_cfg d1), cl_height := 1\<rparr>\<rparr>"
    using finish_packet_Next [OF rs(2)] by blast
  have "adds (d\<lparr>scan := scan d @ [raw]\<rparr>)
      (concat (map (\<lambda>b. unit_points (g b (ctx_of d)) [0..<char_count ?cs nl]) [0..<char_count ?cs nb])) d1"
    using process_blocks_plain0 [where g = g, OF _ rs(1) [unfolded d1(1)]] assms(1) by simp
  then show ?thesis unfolding d1(2) block_points_def by (rule adds_frame [OF adds_scan])
qed

lemma parsed_plain:
  assumes "plain d"
    and "(do { (ret, pkt) \<leftarrow> pr; if ret \<noteq> 0 then Some (Next, d) else f pkt }) = Some (Next, d')"
    and "\<And>pkt. f pkt = Some (Next, d') \<Longrightarrow> adds d (decoded_points e c (D pkt)) d'"
  shows "adds d (case verdict D pr of None \<Rightarrow> [] | Some k \<Rightarrow> decoded_points e c k) d'"
  using assms by (auto simp: verdict_def bind_eq_Some_conv adds_refl split: if_splits option.splits)

lemma process_40p_plain:
  assumes "plain d" and "process_40p e p raw pkt0 d = Some (Next, d')"
  shows "adds d (case verdict D40 (ParseRawData (mktime_fn (base e)) pkt0 (pp_data p) (pp_size p)) of
      None \<Rightarrow> [] | Some k \<Rightarrow> decoded_points (base e) (ctx_of d) k) d'"
proof (rule parsed_plain [OF assms(1) assms(2) [unfolded process_40p_def]])
  fix pkt
  assume "map_option finish_packet (process_blocks e False LASER_COUNT raw (p40_timestamp_point pkt)
          (\<lambda>i. map_option p40_azimuth (rd (p40_blocks pkt) i)) (\<lambda>b d. calc_40p_unit (ctx_of d) pkt b)
          BLOCKS_PER_PACKET 0 (d\<lparr>scan := scan d @ [raw]\<rparr>)) = Some (Next, d')"
  then obtain rs where rs: "process_blocks e False LASER_COUNT raw (p40_timestamp_point pkt)
          (\<lambda>i. map_option p40_azimuth (rd (p40_blocks pkt) i)) (\<lambda>b d. calc_40p_unit (ctx_of d) pkt b)
          BLOCKS_PER_PACKET 0 (d\<lparr>scan := scan d @ [raw]\<rparr>) = Some rs" "finish_packet rs = (Next, d')"
    by auto
  obtain d1 where d1: "rs = (Next, d1)"
    "d' = d1\<lparr>outMsg := (outMsg d1)\<lparr>cl_frame_id := frameId (d_cfg d1), cl_height := 1\<rparr>\<rparr>"
    using finish_packet_Next [OF rs(2)] by blast
  have "adds (d\<lparr>scan := scan d @ [raw]\<rparr>) (decoded_points (base e) (ctx_of d) (D40 pkt)) d1"
    using process_blocks_plain0 [where g = "\<lambda>b c. calc_40p_unit c pkt b", OF _ rs(1) [unfolded d1(1)]]
      assms(1) by simp
  then show "adds d (decoded_points (base e) (ctx_of d) (D40 pkt)) d'"
    unfolding d1(2) by (rule adds_frame [OF adds_scan])
qed

lemma process_l64_plain:
  assumes "plain d" and "process_l64 e p raw pkt0 d = Some (Next, d')"
  shows "adds d (case verdict D64 (ParseL64Data (char_signed (base e)) (mktime_fn (base e)) pkt0 (pp_data p) (pp_size p)) of
      None \<Rightarrow> [] | Some k \<Rightarrow> decoded_points (base e) (ctx_of d) k) d'"
proof (rule parsed_plain [OF assms(1) assms(2) [unfolded process_l64_def]])
  fix pkt
  assume "process_general e False raw (chLaserNumber (header pkt)) (chBlockNumber (header pkt)) pkt
    (\<lambda>b d. calc_l64_unit (ctx_of d) pkt b) d = Some (Next, d')"
  from process_general_plain [where g = "\<lambda>b c. calc_l64_unit c pkt b", OF assms(1) this]
  show "adds d (decoded_points (base e) (ctx_of d) (D64 pkt)) d'" by simp
qed

lemma process_l20_plain:
  assumes "plain d" and "process_l20 e p raw pkt0 d = Some (Next, d')"
  shows "adds d (case verdict D20 (ParseL20Data (char_signed (base e)) (mktime_fn (base e)) pkt0 (pp_data p) (pp_size p)) of
      None \<Rightarrow> [] | Some k \<Rightarrow> decoded_points (base e) (ctx_of d) k) d'"
proof (rule parsed_plain [OF assms(1) assms(2) [unfolded process_l20_def]])
  fix pkt
  assume "process_general e False raw (chLaserNumber (header pkt)) (chBlockNumber (header pkt)) pkt
    (\<lambda>b d. calc_l20_unit (ctx_of d) pkt b) d = Some (Next, d')"
  from process_general_plain [where g = "\<lambda>b c. calc_l20_unit c pkt b", OF assms(1) this]
  show "adds d (decoded_points (base e) (ctx_of d) (D20 pkt)) d'" by simp
qed

lemma process_qt_plain:
  assumes "plain d" and "process_qt e p raw pkt0 d = Some (Next, d')"
  shows "adds d (case verdict DQT (ParseQTData (char_signed (base e)) (mktime_fn (base e)) pkt0 (pp_data p) (pp_size p)) of
      None \<Rightarrow> [] | Some k \<Rightarrow> decoded_points (base e) (ctx_of d) k) d'"
proof (rule parsed_plain [OF assms(1) assms(2) [unfolded process_qt_def]])
  fix pkt
  assume "process_general e True raw (chLaserNumber (header pkt)) (chBlockNumber (header pkt)) pkt
    (\<lambda>b d. calc_qt_unit (base e) (ctx_of d) pkt b) d = Some (Next, d')"
  from process_general_plain [where g = "\<lambda>b c. calc_qt_unit (base e) c pkt b", OF assms(1) this]
  show "adds d (decoded_points (base e) (ctx_of d) (DQT pkt)) d'" by simp
qed

lemma observe_sequence_simps:
  "fst (observe_sequence n stamp d) = seq_accepted (fst (seq_observe (seqTracker d) n stamp))"
  "frame_state (snd (observe_sequence n stamp d)) = frame_state d"
  "ctx_of (snd (observe_sequence n stamp d)) = ctx_of d"
  "d_cfg (snd (observe_sequence n stamp d)) = d_cfg d"
  "targetFrame (snd (observe_sequence n stamp d)) = targetFrame d"
  "tsGuard (snd (observe_sequence n stamp d)) = tsGuard d"
  "processedPackets (snd (observe_sequence n stamp d)) = processedPackets d"
  "seqTracker (snd (observe_sequence n stamp d)) = snd (seq_observe (seqTracker d) n stamp)"
  by (simp_all add: observe_sequence_def seq_accepted_def frame_state_def Let_def
      split: prod.splits SequenceStatus.splits)

lemma observe_sequence_adds:
  "plain d \<Longrightarrow> adds (d\<lparr>seqTracker := snd (seq_observe (seqTracker d) n stamp)\<rparr>) []
     (snd (observe_sequence n stamp d))"
  using observe_sequence_simps(2-8) [of n stamp d]
  by (simp add: adds_def plain_def all_points_def delivered_def pending_def frame_state_def)

fun next_tracker :: "XtSequenceTracker \<Rightarrow> fp \<Rightarrow> decoded option \<Rightarrow> XtSequenceTracker" where
  "next_tracker t stamp (Some (DXT k)) = snd (seq_observe t (udp_sequence k) stamp)"
| "next_tracker t stamp _ = t"

lemma same_tracker [simp]: "d\<lparr>seqTracker := seqTracker d\<rparr> = (d :: driver)"
  by (cases d) simp

text \<open>The points of a decoded packet, if the tracker lets it pass.\<close>

definition kept :: "env \<Rightarrow> calc_ctx \<Rightarrow> XtSequenceTracker \<Rightarrow> fp \<Rightarrow> decoded option \<Rightarrow> point list" where
  "kept e c t stamp k =
     (case k of None \<Rightarrow> [] | Some k \<Rightarrow> if in_sequence t stamp k then decoded_points e c k else [])"

lemma process_xt_plain:
  fixes p d e pkt0
  defines "k \<equiv> verdict DXT (ParseXTData (char_signed (base e)) (mktime_fn (base e)) pkt0 (pp_data p) (pp_size p))"
  assumes "plain d" and "process_xt e p raw pkt0 d = Some (Next, d')"
  shows "adds (d\<lparr>seqTracker := next_tracker (seqTracker d) (pp_stamp p) k\<rparr>)
    (kept (base e) (ctx_of d) (seqTracker d) (pp_stamp p) k) d'"
proof -
  from assms(3) obtain ret pkt where pr: "ParseXTData (char_signed (base e)) (mktime_fn (base e)) pkt0 (pp_data p) (pp_size p)
      = Some (ret, pkt)"
    by (auto simp: process_xt_def bind_eq_Some_conv)
  obtain ok d1 where ob: "observe_sequence (udp_sequence pkt) (pp_stamp p) d = (ok, d1)" by fastforce
  let ?d = "d\<lparr>seqTracker := snd (seq_observe (seqTracker d) (udp_sequence pkt) (pp_stamp p))\<rparr>"
  have a: "adds ?d [] d1" using observe_sequence_adds [OF assms(2), of "udp_sequence pkt" "pp_stamp p"] ob by simp
  have ok: "ok = in_sequence (seqTracker d) (pp_stamp p) (DXT pkt)"
    using observe_sequence_simps(1) [of "udp_sequence pkt" "pp_stamp p" d] ob by simp
  consider "ret \<noteq> 0" | "ret = 0" "\<not> ok" | "ret = 0" ok by blast
  then show ?thesis
  proof cases
    case 3
    then have "process_general e False raw (chLaserNumber (header pkt)) (chBlockNumber (header pkt)) pkt
        (\<lambda>b d. calc_xt_unit (ctx_of d) pkt b) d1 = Some (Next, d')"
      using assms(3) pr ob by (simp add: process_xt_def)
    then have "adds d1 (decoded_points (base e) (ctx_of d1) (DXT pkt)) d'"
      using process_general_plain [where d = d1 and g = "\<lambda>b c. calc_xt_unit c pkt b"] a by (simp add: adds_def)
    then have "adds ?d ([] @ decoded_points (base e) (ctx_of d) (DXT pkt)) d'"
      using a by (intro adds_trans [OF a]) (simp add: adds_def)
    with 3 show ?thesis using pr ok by (simp add: k_def verdict_def kept_def)
  qed (use assms pr ob ok a in \<open>auto simp: k_def process_xt_def verdict_def adds_refl kept_def\<close>)
qed

lemma manage_tf_buffer_frame [simp]:
  "frame_state (manage_tf_buffer d) = frame_state d" "d_cfg (manage_tf_buffer d) = d_cfg d"
  "seqTracker (manage_tf_buffer d) = seqTracker d" "tsGuard (manage_tf_buffer d) = tsGuard d"
  "processedPackets (manage_tf_buffer d) = processedPackets d" "d_tbl (manage_tf_buffer d) = d_tbl d"
  "pktTimestamp (manage_tf_buffer d) = pktTimestamp d"
  "plain d \<Longrightarrow> plain (manage_tf_buffer d)" "plain d \<Longrightarrow> ctx_of (manage_tf_buffer d) = ctx_of d"
  by (simp_all add: manage_tf_buffer_def Let_def frame_state_def plain_def ctx_of_def)

lemma adds_frame_state:
  "frame_state d1 = frame_state d \<Longrightarrow> plain d1 \<Longrightarrow> ctx_of d1 = ctx_of d \<Longrightarrow>
     tsGuard d1 = tsGuard d \<Longrightarrow> seqTracker d1 = seqTracker d \<Longrightarrow>
     processedPackets d1 = processedPackets d \<Longrightarrow> adds d [] d1"
  by (simp add: adds_def all_points_def delivered_def pending_def frame_state_def)

lemma prepared_plain:
  assumes "plain d" and "prepared e raw f d = Some (Next, d')"
  shows "f (manage_tf_buffer d) = Some (Next, d')"
proof -
  have "fixedFrame (d_cfg (manage_tf_buffer d)) = []" using assms(1) by (simp add: plain_def)
  then show ?thesis using assms(2)
    by (auto simp: prepared_def prepare_transform_def with_stamp_def computeTransformToFixed_def
        split: option.splits if_splits)
qed

text \<open>The choice of the format, for the driver and for \<open>decode\<close> together.\<close>

lemma dispatch_formats:
  fixes e p raw d
  defines "cs \<equiv> char_signed (base e)" and "mk \<equiv> mktime_fn (base e)"
    and "k \<equiv> decode (base e) (lidarType (d_cfg d)) p" and "run \<equiv> dispatch_packet e p raw d"
  obtains (F40) "run = prepared e raw (process_40p e p raw stack_40p) d"
      "k = verdict D40 (ParseRawData mk stack_40p (pp_data p) (pp_size p))"
    | (F64) "run = prepared e raw (process_l64 e p raw (blank_packet blank_l64_header blank_l64_unit 7 64)) d"
      "k = verdict D64 (ParseL64Data cs mk (blank_packet blank_l64_header blank_l64_unit 7 64) (pp_data p) (pp_size p))"
    | (F20) "run = prepared e raw (process_l20 e p raw (blank_packet blank_l64_header blank_l64_unit 20 20)) d"
      "k = verdict D20 (ParseL20Data cs mk (blank_packet blank_l64_header blank_l64_unit 20 20) (pp_data p) (pp_size p))"
    | (FQT) "run = prepared e raw (process_qt e p raw (blank_packet blank_xt_header blank_xt_unit 4 64)) d"
      "k = verdict DQT (ParseQTData cs mk (blank_packet blank_xt_header blank_xt_unit 4 64) (pp_data p) (pp_size p))"
    | (FXT) "run = prepared e raw (process_xt e p raw blank_xt_packet) d"
      "k = verdict DXT (ParseXTData cs mk blank_xt_packet (pp_data p) (pp_size p))"
    | (Unknown) "run = Some (Next, d)" "k = None"
  using that unfolding run_def k_def cs_def mk_def dispatch_packet_def decode_def Let_def
  by (cases "is_40p_size (pp_size p)"; cases "is_l64_size (pp_size p)";
      cases "pp_size p = HS_LIDAR_L20_PACKET_SIZE"; cases "is_qt_size (pp_size p)";
      cases "is_xt_size (lidarType (d_cfg d)) (pp_size p)"; simp)

lemma other_formats:
  assumes "\<And>k. in_sequence t st (D k)" "\<And>k. next_tracker t st (Some (D k)) = t"
  shows "kept e c t st (verdict D r) = (case verdict D r of None \<Rightarrow> [] | Some k \<Rightarrow> decoded_points e c k) \<and>
    next_tracker t st (verdict D r) = t"
  using assms by (auto simp: verdict_def kept_def split: option.splits)

lemma dispatch_plain:
  assumes pl: "plain d" and run: "dispatch_packet e p raw d = Some (Next, d')"
  defines "k \<equiv> decode (base e) (lidarType (d_cfg d)) p"
  shows "adds (d\<lparr>seqTracker := next_tracker (seqTracker d) (pp_stamp p) k\<rparr>)
    (kept (base e) (ctx_of d) (seqTracker d) (pp_stamp p) k) d'"
proof -
  let ?m = "manage_tf_buffer d"
  have m: "adds d [] ?m" using pl by (intro adds_frame_state) simp_all
  have via: "adds d ps d'" if "adds ?m ps d'" for ps using adds_trans [OF m that] by simp
  have pm: "plain ?m" and c: "ctx_of ?m = ctx_of d" using pl by simp_all
  show ?thesis
  proof (cases rule: dispatch_formats [of e p raw d])
    case F40
    with run prepared_plain [OF pl] have "process_40p e p raw stack_40p ?m = Some (Next, d')" by simp
    from via [OF process_40p_plain [OF pm this, unfolded c]] F40(2) show ?thesis by (simp add: k_def other_formats)
  next
    case F64
    with run prepared_plain [OF pl]
    have "process_l64 e p raw (blank_packet blank_l64_header blank_l64_unit 7 64) ?m = Some (Next, d')" by simp
    from via [OF process_l64_plain [OF pm this, unfolded c]] F64(2) show ?thesis by (simp add: k_def other_formats)
  next
    case F20
    with run prepared_plain [OF pl]
    have "process_l20 e p raw (blank_packet blank_l64_header blank_l64_unit 20 20) ?m = Some (Next, d')" by simp
    from via [OF process_l20_plain [OF pm this, unfolded c]] F20(2) show ?thesis by (simp add: k_def other_formats)
  next
    case FQT
    with run prepared_plain [OF pl]
    have "process_qt e p raw (blank_packet blank_xt_header blank_xt_unit 4 64) ?m = Some (Next, d')" by simp
    from via [OF process_qt_plain [OF pm this, unfolded c]] FQT(2) show ?thesis by (simp add: k_def other_formats)
  next
    case FXT
    with run prepared_plain [OF pl] have "process_xt e p raw blank_xt_packet ?m = Some (Next, d')" by simp
    note x = process_xt_plain [OF pm this, unfolded c manage_tf_buffer_frame(3)]
    have "adds (d\<lparr>seqTracker := t\<rparr>) [] (?m\<lparr>seqTracker := t\<rparr>)" for t
      using pl by (intro adds_frame_state) (simp_all add: frame_state_def manage_tf_buffer_def Let_def plain_def)
    from adds_trans [OF this x] FXT(2) show ?thesis by (simp add: k_def)
  next
    case Unknown
    with run pl show ?thesis by (simp add: k_def adds_refl kept_def)
  qed
qed

text \<open>
  The abstract driver: the two guards and the points collected so far. It knows nothing of indices,
  frames, scans or clouds.
\<close>

type_synonym collector = "TimestampGuard \<times> XtSequenceTracker \<times> point list"

definition collect :: "drv_env \<Rightarrow> calc_ctx \<Rightarrow> PandarPacket \<Rightarrow> collector \<Rightarrow> collector" where
  "collect e c p =
     (\<lambda>(g, t, pts). let (dec, g') = ts_observe g (pp_stamp p)
        in if ts_accepted dec then
             (let k = decode (base e) (lidarType (cc_cfg c)) p
              in (g', next_tracker t (pp_stamp p) k,
                  pts @ kept (base e) (c\<lparr>cc_pktTimestamp := pp_stamp p\<rparr>) t (pp_stamp p) k))
           else (g', t, pts))"

definition collected :: "driver \<Rightarrow> collector" where
  "collected d = (tsGuard d, seqTracker d, all_points d)"

lemma collect_cong:
  assumes "\<And>x. c\<lparr>cc_pktTimestamp := x\<rparr> = c'\<lparr>cc_pktTimestamp := x\<rparr>"
  shows "collect e c = collect e c'"
proof -
  have cfg: "cc_cfg c = cc_cfg c'"
    using arg_cong [OF assms, of cc_cfg undefined] by simp
  show ?thesis unfolding collect_def cfg assms by (rule refl)
qed

lemma process_packet_plain:
  assumes "plain d" and "process_packet e p d = Some (Next, d')"
  shows "plain d' \<and> (ctx_of d')\<lparr>cc_pktTimestamp := x\<rparr> = (ctx_of d)\<lparr>cc_pktTimestamp := x\<rparr> \<and>
    collected d' = collect e (ctx_of d) p (collected d) \<and> processedPackets d' = processedPackets d + 1"
proof -
  obtain dec g where o: "ts_observe (tsGuard d) (pp_stamp p) = (dec, g)" by fastforce
  show ?thesis
  proof (cases "ts_accepted dec")
    case False
    then have "d' = d\<lparr>processedPackets := processedPackets d + 1, tsGuard := g,
        timestampRegressions := timestampRegressions d + 1\<rparr>"
      using assms(2) o by (simp add: process_packet_def Let_def)
    then show ?thesis using assms(1) o False
      by (simp add: collected_def collect_def all_points_def delivered_def pending_def ctx_of_def)
  next
    case True
    let ?d = "d\<lparr>processedPackets := processedPackets d + 1, tsGuard := g, pktTimestamp := pp_stamp p\<rparr>"
    have c: "ctx_of ?d = (ctx_of d)\<lparr>cc_pktTimestamp := pp_stamp p\<rparr>" by (simp add: ctx_of_def)
    from True assms(2) o obtain raw where "dispatch_packet e p raw ?d = Some (Next, d')"
      by (auto simp: process_packet_def Let_def bind_eq_Some_conv)
    from dispatch_plain [OF _ this] assms(1)
    have a: "adds (?d\<lparr>seqTracker := next_tracker (seqTracker d) (pp_stamp p) (decode (base e) (lidarType (d_cfg d)) p)\<rparr>)
      (kept (base e) ((ctx_of d)\<lparr>cc_pktTimestamp := pp_stamp p\<rparr>) (seqTracker d) (pp_stamp p)
        (decode (base e) (lidarType (d_cfg d)) p)) d'" by (simp add: c)
    have t: "lidarType (cc_cfg (ctx_of d)) = lidarType (d_cfg d)" by (simp add: ctx_of_def)
    show ?thesis
      using a True o unfolding adds_def collected_def collect_def t
      by (simp add: c Let_def all_points_def delivered_def pending_def)
  qed
qed

text \<open>
  C3. Refinement: no point is lost, duplicated or reordered. In the shipped configuration (one
  cloud per frame, no transforms), processing any sequence of packets refines the abstract
  collector. The clouds handed to the callback, concatenated in order and followed by the points
  of the unfinished frame, are exactly the valid points of the accepted packets in packet, block and
  laser order, for all five packet formats and wherever the frame boundaries fall; the two guards
  decide alone which packets are accepted.
\<close>

theorem driver_refines_collector:
  assumes "plain d" and "process_packets e ps d = Some (Next, d')"
  shows "collected d' = fold (collect e (ctx_of d)) ps (collected d)"
  using assms
proof (induction ps arbitrary: d)
  case (Cons p ps)
  from Cons.prems(2) obtain d1 where 1: "process_packet e p d = Some (Next, d1)"
    "process_packets e ps d1 = Some (Next, d')"
    by (auto simp: bind_eq_Some_conv split: if_splits)
  note s = process_packet_plain [OF Cons.prems(1) 1(1)]
  have "collect e (ctx_of d1) = collect e (ctx_of d)" using s by (intro collect_cong) blast
  then show ?case using Cons.IH [OF _ 1(2)] s [of undefined] by simp
qed simp

section \<open>The XT path has no undefined behaviour\<close>

text \<open>
  \<open>d\<close> has the configuration and tables of \<open>d0\<close>, arrays of the right sizes and at most \<open>k\<close> points.
\<close>

definition fits :: "driver \<Rightarrow> nat \<Rightarrow> driver \<Rightarrow> bool" where
  "fits d0 k d \<longleftrightarrow> d_cfg d = d_cfg d0 \<and> d_tbl d = d_tbl d0 \<and> targetFrame d = targetFrame d0 \<and>
     pointIndex d \<le> k \<and> length (pointCloudList d) = MAX_LASER_NUM"

lemma fits_simps [simp]:
  "fits d0 k (d\<lparr>scan := s\<rparr>) = fits d0 k d" "fits d0 k (d\<lparr>outMsg := m\<rparr>) = fits d0 k d"
  "fits d0 k (d\<lparr>lastAzimuth := a\<rparr>) = fits d0 k d" "fits d0 k (d\<lparr>lastTimestamp := t\<rparr>) = fits d0 k d"
  by (simp_all add: fits_def)

lemma fits_mono: "fits d0 k d \<Longrightarrow> k \<le> l \<Longrightarrow> fits d0 l d"
  by (simp add: fits_def)

lemma store_point_fits:
  assumes "fits d0 k d" and "k < MAX_POINT_CLOUD_NUM" and "i < MAX_LASER_NUM"
  shows "\<exists>d'. store_point False i p d = Some d' \<and> fits d0 (Suc k) d'"
  using assms by (auto simp: store_point_def fits_def Let_def)

lemma calc_units_fits:
  assumes "fits d0 k d" and "k + n \<le> MAX_POINT_CLOUD_NUM" and "i + n \<le> MAX_LASER_NUM"
    and "\<And>d j. d_cfg d = d_cfg d0 \<Longrightarrow> d_tbl d = d_tbl d0 \<Longrightarrow> j < i + n \<Longrightarrow> calc d j \<noteq> None"
  shows "\<exists>d'. calc_units False calc n i d = Some d' \<and> fits d0 (k + n) d'"
  using assms
proof (induction n arbitrary: i k d)
  case (Suc n)
  have "calc d i \<noteq> None" using Suc.prems(1) by (intro Suc.prems(4)) (auto simp: fits_def)
  then obtain r where r: "calc d i = Some r" by blast
  have "\<exists>d1. (case r of None \<Rightarrow> Some d | Some p \<Rightarrow> store_point False i p d) = Some d1 \<and> fits d0 (Suc k) d1"
    using store_point_fits [OF Suc.prems(1)] Suc.prems(1,2,3)
    by (cases r) (auto intro: fits_mono)
  then obtain d1 where d1: "(case r of None \<Rightarrow> Some d | Some p \<Rightarrow> store_point False i p d) = Some d1"
    "fits d0 (Suc k) d1" by blast
  have "\<exists>d'. calc_units False calc n (Suc i) d1 = Some d' \<and> fits d0 (Suc k + n) d'"
    using Suc.prems(2-4) d1(2) by (intro Suc.IH) auto
  with r d1(1) show ?case by simp
qed simp

lemma EmitBackMessege_fits:
  assumes "fits d0 k d" and "k \<le> MAX_POINT_CLOUD_NUM" and "n \<le> MAX_LASER_NUM"
  shows "\<exists>d'. EmitBackMessege n d = Some d' \<and> fits d0 k d'"
  using assms by (auto simp: EmitBackMessege_def fits_def Let_def clear_lists_def split: list.splits)

definition has_angles :: "tables \<Rightarrow> nat \<Rightarrow> bool" where
  "has_angles tb n \<longleftrightarrow> (\<forall>i<n. geti (General_elev_angle_map tb) i \<noteq> None \<and>
     geti (General_horizatal_azimuth_offset_map tb) i \<noteq> None)"

lemma correction_lines_defined:
  "(\<And>j. j < i + n \<Longrightarrow> geti (General_elev_angle_map tb) j \<noteq> None \<and>
     geti (General_horizatal_azimuth_offset_map tb) j \<noteq> None) \<Longrightarrow> \<exists>s. correction_lines e tb i n = Some s"
proof (induction n arbitrary: i)
  case (Suc n)
  have "\<exists>s. correction_lines e tb (Suc i) n = Some s" using Suc.prems by (intro Suc.IH) auto
  then show ?case using Suc.prems [of i] by (auto simp: correction_line_def)
qed simp

lemma SaveCorrectionFile_defined: "has_angles tb n \<Longrightarrow> \<exists>m. SaveCorrectionFile e tb n = Some m"
  using correction_lines_defined [of 0 n tb e] by (auto simp: SaveCorrectionFile_def has_angles_def Let_def)

lemma with_stamp_target:
  "fits d0 k d \<Longrightarrow> with_stamp e raw (computeTransformToTarget e) d = (r, d') \<Longrightarrow> fits d0 k d' \<and>
     (targetFrame d0 = [] \<and> ros_time e (msg_sec raw) (msg_nanosec raw) \<noteq> None \<longrightarrow> r = Next)"
  by (auto simp: with_stamp_def computeTransformToTarget_def calculateTransformMatrix_def fits_def Let_def
      split: option.splits if_splits prod.splits lookup.splits tf_result.splits)

lemma finish_frame_fits:
  assumes "fits d0 k d" and "k \<le> MAX_POINT_CLOUD_NUM" and "n \<le> MAX_LASER_NUM" and "has_angles (d_tbl d0) n"
  shows "\<exists>r d'. finish_frame e n raw d = Some (r, d') \<and> fits d0 k d' \<and>
     (targetFrame d0 = [] \<and> ros_time e (msg_sec raw) (msg_nanosec raw) \<noteq> None \<longrightarrow> r = Next)"
proof -
  obtain cor where cor: "SaveCorrectionFile (base e) (d_tbl d) n = Some cor"
    using SaveCorrectionFile_defined [OF assms(4), of "base e"] assms(1) by (auto simp: fits_def)
  obtain d1 where d1: "EmitBackMessege n (d\<lparr>scan := scan d @ [cor]\<rparr>) = Some d1" "fits d0 k d1"
    using EmitBackMessege_fits [of d0 k "d\<lparr>scan := scan d @ [cor]\<rparr>" n] assms by auto
  obtain r d' where rd: "with_stamp e raw (computeTransformToTarget e) (d1\<lparr>scan := []\<rparr>) = (r, d')" by fastforce
  show ?thesis using with_stamp_target [OF _ rd, of d0 k] d1 cor rd by (simp add: finish_frame_def)
qed

lemma process_blocks_fits:
  assumes "fits d0 k d" and "k + m * n \<le> MAX_POINT_CLOUD_NUM" and "n \<le> MAX_LASER_NUM"
    and ang: "has_angles (d_tbl d0) n"
    and az: "\<And>j. j < i + m \<Longrightarrow> az j \<noteq> None"
    and calc: "\<And>b d j. b < i + m \<Longrightarrow> d_cfg d = d_cfg d0 \<Longrightarrow> d_tbl d = d_tbl d0 \<Longrightarrow> j < n \<Longrightarrow> calc b d j \<noteq> None"
  shows "\<exists>r d'. process_blocks e False n raw tp az calc m i d = Some (r, d') \<and> fits d0 (k + m * n) d' \<and>
    (targetFrame d0 = [] \<and> ros_time e (msg_sec raw) (msg_nanosec raw) \<noteq> None \<longrightarrow> r = Next)"
  using assms(1,2) az calc
proof (induction m arbitrary: i k d)
  case (Suc m)
  from Suc.prems(3) [of i] obtain a where a: "az i = Some a" by auto
  let ?ok = "targetFrame d0 = [] \<and> ros_time e (msg_sec raw) (msg_nanosec raw) \<noteq> None"
  have "\<exists>r d1. (if frame_ends d a tp then finish_frame e n raw d else Some (Next, d)) = Some (r, d1) \<and>
      fits d0 k d1 \<and> (?ok \<longrightarrow> r = Next)"
    using finish_frame_fits [OF Suc.prems(1) _ assms(3) ang, of e raw] Suc.prems(1,2) by auto
  then obtain r d1 where 1: "(if frame_ends d a tp then finish_frame e n raw d else Some (Next, d)) = Some (r, d1)"
    "fits d0 k d1" "?ok \<longrightarrow> r = Next" by blast
  show ?case
  proof (cases "r = Next")
    case False
    then have "process_blocks e False n raw tp az calc (Suc m) i d = Some (r, d1)"
      using 1(1) a by (simp add: process_block_def)
    then show ?thesis using 1(2,3) False fits_mono [OF 1(2), of "k + Suc m * n"] by simp
  next
    case True
    have "\<exists>d2. calc_units False (calc i) n 0 d1 = Some d2 \<and> fits d0 (k + n) d2"
      using Suc.prems(2,4) assms(3) 1(2) by (intro calc_units_fits) auto
    then obtain d2 where 2: "calc_units False (calc i) n 0 d1 = Some d2" "fits d0 (k + n) d2" by blast
    let ?d = "d2\<lparr>lastAzimuth := a, lastTimestamp := tp\<rparr>"
    have "\<exists>r d'. process_blocks e False n raw tp az calc m (Suc i) ?d = Some (r, d') \<and>
        fits d0 (k + n + m * n) d' \<and> (?ok \<longrightarrow> r = Next)"
      using Suc.prems(2-4) 2(2) by (intro Suc.IH) auto
    moreover have "process_blocks e False n raw tp az calc (Suc m) i d =
        process_blocks e False n raw tp az calc m (Suc i) ?d"
      using 1(1) 2(1) a True by (simp add: process_block_def)
    ultimately show ?thesis by (simp add: add.assoc)
  qed
qed simp

text \<open>A reception time the message type can carry: seconds since 1970 before 2038.\<close>

fun stamp_ok :: "fp \<Rightarrow> bool" where
  "stamp_ok (Fin s m) \<longleftrightarrow> \<not> s \<and> 0 \<le> m \<and> m < 2147483648"
| "stamp_ok _ \<longleftrightarrow> True"

lemma raw_message_defined:
  assumes "stamp_ok (pp_stamp p)" and "isfinite (pp_stamp p)" and "0 < pp_size p" and "pp_size p \<le> length (pp_data p)"
  shows "\<exists>raw. raw_message p = Some raw \<and> 0 \<le> msg_sec raw"
proof -
  obtain m where x: "pp_stamp p = Fin False m" and m: "0 \<le> m" "m < 2147483648"
    using assms(1,2) by (cases "pp_stamp p") auto
  let ?x = "pp_stamp p" and ?f = "fp_floor (pp_stamp p)"
  have fl: "0 \<le> \<lfloor>m\<rfloor>" "\<lfloor>m\<rfloor> \<le> 2147483647" using m by (simp_all add: floor_le_iff)
  have f: "isfinite ?f" "fval ?f = of_int \<lfloor>m\<rfloor>" using fl by (simp_all add: x)
  obtain n where n: "to_i32 ?f = Some n" "0 \<le> n"
    using to_i32_between [OF f(1), of 0 2147483647] fl by (auto simp: f(2))
  have "of_int 0 \<le> fval ?x - fval ?f" "fval ?x - fval ?f \<le> of_int 1"
    unfolding f(2) using floor_correct [of m] by (simp_all add: x)
  then have s: "isfinite (d_sub ?x ?f)" "0 \<le> fval (d_sub ?x ?f)" "fval (d_sub ?x ?f) \<le> 1"
    using d_sub_between [OF assms(2) f(1), of 0 1] by simp_all
  have b: "isfinite (d_int 1000000000)" "fval (d_int 1000000000) = 1000000000" by simp_all
  have "isfinite (d_mul (d_sub ?x ?f) (d_int 1000000000)) \<and> of_int 0 \<le> fval (d_mul (d_sub ?x ?f) (d_int 1000000000)) \<and>
      fval (d_mul (d_sub ?x ?f) (d_int 1000000000)) \<le> of_int 1000000000"
    using s by (intro d_mul_between) (simp_all add: b)
  then obtain k where "to_u32 (d_mul (d_sub ?x ?f) (d_int 1000000000)) = Some k"
    using fp_to_int_between [of "d_mul (d_sub ?x ?f) (d_int 1000000000)" 0 1000000000 0 4294967295] by auto
  then show ?thesis using n assms(3,4) by (simp add: raw_message_def Let_def)
qed

lemma ParseXTData_header:
  assumes "ParseXTData cs mktime q buf len = Some (0, p)"
  shows "xt_expected_size (unat (chBlockNumber (header p))) (unat (chLaserNumber (header p))) = len"
    and "unat (chBlockNumber (header p)) \<le> 8"
  using assms
  by (auto simp: ParseXTData_def Let_def bind_eq_Some_conv HS_LIDAR_XT_BLOCK_NUMBER_def
      split: if_splits option.splits prod.splits)

text \<open>Each of the three sizes admits one layout, so the laser count is the sensor's.\<close>

lemma xt_lasers_fit:
  assumes "xt_expected_size b l = n" and "b \<le> 8" and "l \<le> 32" and "is_xt_size t n"
  shows "l \<le> xt_lasers t"
proof (cases "t = ''PandarXT-16''")
  case True
  then have n: "b * (2 + l * 4) = 528"
    using assms(1,4) by (auto simp: is_xt_size_def xt_expected_size_def layout_defs)
  have "b \<in> {0, 1, 2, 3, 4, 5, 6, 7, 8}" using assms(2) by auto
  then show ?thesis using n True by (auto simp: xt_lasers_def) presburger+
qed (simp add: xt_lasers_def assms(3))

lemma xt_tables_angles:
  assumes "xt_tables t tb" and "n \<le> xt_lasers t"
  shows "has_angles tb n"
proof -
  have "geti (General_elev_angle_map tb) i \<noteq> None \<and> geti (General_horizatal_azimuth_offset_map tb) i \<noteq> None" if "i < n" for i
  proof -
    have "laser_ok tb i" using assms that by (simp add: xt_tables_def list_all_iff)
    then show ?thesis by (auto simp: laser_ok_def split: option.splits)
  qed
  then show ?thesis by (simp add: has_angles_def)
qed

lemma Init_tables_angles:
  "t \<in> {''PandarXT-32'', ''PandarXT-16'', ''PandarXTM''} \<Longrightarrow> n \<le> xt_lasers t \<Longrightarrow> has_angles (Init_tables sinf cosf t) n"
  by (rule xt_tables_angles [OF Init_xt_tables])

text \<open>The constructor of \<^verbatim>\<open>rclcpp::Time\<close> from a message throws for negative seconds only.\<close>

definition ros_time_ok :: "drv_env \<Rightarrow> bool" where
  "ros_time_ok e \<longleftrightarrow> (\<forall>sec nsec. 0 \<le> sec \<longrightarrow> ros_time e sec nsec \<noteq> None)"

lemma prepare_fits:
  assumes "prepare_transform e raw d = (r, d')"
  shows "d_cfg d' = d_cfg d \<and> d_tbl d' = d_tbl d \<and> pointIndex d' = pointIndex d \<and>
    pointCloudList d' = pointCloudList d \<and>
    (targetFrame d = [] \<and> fixedFrame (d_cfg d) = [] \<and> ros_time e (msg_sec raw) (msg_nanosec raw) \<noteq> None \<longrightarrow>
       r = Next \<and> targetFrame d' = [])"
  using assms
  by (auto simp: prepare_transform_def with_stamp_def computeTransformToFixed_def calculateTransformMatrix_def
      manage_tf_buffer_def Let_def
      split: option.splits if_splits prod.splits lookup.splits tf_result.splits)

lemma process_xt_fits:
  assumes t: "t \<in> {''PandarXT-32'', ''PandarXT-16'', ''PandarXTM''}" and sz: "is_xt_size t (pp_size p)"
    and tb: "xt_tables t (d_tbl d)" and len: "pp_size p \<le> length (pp_data p)"
    and room: "pointIndex d + 256 \<le> MAX_POINT_CLOUD_NUM" "length (pointCloudList d) = MAX_LASER_NUM"
    and triple: "timestampType (d_cfg d) = ''realtime'' \<or> t = ''PandarXTM'' \<or>
      (\<forall>q. ParseXTData (char_signed (base e)) (mktime_fn (base e)) blank_xt_packet (pp_data p) (pp_size p)
        = Some (0, q) \<longrightarrow> echo q \<noteq> 0x3d)"
  shows "\<exists>r d'. process_xt e p raw blank_xt_packet d = Some (r, d') \<and> pointIndex d' \<le> pointIndex d + 256 \<and>
    length (pointCloudList d') = MAX_LASER_NUM \<and>
    (targetFrame d = [] \<and> ros_time e (msg_sec raw) (msg_nanosec raw) \<noteq> None \<longrightarrow> r = Next)"
proof -
  let ?cs = "char_signed (base e)" and ?k = "pointIndex d"
  obtain st q where pr: "ParseXTData ?cs (mktime_fn (base e)) blank_xt_packet (pp_data p) (pp_size p) = Some (st, q)"
    "st = 0 \<or> st = - 1"
    using ParseXTData_accepts [of "pp_data p" "pp_size p" blank_xt_packet ?cs "mktime_fn (base e)"]
      ParseXTData_rejects [of "pp_data p" "pp_size p" blank_xt_packet ?cs "mktime_fn (base e)"] len by fastforce
  obtain ok d1 where ob: "observe_sequence (udp_sequence q) (pp_stamp p) d = (ok, d1)" by fastforce
  note o = observe_sequence_simps(2-5) [of "udp_sequence q" "pp_stamp p" d, unfolded ob snd_conv]
  have d1: "d_cfg d1 = d_cfg d" "d_tbl d1 = d_tbl d" "targetFrame d1 = targetFrame d" "pointIndex d1 = ?k"
    "pointCloudList d1 = pointCloudList d"
    using o by (auto simp: frame_state_def ctx_of_def)
  show ?thesis
  proof (cases "st = 0 \<and> ok")
    case False
    then show ?thesis using pr ob d1 room(2) by (auto simp: process_xt_def)
  next
    case True
    then have acc: "ParseXTData ?cs (mktime_fn (base e)) blank_xt_packet (pp_data p) (pp_size p) = Some (0, q)"
      using pr by simp
    let ?b = "unat (chBlockNumber (header q))" and ?l = "unat (chLaserNumber (header q))"
    note ac = ParseXTData_accepted [OF acc blank_arrays(2) len]
    have l: "?l \<le> xt_lasers t" "?l \<le> 32" "?b \<le> 8"
      using xt_lasers_fit [OF ParseXTData_header [OF acc] _ sz] ac by auto
    have cc: "char_count ?cs (chLaserNumber (header q)) = ?l" "char_count ?cs (chBlockNumber (header q)) = ?b"
      using l by (auto intro: char_count_small)
    have bl: "?b * ?l \<le> 256" using mult_le_mono [OF l(3,2)] by simp
    have "\<exists>r d'. process_blocks e False ?l raw (timestamp_point q) (\<lambda>i. map_option azimuth (rd (blocks q) i))
        (\<lambda>b d. calc_xt_unit (ctx_of d) q b) ?b 0 (d1\<lparr>scan := scan d1 @ [raw]\<rparr>) = Some (r, d') \<and>
        fits d1 (?k + ?b * ?l) d' \<and>
        (targetFrame d1 = [] \<and> ros_time e (msg_sec raw) (msg_nanosec raw) \<noteq> None \<longrightarrow> r = Next)"
    proof (intro process_blocks_fits)
      show "fits d1 ?k (d1\<lparr>scan := scan d1 @ [raw]\<rparr>)" using room(2) by (simp add: fits_def d1)
      show "has_angles (d_tbl d1) ?l" using xt_tables_angles [OF tb l(1)] by (simp add: d1)
      show "map_option azimuth (rd (blocks q) j) \<noteq> None" if "j < 0 + ?b" for j
        using that l(3) ac by (simp add: packet_arrays_def)
      show "calc_xt_unit (ctx_of d2) q b j \<noteq> None"
        if "b < 0 + ?b" "d_cfg d2 = d_cfg d1" "d_tbl d2 = d_tbl d1" "j < ?l" for b d2 j
        using that triple acc
        by (intro calc_xt_unit_ok [OF _ acc blank_arrays(2) len l(1)])
          (auto simp: ctx_of_def realtime_def d1 tb)
    qed (use room l bl in \<open>auto simp: MAX_LASER_NUM_def\<close>)
    then obtain r d' where run: "process_blocks e False ?l raw (timestamp_point q)
        (\<lambda>i. map_option azimuth (rd (blocks q) i)) (\<lambda>b d. calc_xt_unit (ctx_of d) q b) ?b 0
        (d1\<lparr>scan := scan d1 @ [raw]\<rparr>) = Some (r, d')" "fits d1 (?k + ?b * ?l) d'"
        "targetFrame d1 = [] \<and> ros_time e (msg_sec raw) (msg_nanosec raw) \<noteq> None \<longrightarrow> r = Next"
      by blast
    have "process_xt e p raw blank_xt_packet d = Some (finish_packet (r, d'))"
      using pr(1) True ob run(1) by (simp add: process_xt_def process_general_def cc)
    moreover have "pointIndex (snd (finish_packet (r, d'))) = pointIndex d'"
      "pointCloudList (snd (finish_packet (r, d'))) = pointCloudList d'" "fst (finish_packet (r, d')) = r"
      by (simp_all add: finish_packet_def)
    ultimately show ?thesis using run(2,3) bl d1(3)
      by (cases "finish_packet (r, d')") (auto simp: fits_def)
  qed
qed

definition other_format :: "nat \<Rightarrow> bool" where
  "other_format n \<longleftrightarrow> is_40p_size n \<or> is_l64_size n \<or> n = HS_LIDAR_L20_PACKET_SIZE \<or> is_qt_size n"

lemma xt_packet_fits:
  assumes t: "t \<in> {''PandarXT-32'', ''PandarXT-16'', ''PandarXTM''}"
    and d: "lidarType (d_cfg d) = t" "xt_tables t (d_tbl d)"
    and room: "pointIndex d + 256 \<le> MAX_POINT_CLOUD_NUM" "length (pointCloudList d) = MAX_LASER_NUM"
    and p: "\<not> other_format (pp_size p)" "0 < pp_size p" "pp_size p \<le> length (pp_data p)" "stamp_ok (pp_stamp p)"
    and triple: "timestampType (d_cfg d) = ''realtime'' \<or> t = ''PandarXTM'' \<or>
      (\<forall>q. ParseXTData (char_signed (base e)) (mktime_fn (base e)) blank_xt_packet (pp_data p) (pp_size p)
        = Some (0, q) \<longrightarrow> echo q \<noteq> 0x3d)"
  shows "\<exists>r d'. process_packet e p d = Some (r, d') \<and> pointIndex d' \<le> pointIndex d + 256 \<and>
    length (pointCloudList d') = MAX_LASER_NUM \<and>
    (plain d \<and> ros_time_ok e \<longrightarrow> r = Next)"
proof -
  obtain dec g where o: "ts_observe (tsGuard d) (pp_stamp p) = (dec, g)" by fastforce
  let ?d = "d\<lparr>processedPackets := processedPackets d + 1, tsGuard := g, pktTimestamp := pp_stamp p\<rparr>"
  show ?thesis
  proof (cases "ts_accepted dec")
    case False
    then show ?thesis using o room(2) by (simp add: process_packet_def Let_def)
  next
    case acc: True
    then have "isfinite (pp_stamp p)" using o by (auto simp: ts_observe_def ts_accepted_def split: if_splits)
    then obtain raw where raw: "raw_message p = Some raw" "0 \<le> msg_sec raw" using raw_message_defined p by blast
    have pk: "process_packet e p d = dispatch_packet e p raw ?d"
      using o acc raw by (simp add: process_packet_def Let_def)
    show ?thesis
    proof (cases "is_xt_size t (pp_size p)")
      case False
      then show ?thesis unfolding pk using p(1) d(1) room(2) by (simp add: dispatch_packet_def Let_def other_format_def)
    next
      case True
      then have pk2: "process_packet e p d = prepared e raw (process_xt e p raw blank_xt_packet) ?d"
        unfolding pk using p(1) d(1) by (simp add: dispatch_packet_def Let_def other_format_def)
      obtain r d1 where pr: "prepare_transform e raw ?d = (r, d1)" by fastforce
      note f = prepare_fits [OF pr]
      show ?thesis
      proof (cases "r = Next")
        case False
        then show ?thesis using pk2 pr f room(2) raw(2) by (auto simp: prepared_def plain_def ros_time_ok_def)
      next
        case nx: True
        have "\<exists>r d'. process_xt e p raw blank_xt_packet d1 = Some (r, d') \<and> pointIndex d' \<le> pointIndex d1 + 256 \<and>
            length (pointCloudList d') = MAX_LASER_NUM \<and>
            (targetFrame d1 = [] \<and> ros_time e (msg_sec raw) (msg_nanosec raw) \<noteq> None \<longrightarrow> r = Next)"
          using f d room triple p(3) by (intro process_xt_fits [OF t True]) auto
        then show ?thesis using pk2 pr f nx raw(2) by (auto simp: prepared_def plain_def ros_time_ok_def)
      qed
    qed
  qed
qed


definition demo_env :: drv_env where
  "demo_env = \<lparr>base = \<lparr>char_signed = True, mktime_fn = (\<lambda>t. (0, t)), sqrt_fn = (\<lambda>F x. x), sqrt_fmt = binary64,
     show_float = (\<lambda>x. ''0'')\<rparr>, tf_lookup = (\<lambda>n a b t. TfCaught),
     ros_time = (\<lambda>s n. Some (s * 1000000000 + n)), clock_now = 0\<rparr>"

definition demo_driver :: driver where
  "demo_driver = new_driver (Init_tables (\<lambda>x. x) (\<lambda>x. x) ''PandarXT-16'') (\<lambda>p. p) True 0 0 0 ''PandarXT-16''
     ''hesai_lidar'' [] True [] []"

definition demo_packet :: PandarPacket where
  "demo_packet = \<lparr>pp_stamp = Fin False 1, pp_data = encode_xt demo_msg, pp_size = 568\<rparr>"

lemma demo_driver_simps:
  "lidarType (d_cfg demo_driver) = ''PandarXT-16''"
  "d_tbl demo_driver = Init_tables (\<lambda>x. x) (\<lambda>x. x) ''PandarXT-16''" "pointIndex demo_driver = 0"
  "length (pointCloudList demo_driver) = MAX_LASER_NUM" "plain demo_driver"
  by (simp_all add: demo_driver_def new_driver_def plain_def)

lemma demo_packet_simps:
  "\<not> other_format (pp_size demo_packet)" "0 < pp_size demo_packet" "pp_size demo_packet \<le> length (pp_data demo_packet)"
  "stamp_ok (pp_stamp demo_packet)"
  "\<forall>q. ParseXTData (char_signed (base demo_env)) (mktime_fn (base demo_env)) blank_xt_packet (pp_data demo_packet)
     (pp_size demo_packet) = Some (0, q) \<longrightarrow> echo q \<noteq> 0x3d"
proof -
  have len: "length (encode_xt demo_msg) = 568" by code_simp
  then show "pp_size demo_packet \<le> length (pp_data demo_packet)" by (simp add: demo_packet_def)
  show "\<not> other_format (pp_size demo_packet)"
    by (simp add: demo_packet_def other_format_def is_40p_size_def is_l64_size_def is_qt_size_def layout_defs)
  show "\<forall>q. ParseXTData (char_signed (base demo_env)) (mktime_fn (base demo_env)) blank_xt_packet (pp_data demo_packet)
     (pp_size demo_packet) = Some (0, q) \<longrightarrow> echo q \<noteq> 0x3d"
    using demo_msg_parsed by (auto simp: demo_packet_def demo_env_def len)
qed (simp_all add: demo_packet_def)


theorem driver_refines_collector_witness:
  "\<exists>d'. process_packets demo_env [demo_packet] demo_driver = Some (Next, d') \<and>
     collected d' = collect demo_env (ctx_of demo_driver) demo_packet (collected demo_driver)"
proof -
  obtain d' where d': "process_packet demo_env demo_packet demo_driver = Some (Next, d')"
    using xt_packet_fits [of "''PandarXT-16''" demo_driver demo_packet demo_env]
      demo_packet_simps demo_driver_simps Init_xt_tables
    by (auto simp: MAX_POINT_CLOUD_NUM_def demo_env_def ros_time_ok_def)
  then show ?thesis
    using driver_refines_collector [of demo_driver demo_env "[demo_packet]" d'] demo_driver_simps(5) by simp
qed

end
