(* ===== verification/Correction_Props.thy ===== *)
theory Correction_Props
  imports Correction_File Driver_Props
begin

text \<open>
  What loading a calibration does: a file written by \<^verbatim>\<open>SaveCorrectionFile\<close> is read back line by
  line; a file without lines is accepted and leaves the driver without elevation tables; a
  recorded correction packet has no terminator, so that its replay reads past its buffer.
\<close>

section \<open>Lines\<close>

lemma getline_delim [simp]:
  assumes "d \<notin> set l"
  shows "getline d (l @ d # r, False) old = (True, l, (r, False))"
  using assms by (simp add: getline_def takeWhile_append dropWhile_append)

lemma getline_end [simp]:
  assumes "d \<notin> set l"
  shows "getline d (l, False) old = (l \<noteq> [], l, ([], True))"
proof -
  have "takeWhile (\<lambda>c. c \<noteq> d) l = l" "dropWhile (\<lambda>c. c \<noteq> d) l = []" using assms by auto
  then show ?thesis by (simp only: getline_def fst_conv snd_conv Let_def if_False list.case)
qed

lemma is_digit_char_of: "(k :: nat) < 10 \<Longrightarrow> is_digit (char_of (48 + k))"
  by (simp add: is_digit_def)

lemma digits_value_snoc: "digits_value (ds @ [c]) = 10 * digits_value ds + (of_char c - 48)"
  by (simp add: digits_value_def)

lemma show_nat_digits: "show_nat n \<noteq> [] \<and> (\<forall>c \<in> set (show_nat n). is_digit c) \<and> digits_value (show_nat n) = n"
proof (induction n rule: show_nat.induct)
  case (1 n)
  show ?case
  proof (cases "n < 10")
    case True
    then show ?thesis
      by (subst (1 2 3) show_nat.simps) (simp add: is_digit_char_of digits_value_def)
  next
    case False
    have "is_digit (char_of (48 + n mod 10))" by (rule is_digit_char_of) simp
    with 1 False show ?thesis
      by (subst (1 2 3) show_nat.simps) (auto simp: digits_value_snoc)
  qed
qed

lemma digit_not_special:
  "is_digit c \<Longrightarrow> c \<noteq> CHR '','' \<and> c \<noteq> CHR 0x0A \<and> c \<noteq> CHR ''-'' \<and> c \<noteq> CHR ''+'' \<and> \<not> is_space c \<and> c \<noteq> CHR 0x00"
  by (auto simp: is_digit_def is_space_def)

lemma show_nat_plain: "CHR '','' \<notin> set (show_nat n)" "CHR 0x0A \<notin> set (show_nat n)" "CHR 0x00 \<notin> set (show_nat n)"
  using show_nat_digits [of n] digit_not_special by blast+

lemma stream_int_show_nat:
  assumes "n \<le> 2147483647"
  shows "stream_int (show_nat n) old = int n"
proof -
  obtain c cs where s: "show_nat n = c # cs" using show_nat_digits [of n] by (cases "show_nat n") auto
  then have d: "is_digit c" "\<forall>x \<in> set (c # cs). is_digit x" "digits_value (c # cs) = n"
    using show_nat_digits [of n] by auto
  have "dropWhile is_space (show_nat n) = c # cs" using s digit_not_special [OF d(1)] by simp
  moreover have "take_sign (c # cs) = (False, c # cs)" using digit_not_special [OF d(1)] by simp
  moreover have "takeWhile is_digit (c # cs) = c # cs" using d(2) by (simp add: takeWhile_eq_all_conv)
  ultimately show ?thesis using d(3) assms by (simp add: stream_int_def)
qed

text \<open>What printing a \<^verbatim>\<open>float\<close> gives: something that is not blank, without separators.\<close>

definition prints_ok :: "env \<Rightarrow> fp \<Rightarrow> bool" where
  "prints_ok e x \<longleftrightarrow> stream_double (show_float e x) \<noteq> None \<and>
     CHR '','' \<notin> set (show_float e x) \<and> CHR 0x0A \<notin> set (show_float e x) \<and> CHR 0x00 \<notin> set (show_float e x)"

definition reread :: "env \<Rightarrow> fp \<Rightarrow> fp" where
  "reread e x = the (stream_double (show_float e x))"

lemma prints_nonempty: "prints_ok e x \<Longrightarrow> show_float e x \<noteq> []"
  by (auto simp: prints_ok_def stream_double_def)

definition text_line :: "env \<Rightarrow> nat \<Rightarrow> fp \<Rightarrow> fp \<Rightarrow> string" where
  "text_line e k el az = show_nat k @ '','' @ show_float e el @ '','' @ show_float e az"

lemma parse_text_line:
  assumes "prints_ok e el" "prints_ok e az" "k \<le> 2147483647"
  shows "parse_line (text_line e k el az) = (int k, Some (reread e el), Some (reread e az))"
proof -
  have el: "stream_double (show_float e el) = Some (reread e el)"
    and az: "stream_double (show_float e az) = Some (reread e az)"
    using assms(1,2) by (auto simp: reread_def prints_ok_def)
  have c: "CHR '','' \<notin> set (show_float e el)" "CHR '','' \<notin> set (show_float e az)"
    using assms(1,2) by (simp_all add: prints_ok_def)
  show ?thesis
    using getline_delim [OF show_nat_plain(1), of k "show_float e el @ '','' @ show_float e az"]
      getline_delim [OF c(1), of "show_float e az"] getline_end [OF c(2)] el az stream_int_show_nat [OF assms(3)]
    by (simp add: parse_line_def text_line_def open_stream_def)
qed

lemma text_line_plain:
  assumes "prints_ok e el" "prints_ok e az"
  shows "CHR 0x0A \<notin> set (text_line e k el az)" "5 \<le> length (text_line e k el az)"
    "CHR 0x00 \<notin> set (text_line e k el az)"
proof -
  have "length (show_nat k) \<ge> 1" "length (show_float e el) \<ge> 1" "length (show_float e az) \<ge> 1"
    using show_nat_digits [of k] prints_nonempty [OF assms(1)] prints_nonempty [OF assms(2)]
    by (simp_all add: Suc_le_eq)
  then show "5 \<le> length (text_line e k el az)" by (simp add: text_line_def)
  show "CHR 0x0A \<notin> set (text_line e k el az)" "CHR 0x00 \<notin> set (text_line e k el az)"
    using assms show_nat_plain by (auto simp: text_line_def prints_ok_def)
qed

section \<open>Reading back what was saved\<close>

text \<open>The lines of a file with the angles \<open>els\<close> and \<open>azs\<close>, from number \<open>k\<close> on.\<close>

fun text_lines :: "env \<Rightarrow> nat \<Rightarrow> (fp \<times> fp) list \<Rightarrow> string" where
  "text_lines e k [] = []"
| "text_lines e k ((el, az) # as) = text_line e k el az @ CHR 0x0A # text_lines e (Suc k) as"

definition loaded :: "fp list \<Rightarrow> fp option list" where
  "loaded xs = map Some xs @ replicate (HS_LIDAR_L64_UNIT_NUM - length xs) None"

lemma loaded_wr:
  assumes "length xs < HS_LIDAR_L64_UNIT_NUM"
  shows "wr (loaded xs) (length xs) (Some x) = Some (loaded (xs @ [x]))"
proof -
  have "replicate (HS_LIDAR_L64_UNIT_NUM - length xs) None =
      (None :: fp option) # replicate (HS_LIDAR_L64_UNIT_NUM - Suc (length xs)) None"
    using assms by (metis Suc_diff_Suc replicate_Suc)
  with assms show ?thesis by (simp add: loaded_def wr_def list_update_append)
qed

lemma load_text_lines:
  assumes "\<And>x. prints_ok e x" and "length els = k" "length azs = k" and "k + length as \<le> HS_LIDAR_L64_UNIT_NUM"
  shows "load_lines (text_lines e (Suc k) as, False) old
      \<lparr>lineCounter = k, elev_angle = loaded els, azimuthOffset = loaded azs\<rparr> =
    Some \<lparr>lineCounter = k + length as, elev_angle = loaded (els @ map (reread e \<circ> fst) as),
      azimuthOffset = loaded (azs @ map (reread e \<circ> snd) as)\<rparr>"
  using assms(2-4)
proof (induction as arbitrary: k els azs old)
  case Nil
  then show ?case by (subst load_lines.simps) simp
next
  case (Cons x as)
  obtain el az where x: "x = (el, az)" by (cases x)
  let ?l = "text_line e (Suc k) el az"
  have k: "k < HS_LIDAR_L64_UNIT_NUM" "Suc k \<le> 2147483647"
    using Cons.prems(3) by (simp_all add: HS_LIDAR_L64_UNIT_NUM_def)
  have "load_line ?l \<lparr>lineCounter = k, elev_angle = loaded els, azimuthOffset = loaded azs\<rparr> =
    Some (True, \<lparr>lineCounter = Suc k, elev_angle = loaded (els @ [reread e el]),
      azimuthOffset = loaded (azs @ [reread e az])\<rparr>)"
    using text_line_plain(2) [OF assms(1) assms(1), of "Suc k" el az] parse_text_line [OF assms(1) assms(1) k(2), of el az]
      loaded_wr [of els "reread e el"] loaded_wr [of azs "reread e az"] Cons.prems k
    by (simp add: load_line_def store_line_def)
  moreover have "getline (CHR 0x0A) (text_lines e (Suc k) (x # as), False) old =
      (True, ?l, (text_lines e (Suc (Suc k)) as, False))"
    using getline_delim [OF text_line_plain(1) [OF assms(1) assms(1)]] x by simp
  ultimately show ?case
    using Cons.IH [of "els @ [reread e el]" "Suc k" "azs @ [reread e az]" ?l] Cons.prems x
    by (subst load_lines.simps) (simp add: comp_def)
qed

lemma copy_angles_loaded:
  assumes "length xs \<le> HS_LIDAR_L64_UNIT_NUM" "n \<le> length xs"
  shows "copy_angles n (loaded xs) = Some (map to_float (take n xs))"
  using assms(2)
proof (induction n)
  case (Suc n)
  then have "geti (loaded xs) n = Some (xs ! n)" by (simp add: loaded_def geti_def rd_def nth_append)
  with Suc show ?case by (simp add: take_Suc_conv_app_nth)
qed simp

definition file_text :: "env \<Rightarrow> (fp \<times> fp) list \<Rightarrow> string" where
  "file_text e as = ''Laser id,Elevation,Azimuth'' @ CHR 0x0A # text_lines e 1 as"

lemma load_file_text:
  assumes "\<And>x. prints_ok e x" and "length as \<le> HS_LIDAR_L64_UNIT_NUM"
  defines "es \<equiv> map (to_float \<circ> reread e \<circ> fst) as" and "zs \<equiv> map (to_float \<circ> reread e \<circ> snd) as"
  shows "LoadCorrectionFile sinf cosf (file_text e as) tb =
    Some (0, tb\<lparr>General_elev_angle_map := map Some es @ drop (length as) (General_elev_angle_map tb),
      General_horizatal_azimuth_offset_map := map Some zs @ drop (length as) (General_horizatal_azimuth_offset_map tb),
      sin_elevation_map := map (\<lambda>x. sinf (to_float (degreeToRadian x))) es,
      cos_elevation_map := map (\<lambda>x. cosf (to_float (degreeToRadian x))) es\<rparr>)"
proof -
  have hd: "getline (CHR 0x0A) (open_stream (file_text e as)) [] =
      (True, ''Laser id,Elevation,Azimuth'', (text_lines e 1 as, False))"
    unfolding file_text_def open_stream_def by (rule getline_delim) simp
  have ld: "load_lines (text_lines e (Suc 0) as, False) old
      \<lparr>lineCounter = 0, elev_angle = replicate HS_LIDAR_L64_UNIT_NUM None,
        azimuthOffset = replicate HS_LIDAR_L64_UNIT_NUM None\<rparr> =
    Some \<lparr>lineCounter = length as, elev_angle = loaded (map (reread e \<circ> fst) as),
      azimuthOffset = loaded (map (reread e \<circ> snd) as)\<rparr>" for old
    using load_text_lines [of e "[]" 0 "[]" as old] assms(1,2) by (simp add: loaded_def)
  have cp: "copy_angles (length as) (loaded (map (reread e \<circ> f) as)) = Some (map (to_float \<circ> reread e \<circ> f) as)" for f
    using copy_angles_loaded [of "map (reread e \<circ> f) as" "length as"] assms(2) by simp
  show ?thesis
    using hd ld cp [of fst] cp [of snd] by (simp add: LoadCorrectionFile_def es_def zs_def)
qed

text \<open>A calibration with a line for every laser and offsets of at most 6 degrees leaves complete tables.\<close>

lemma calibrated_xt_tables:
  assumes "xt_tables t tb" and "\<And>x. prints_ok e x" and "xt_lasers t \<le> length as" "length as \<le> HS_LIDAR_L64_UNIT_NUM"
    and off: "list_all (\<lambda>a. fbetween (- 6) 6 (to_float (reread e (snd a)))) as"
    and "LoadCorrectionFile sinf cosf (file_text e as) tb = Some (r, tb')"
  shows "xt_tables t tb'"
proof -
  have l: "laser_ok tb i" if "i < xt_lasers t" for i using assms(1) that by (simp add: xt_tables_def list_all_iff)
  have e: "tb' = tb\<lparr>General_elev_angle_map := map Some (map (to_float \<circ> reread e \<circ> fst) as) @ drop (length as) (General_elev_angle_map tb),
      General_horizatal_azimuth_offset_map :=
        map Some (map (to_float \<circ> reread e \<circ> snd) as) @ drop (length as) (General_horizatal_azimuth_offset_map tb),
      sin_elevation_map := map (\<lambda>x. sinf (to_float (degreeToRadian x))) (map (to_float \<circ> reread e \<circ> fst) as),
      cos_elevation_map := map (\<lambda>x. cosf (to_float (degreeToRadian x))) (map (to_float \<circ> reread e \<circ> fst) as)\<rparr>"
    using assms(6) load_file_text [OF assms(2,4), of sinf cosf tb] by simp
  have "laser_ok tb' i" if i: "i < xt_lasers t" for i
  proof -
    have n: "i < length as" using i assms(3) by simp
    then have "fbetween (- 6) 6 (to_float (reread e (snd (as ! i))))" using off by (simp add: list_all_length)
    moreover have "geti (laserXTOffset_m tb') i = geti (laserXTOffset_m tb) i" by (simp add: e)
    moreover have "geti (General_horizatal_azimuth_offset_map tb') i = Some (to_float (reread e (snd (as ! i))))"
      "geti (General_elev_angle_map tb') i = Some (to_float (reread e (fst (as ! i))))"
      using n by (simp_all add: e geti_def rd_def nth_append)
    moreover have "length (sin_elevation_map tb') = length as" "length (cos_elevation_map tb') = length as" by (simp_all add: e)
    ultimately show ?thesis using l [OF i] n unfolding laser_ok_def by simp
  qed
  then show ?thesis using assms(1) by (simp add: xt_tables_def list_all_iff) (simp add: e)
qed

definition angles_of :: "tables \<Rightarrow> nat \<Rightarrow> nat \<Rightarrow> (fp \<times> fp) list" where
  "angles_of tb i n = map (\<lambda>j. (the (geti (General_elev_angle_map tb) j),
     the (geti (General_horizatal_azimuth_offset_map tb) j))) [i..<i + n]"

lemma correction_lines_text:
  "correction_lines e tb i n = Some ls \<Longrightarrow> ls = text_lines e (Suc i) (angles_of tb i n)"
proof (induction n arbitrary: i ls)
  case (Suc n)
  then obtain l ls' where l: "correction_line e tb i = Some l" "correction_lines e tb (Suc i) n = Some ls'" "ls = l @ ls'"
    by (auto simp: bind_eq_Some_conv)
  then obtain el az where "geti (General_elev_angle_map tb) i = Some el"
    "geti (General_horizatal_azimuth_offset_map tb) i = Some az" "l = text_line e (Suc i) el az @ [CHR 0x0A]"
    by (auto simp: correction_line_def text_line_def bind_eq_Some_conv)
  moreover have "[i..<i + Suc n] = i # [Suc i..<Suc i + n]" by (simp add: upt_conv_Cons)
  ultimately show ?case using l Suc.IH [OF l(2)] by (simp add: angles_of_def)
qed (simp add: angles_of_def)

lemma correction_lines_angles:
  "correction_lines e tb i n = Some ls \<Longrightarrow> i \<le> j \<Longrightarrow> j < i + n \<Longrightarrow>
     \<exists>el az. geti (General_elev_angle_map tb) j = Some el \<and> geti (General_horizatal_azimuth_offset_map tb) j = Some az"
proof (induction n arbitrary: i ls)
  case (Suc n)
  then obtain l ls' where l: "correction_line e tb i = Some l" "correction_lines e tb (Suc i) n = Some ls'"
    by (auto simp: bind_eq_Some_conv)
  show ?case
  proof (cases "j = i")
    case True
    with l(1) show ?thesis by (auto simp: correction_line_def bind_eq_Some_conv)
  next
    case False
    with Suc.IH [OF l(2)] Suc.prems show ?thesis by simp
  qed
qed simp

lemma unat_of_char: "unat (of_char c :: byte) = of_char c"
proof -
  have "(of_char c :: nat) < 2 ^ LENGTH(8)" using mod_less_divisor [of 256 "of_char c"] by (simp add: of_char_mod_256)
  then show ?thesis by (metis of_nat_of_char unat_of_nat_small)
qed

lemma text_of_map [simp]: "text_of (map of_char s) = s"
  by (simp add: text_of_def unat_of_char comp_def)

lemma of_char_zero: "(of_char c :: byte) = 0 \<longleftrightarrow> c = CHR 0x00"
proof -
  have "(of_char c :: byte) = 0 \<longleftrightarrow> (of_char c :: nat) = of_char (CHR 0x00)"
    using unat_of_char [of c] by (simp add: unat_eq_zero [symmetric])
  then show ?thesis by (simp only: of_char_eq_iff)
qed

lemma be32_of_nat:
  assumes "n < 2 ^ 32"
  shows "be32 (of_nat (n div 2 ^ 24)) (of_nat (n div 2 ^ 16)) (of_nat (n div 2 ^ 8)) (of_nat n) = of_nat n"
proof -
  have u: "unat (of_nat n :: u32) = n" using assms by (simp add: unat_of_nat_small)
  have b: "byte_of k (of_nat n :: u32) = of_nat (n div 256 ^ k)" for k
    using assms by (simp add: word_unat_eq_iff unat_byte_of u unsigned_of_nat take_bit_eq_mod)
  show ?thesis
    using be32_byte_of [of "of_nat n"] by (simp add: b)
qed

lemma saved_packet:
  assumes "SaveCorrectionFile e tb n = Some m"
  defines "content \<equiv> map of_char (file_text e (angles_of tb 0 n)) :: byte list"
  shows "msg_size m = length content" "drop 8 (msg_data m) = content"
    "take 8 (msg_data m) = [0x47, 0x74, 0x05, 0x00, of_nat (length content div 2 ^ 24),
       of_nat (length content div 2 ^ 16), of_nat (length content div 2 ^ 8), of_nat (length content)]"
proof -
  from assms(1) obtain ls where ls: "correction_lines e tb 0 n = Some ls"
    by (auto simp: SaveCorrectionFile_def bind_eq_Some_conv)
  have t: "''Laser id,Elevation,Azimuth'' @ [CHR 0x0A] @ ls = file_text e (angles_of tb 0 n)"
    using correction_lines_text [OF ls] by (simp add: file_text_def)
  have "Some m = Some \<lparr>msg_sec = 0, msg_nanosec = 0,
      msg_data = [0x47, 0x74, 0x05, 0x00, of_nat (length content div 2 ^ 24), of_nat (length content div 2 ^ 16),
        of_nat (length content div 2 ^ 8), of_nat (length content)] @ content, msg_size = length content\<rparr>"
    using assms(1) unfolding SaveCorrectionFile_def ls Option.bind_lunit t Let_def content_def by (rule sym)
  then show "msg_size m = length content" "drop 8 (msg_data m) = content"
    "take 8 (msg_data m) = [0x47, 0x74, 0x05, 0x00, of_nat (length content div 2 ^ 24),
       of_nat (length content div 2 ^ 16), of_nat (length content div 2 ^ 8), of_nat (length content)]"
    by simp_all
qed

lemma text_lines_no_zero:
  "(\<And>x. prints_ok e x) \<Longrightarrow> CHR 0x00 \<notin> set (text_lines e k as)"
  by (induction e k as rule: text_lines.induct) (auto simp: text_line_plain(3))

lemma file_text_no_zero:
  assumes "\<And>x. prints_ok e x"
  shows "0 \<notin> set (map of_char (file_text e as) :: byte list)"
  using text_lines_no_zero [OF assms] by (auto simp: file_text_def of_char_zero)

section \<open>Properties\<close>

text \<open>
  C19. Saving and loading: the text of a correction packet, loaded again, puts into the first
  entries of the angle tables what the extraction of a \<^verbatim>\<open>double\<close> makes of the printed
  angles, leaves the others, and recomputes the elevation tables for exactly the saved lasers.
\<close>

theorem correction_roundtrip:
  assumes "SaveCorrectionFile e tb n = Some m" and "\<And>x. prints_ok e x" and "n \<le> HS_LIDAR_L64_UNIT_NUM"
  shows "\<exists>tb''. LoadCorrectionFile sinf cosf (text_of (drop 8 (msg_data m))) tb' = Some (0, tb'') \<and>
    (\<forall>i < n. \<exists>el az. geti (General_elev_angle_map tb) i = Some el \<and>
      geti (General_horizatal_azimuth_offset_map tb) i = Some az \<and>
      geti (General_elev_angle_map tb'') i = Some (to_float (reread e el)) \<and>
      geti (General_horizatal_azimuth_offset_map tb'') i = Some (to_float (reread e az)) \<and>
      sin_elevation_map tb'' ! i = sinf (to_float (degreeToRadian (to_float (reread e el)))) \<and>
      cos_elevation_map tb'' ! i = cosf (to_float (degreeToRadian (to_float (reread e el))))) \<and>
    length (sin_elevation_map tb'') = n \<and> length (cos_elevation_map tb'') = n \<and>
    drop n (General_elev_angle_map tb'') = drop n (General_elev_angle_map tb')"
proof -
  let ?as = "angles_of tb 0 n"
  have l: "length ?as = n" by (simp add: angles_of_def)
  obtain ls where "correction_lines e tb 0 n = Some ls"
    using assms(1) by (auto simp: SaveCorrectionFile_def bind_eq_Some_conv)
  then have g: "\<exists>el az. geti (General_elev_angle_map tb) i = Some el \<and>
      geti (General_horizatal_azimuth_offset_map tb) i = Some az" if "i < n" for i
    using correction_lines_angles [of e tb 0 n ls i] that by simp
  have nth: "?as ! i = (the (geti (General_elev_angle_map tb) i), the (geti (General_horizatal_azimuth_offset_map tb) i))"
    if "i < n" for i using that by (simp add: angles_of_def)
  have "text_of (drop 8 (msg_data m)) = file_text e ?as" using saved_packet(2) [OF assms(1)] by simp
  then show ?thesis
    using load_file_text [OF assms(2), of ?as sinf cosf tb'] l assms(3) g nth
    by (force simp: geti_def rd_def nth_append)
qed

lemma rd_take: "i < n \<Longrightarrow> rd xs i = rd (take n xs) i"
  by (simp add: rd_def)

lemma push_scan_packet_data:
  assumes "take 2 (msg_data p) \<noteq> [0x47, 0x74]" and "push_scan_packet sinf cosf file old p r = Some r'"
  shows "rp_flag r' = rp_flag r"
proof -
  have "\<not> (rd (msg_data p) 0 = Some 0x47 \<and> rd (msg_data p) 1 = Some 0x74)"
    using assms(1) by (auto simp: rd_def numeral_2_eq_2 take_Suc_conv_app_nth split: if_splits)
  with assms(2) show ?thesis
    by (auto simp: push_scan_packet_def bind_eq_Some_conv split: if_splits)
qed

text \<open>
  C37. A recorded correction packet cannot be replayed: its text has no terminator, and
  \<^verbatim>\<open>PushScanPacket\<close> copies exactly the text into a local array of that size before making a
  string of it, so that the first scan with such a packet reads past the array, whatever data
  packets come before it.
\<close>

theorem replay_overreads:
  assumes "SaveCorrectionFile e tb n = Some m" and "\<And>x. prints_ok e x" and "msg_size m < 2 ^ 31"
    and "\<forall>p \<in> set ms. take 2 (msg_data p) \<noteq> [0x47, 0x74]" and "\<not> rp_flag r"
  shows "PushScanPacket sinf cosf file old (ms @ m # ms') r = None"
  using assms(4,5)
proof (induction ms arbitrary: r)
  case Nil
  let ?c = "map of_char (file_text e (angles_of tb 0 n)) :: byte list"
  have d: "msg_data m = take 8 (msg_data m) @ ?c" "msg_size m = length ?c"
    using saved_packet [OF assms(1)] append_take_drop_id [of 8 "msg_data m"] by simp_all
  have l8: "length (take 8 (msg_data m)) = 8" using saved_packet(3) [OF assms(1)] by simp
  have ld: "length (msg_data m) = 8 + length ?c" using arg_cong [OF d(1), of length] l8 by simp
  have b4: "rd_bytes (msg_data m) 4 4 = Some (drop 4 (take 8 (msg_data m)))"
    using d(1) l8 by (subst rd_bytes_in) (auto simp: take_drop)
  have b8: "rd_bytes (msg_data m) 8 (msg_size m) = Some ?c"
    using d(2) ld saved_packet(2) [OF assms(1)] by (subst rd_bytes_in) simp_all
  have len: "unat (be32 (of_nat (length ?c div 2 ^ 24)) (of_nat (length ?c div 2 ^ 16)) (of_nat (length ?c div 2 ^ 8))
      (of_nat (length ?c))) = msg_size m"
    using be32_of_nat [of "length ?c"] assms(3) d(2) by (simp add: unat_of_nat_small)
  have "string_of_buffer ?c = None" using file_text_no_zero [OF assms(2)] by (simp add: string_of_buffer_def)
  then have "load_correction_packet sinf cosf file m r = None"
    using b4 b8 len saved_packet(3) [OF assms(1)] by (simp add: load_correction_packet_def Let_def)
  moreover have "rd (msg_data m) 0 = Some 0x47" "rd (msg_data m) 1 = Some 0x74"
    using rd_take [of 0 8 "msg_data m"] rd_take [of 1 8 "msg_data m"] saved_packet(3) [OF assms(1)] by simp_all
  ultimately show ?case using Nil by (simp add: push_scan_packet_def)
next
  case (Cons p ms)
  then show ?case
    using push_scan_packet_data [of p sinf cosf "file" old r]
    by (cases "push_scan_packet sinf cosf file old p r") auto
qed

text \<open>The line after the first one, if there is one.\<close>

definition second_line :: "string \<Rightarrow> string option" where
  "second_line s = (case dropWhile (\<lambda>c. c \<noteq> CHR 0x0A) s of [] \<Rightarrow> None | _ # r \<Rightarrow> Some (takeWhile (\<lambda>c. c \<noteq> CHR 0x0A) r))"

lemma getline_takeWhile:
  "\<exists>st. getline d (r, False) old = (dropWhile (\<lambda>c. c \<noteq> d) r \<noteq> [] \<or> takeWhile (\<lambda>c. c \<noteq> d) r \<noteq> [], takeWhile (\<lambda>c. c \<noteq> d) r, st)"
  by (cases "dropWhile (\<lambda>c. c \<noteq> d) r") (auto simp: getline_def Let_def simp del: dropWhile_eq_Nil_conv)

lemma first_getline:
  assumes "getline (CHR 0x0A) (open_stream content) [] = (ok, line, st)"
  shows "case second_line content of
      None \<Rightarrow> snd st
    | Some l \<Rightarrow> \<exists>ok' st'. getline (CHR 0x0A) st line = (ok', l, st') \<and> (l \<noteq> [] \<longrightarrow> ok')"
proof (cases "dropWhile (\<lambda>c. c \<noteq> CHR 0x0A) content")
  case Nil
  from assms [unfolded getline_def open_stream_def fst_conv snd_conv Nil Let_def] show ?thesis
    unfolding second_line_def Nil by auto
next
  case (Cons c r)
  from assms [unfolded getline_def open_stream_def fst_conv snd_conv Cons Let_def]
  have "st = (r, False)" by simp
  then show ?thesis
    unfolding second_line_def Cons using getline_takeWhile [of "CHR 0x0A" r line] by auto
qed

lemma load_lines_first:
  assumes "getline (CHR 0x0A) st line = (ok, l, st')"
  shows "(length l < 5 \<or> \<not> ok \<longrightarrow> load_lines st line a = Some a) \<and>
    (5 \<le> length l \<and> ok \<and> fst (parse_line l) \<noteq> int (lineCounter a) + 1 \<longrightarrow>
      load_lines st line a = Some (a\<lparr>lineCounter := lineCounter a + 1\<rparr>))"
  using assms by (subst (1 2) load_lines.simps) (auto simp: load_line_def case_prod_unfold Let_def)

lemma calc_xt_unit_no_elevations:
  assumes "sin_elevation_map (cc_tbl c) = []" "cos_elevation_map (cc_tbl c) = []"
  shows "calc_xt_unit c pkt b i \<noteq> Some (Some p)"
  using assms by (auto simp: calc_xt_unit_def plain_xyz_def xt_xyz_def bind_eq_Some_conv split: if_splits)

text \<open>
  C36. A calibration text without a line of data (the empty text, say, or an error message in one
  line) is reported as loaded. It leaves both elevation tables empty, after which no unit of an
  XT packet can be converted without a read outside them. A text whose first data line does not
  carry the number 1 makes the function read a local array element that was never assigned.
\<close>

theorem bad_calibration_accepted:
  assumes "second_line content = None \<or> (\<exists>l. second_line content = Some l \<and> length l < 5)"
  shows "\<exists>tb'. LoadCorrectionFile sinf cosf content tb = Some (0, tb') \<and>
    sin_elevation_map tb' = [] \<and> cos_elevation_map tb' = [] \<and>
    (\<forall>c pkt b i p. cc_tbl c = tb' \<longrightarrow> calc_xt_unit c pkt b i \<noteq> Some (Some p)) \<and>
    (\<forall>text l. second_line text = Some l \<and> 5 \<le> length l \<and> fst (parse_line l) \<noteq> 1 \<longrightarrow>
      LoadCorrectionFile sinf cosf text tb = None)"
proof -
  let ?u = "replicate HS_LIDAR_L64_UNIT_NUM None :: fp option list"
  let ?a = "\<lparr>lineCounter = 0, elev_angle = ?u, azimuthOffset = ?u\<rparr>"
  obtain ok line st where g: "getline (CHR 0x0A) (open_stream content) [] = (ok, line, st)"
    by (cases "getline (CHR 0x0A) (open_stream content) []")
  have "load_lines st line ?a = Some ?a"
  proof (cases "second_line content")
    case None
    with first_getline [OF g] have "snd st" by simp
    then have "getline (CHR 0x0A) st line = (False, line, st)" by (simp add: getline_def)
    then show ?thesis using load_lines_first by blast
  next
    case (Some l)
    with first_getline [OF g] assms obtain ok' st' where
      "getline (CHR 0x0A) st line = (ok', l, st')" "length l < 5" by auto
    then show ?thesis using load_lines_first by blast
  qed
  then have ld: "LoadCorrectionFile sinf cosf content tb =
      Some (0, tb\<lparr>sin_elevation_map := [], cos_elevation_map := []\<rparr>)"
    using g by (simp add: LoadCorrectionFile_def)
  have mis: "LoadCorrectionFile sinf cosf t tb = None"
    if "second_line t = Some l" "5 \<le> length l" "fst (parse_line l) \<noteq> 1" for t l
  proof -
    obtain ok line st where g: "getline (CHR 0x0A) (open_stream t) [] = (ok, line, st)"
      by (cases "getline (CHR 0x0A) (open_stream t) []")
    with first_getline [OF g] that obtain st' where "getline (CHR 0x0A) st line = (True, l, st')" by force
    with load_lines_first that have "load_lines st line ?a = Some (?a\<lparr>lineCounter := 1\<rparr>)" by fastforce
    then show ?thesis
      using g by (simp add: LoadCorrectionFile_def geti_def rd_def HS_LIDAR_L64_UNIT_NUM_def)
  qed
  show ?thesis using ld mis calc_xt_unit_no_elevations by auto
qed

theorem bad_calibration_accepted_witness:
  "\<exists>tb'. LoadCorrectionFile (\<lambda>x. x) (\<lambda>x. x) ''calibration not available'' (d_tbl demo_driver) = Some (0, tb') \<and>
     sin_elevation_map tb' = []"
  using bad_calibration_accepted [of "''calibration not available''" "\<lambda>x. x" "\<lambda>x. x" "d_tbl demo_driver"]
  by (auto simp: second_line_def)

lemma demo_prints: "prints_ok (base demo_env) x"
  by (simp add: prints_ok_def demo_env_def stream_double_def is_space_def)

lemma demo_saved: "\<exists>m. SaveCorrectionFile (base demo_env) (d_tbl demo_driver) 16 = Some m"
  by (rule SaveCorrectionFile_defined)
    (simp add: demo_driver_simps Init_tables_angles xt_lasers_def HS_LIDAR_XT16_UNIT_NUM_def)

theorem correction_roundtrip_witness:
  "\<exists>m tb''. SaveCorrectionFile (base demo_env) (d_tbl demo_driver) 16 = Some m \<and>
     LoadCorrectionFile (\<lambda>x. x) (\<lambda>x. x) (text_of (drop 8 (msg_data m))) (d_tbl demo_driver) = Some (0, tb'') \<and>
     length (sin_elevation_map tb'') = 16"
proof -
  obtain m where m: "SaveCorrectionFile (base demo_env) (d_tbl demo_driver) 16 = Some m" using demo_saved by blast
  from correction_roundtrip [OF m demo_prints, of "\<lambda>x. x" "\<lambda>x. x" "d_tbl demo_driver"] m show ?thesis
    by (auto simp: HS_LIDAR_L64_UNIT_NUM_def)
qed

definition demo_replay :: replay where
  "demo_replay = \<lparr>rp_tables = d_tbl demo_driver, rp_flag = False,
     rp_receiver = \<lparr>packetsBuffer = spsc_new 1 demo_packet, queueOverloadDrops = 0, enqueuedPackets = 0,
       maxQueueDepthObserved = 0, gpsTimes = []\<rparr>\<rparr>"

lemma demo_saved_size:
  assumes "SaveCorrectionFile (base demo_env) (d_tbl demo_driver) 1 = Some m"
  shows "msg_size m < 2 ^ 31"
  using saved_packet(1) [OF assms]
  by (simp add: file_text_def angles_of_def text_line_def demo_env_def show_nat.simps [of "Suc 0"])

theorem replay_overreads_witness:
  "\<exists>m. SaveCorrectionFile (base demo_env) (d_tbl demo_driver) 1 = Some m \<and>
     PushScanPacket (\<lambda>x. x) (\<lambda>x. x) None [] [m] demo_replay = None"
proof -
  have "has_angles (d_tbl demo_driver) 16"
    by (simp add: demo_driver_simps Init_tables_angles xt_lasers_def HS_LIDAR_XT16_UNIT_NUM_def)
  then have "has_angles (d_tbl demo_driver) 1" by (simp add: has_angles_def)
  then obtain m where m: "SaveCorrectionFile (base demo_env) (d_tbl demo_driver) 1 = Some m"
    using SaveCorrectionFile_defined by blast
  from replay_overreads [OF m demo_prints demo_saved_size [OF m], of "[]" demo_replay "\<lambda>x. x" "\<lambda>x. x" None "[]" "[]"] m
  show ?thesis by (simp add: demo_replay_def)
qed

end
