(* ===== verification/Frame_Props.thy ===== *)
theory Frame_Props
  imports Driver_Props
begin

text \<open>
  Frames: what a refused packet leaves behind, what a delivered cloud looks like, when a
  frame ends, and what a non-empty target frame does.
\<close>

section \<open>Refused packets\<close>

text \<open>The guard, the parser or the sequence tracker turns the packet down.\<close>

definition refused :: "drv_env \<Rightarrow> driver \<Rightarrow> PandarPacket \<Rightarrow> bool" where
  "refused e d p \<longleftrightarrow>
     (if ts_accepted (fst (ts_observe (tsGuard d) (pp_stamp p))) then
        (case decode (base e) (lidarType (d_cfg d)) p of
           None \<Rightarrow> True | Some k \<Rightarrow> \<not> in_sequence (seqTracker d) (pp_stamp p) k)
      else True)"

lemma prepare_frame:
  assumes "prepare_transform e raw d = (r, d')"
  shows "frame_state d' = frame_state d" "d_cfg d' = d_cfg d" "seqTracker d' = seqTracker d"
  using assms
  by (auto simp: prepare_transform_def with_stamp_def computeTransformToFixed_def calculateTransformMatrix_def
      manage_tf_buffer_def Let_def frame_state_def
      split: option.splits if_splits prod.splits lookup.splits tf_result.splits)

lemma prepared_frame:
  assumes "prepared e raw f d = Some (r, d')"
    and "\<And>d1. f d1 = Some (r, d') \<Longrightarrow> d_cfg d1 = d_cfg d \<Longrightarrow> seqTracker d1 = seqTracker d \<Longrightarrow>
      frame_state d' = frame_state d1"
  shows "frame_state d' = frame_state d"
proof -
  obtain r1 d1 where p: "prepare_transform e raw d = (r1, d1)" by fastforce
  note f = prepare_frame [OF p]
  show ?thesis
  proof (cases "r1 = Next")
    case True
    then have "f d1 = Some (r, d')" using assms(1) p by (simp add: prepared_def)
    then show ?thesis using assms(2) f by metis
  next
    case False
    then show ?thesis using assms(1) p f by (simp add: prepared_def)
  qed
qed

lemma refused_formats:
  "process_40p e p raw q d = Some (r, d') \<Longrightarrow>
     verdict D40 (ParseRawData (mktime_fn (base e)) q (pp_data p) (pp_size p)) = None \<Longrightarrow> d' = d"
  "process_l64 e p raw q2 d = Some (r, d') \<Longrightarrow>
     verdict D64 (ParseL64Data (char_signed (base e)) (mktime_fn (base e)) q2 (pp_data p) (pp_size p)) = None \<Longrightarrow> d' = d"
  "process_l20 e p raw q2 d = Some (r, d') \<Longrightarrow>
     verdict D20 (ParseL20Data (char_signed (base e)) (mktime_fn (base e)) q2 (pp_data p) (pp_size p)) = None \<Longrightarrow> d' = d"
  "process_qt e p raw q3 d = Some (r, d') \<Longrightarrow>
     verdict DQT (ParseQTData (char_signed (base e)) (mktime_fn (base e)) q3 (pp_data p) (pp_size p)) = None \<Longrightarrow> d' = d"
  by (auto simp: process_40p_def process_l64_def process_l20_def process_qt_def verdict_def bind_eq_Some_conv
      split: if_splits)

lemma in_sequence_other:
  "in_sequence t st (D40 q)" "in_sequence t st (D64 q2)" "in_sequence t st (D20 q2)" "in_sequence t st (DQT q3)"
  by simp_all

lemma refused_verdict:
  assumes "case k of None \<Rightarrow> True | Some k \<Rightarrow> \<not> in_sequence t st k" and "k = verdict D x"
    and "\<And>k. in_sequence t st (D k)"
  shows "verdict D x = None"
  using assms by (auto simp: verdict_def split: option.splits if_splits)

lemma refused_xt:
  assumes "process_xt e p raw q d = Some (r, d')"
    and "case verdict DXT (ParseXTData (char_signed (base e)) (mktime_fn (base e)) q (pp_data p) (pp_size p)) of
      None \<Rightarrow> True | Some k \<Rightarrow> \<not> in_sequence (seqTracker d) (pp_stamp p) k"
  shows "frame_state d' = frame_state d"
proof -
  from assms(1) obtain ret k where
    pr: "ParseXTData (char_signed (base e)) (mktime_fn (base e)) q (pp_data p) (pp_size p) = Some (ret, k)"
    by (auto simp: process_xt_def bind_eq_Some_conv)
  obtain ok d1 where ob: "observe_sequence (udp_sequence k) (pp_stamp p) d = (ok, d1)" by fastforce
  then have ok: "ok = in_sequence (seqTracker d) (pp_stamp p) (DXT k)" "frame_state d1 = frame_state d"
    using observe_sequence_simps(1,2) [of "udp_sequence k" "pp_stamp p" d] by simp_all
  show ?thesis
    using assms pr ob ok by (cases "ret = 0") (auto simp: process_xt_def verdict_def split: bool.splits)
qed

text \<open>
  C21. A refused packet leaves no trace in the frame: when the timestamp guard, the parser or the
  sequence tracker turns a packet down, or its size belongs to no format, the point buffers, the
  scan, the output cloud, the delivered clouds and the last azimuth and time are as before, for every
  configuration; only the guards and counters move.
\<close>

theorem refused_packet_no_effect:
  assumes "process_packet e p d = Some (r, d')" and "refused e d p"
  shows "frame_state d' = frame_state d"
proof -
  obtain dec g where o: "ts_observe (tsGuard d) (pp_stamp p) = (dec, g)" by fastforce
  let ?d = "d\<lparr>processedPackets := processedPackets d + 1, tsGuard := g, pktTimestamp := pp_stamp p\<rparr>"
  show ?thesis
  proof (cases "ts_accepted dec")
    case False
    then show ?thesis using assms(1) o by (auto simp: process_packet_def Let_def frame_state_def)
  next
    case True
    then obtain raw where run: "dispatch_packet e p raw ?d = Some (r, d')"
      using assms(1) o by (auto simp: process_packet_def Let_def bind_eq_Some_conv)
    have k: "case decode (base e) (lidarType (d_cfg ?d)) p of
        None \<Rightarrow> True | Some k \<Rightarrow> \<not> in_sequence (seqTracker ?d) (pp_stamp p) k"
      using assms(2) True o by (simp add: refused_def split: option.splits)
    have "frame_state d' = frame_state ?d"
    proof (cases rule: dispatch_formats [of e p raw ?d])
      case F40
      note n = refused_verdict [OF k F40(2) in_sequence_other(1)]
      show ?thesis by (rule prepared_frame [OF run [unfolded F40(1)]]) (auto dest: refused_formats(1) [OF _ n])
    next
      case F64
      note n = refused_verdict [OF k F64(2) in_sequence_other(2)]
      show ?thesis by (rule prepared_frame [OF run [unfolded F64(1)]]) (auto dest: refused_formats(2) [OF _ n])
    next
      case F20
      note n = refused_verdict [OF k F20(2) in_sequence_other(3)]
      show ?thesis by (rule prepared_frame [OF run [unfolded F20(1)]]) (auto dest: refused_formats(3) [OF _ n])
    next
      case FQT
      note n = refused_verdict [OF k FQT(2) in_sequence_other(4)]
      show ?thesis by (rule prepared_frame [OF run [unfolded FQT(1)]]) (auto dest: refused_formats(4) [OF _ n])
    next
      case FXT
      show ?thesis
      proof (rule prepared_frame [OF run [unfolded FXT(1)]])
        fix d1
        assume x: "process_xt e p raw blank_xt_packet d1 = Some (r, d')" "seqTracker d1 = seqTracker ?d"
        show "frame_state d' = frame_state d1"
          using k [unfolded FXT(2)] unfolding x(2) [symmetric] by (rule refused_xt [OF x(1)])
      qed
    next
      case Unknown
      then show ?thesis using run by simp
    qed
    then show ?thesis by (simp add: frame_state_def)
  qed
qed

definition nan_packet :: PandarPacket where
  "nan_packet = demo_packet\<lparr>pp_stamp := NaN\<rparr>"

theorem refused_packet_no_effect_witness:
  "\<exists>d'. process_packet demo_env nan_packet demo_driver = Some (Next, d') \<and> frame_state d' = frame_state demo_driver"
proof -
  have t: "\<not> ts_accepted (fst (ts_observe (tsGuard demo_driver) NaN))"
    by (simp add: ts_observe_def ts_accepted_def)
  obtain dec g where o: "ts_observe (tsGuard demo_driver) NaN = (dec, g)" by fastforce
  have "\<exists>d'. process_packet demo_env nan_packet demo_driver = Some (Next, d')"
    using t o by (simp add: process_packet_def nan_packet_def Let_def)
  moreover have "refused demo_env demo_driver nan_packet" using t by (simp add: refused_def nan_packet_def)
  ultimately show ?thesis using refused_packet_no_effect by blast
qed

section \<open>Delivered clouds\<close>

definition emission_ok :: "emission \<Rightarrow> bool" where
  "emission_ok m \<longleftrightarrow> cl_points (em_cloud m) \<noteq> [] \<and> em_timestamp m = pt_timestamp (hd (cl_points (em_cloud m))) \<and>
     cl_width (em_cloud m) = length (cl_points (em_cloud m)) \<and> cl_height (em_cloud m) = 1 \<and>
     em_scan m \<noteq> [] \<and> take 4 (msg_data (last (em_scan m))) = [0x47, 0x74, 0x05, 0x00]"

text \<open>
  \<open>c\<close> is the configuration, \<open>fid\<close> the frame identifier of the output cloud, \<open>old\<close> the clouds
  delivered before.
\<close>

definition em_inv :: "cfg \<Rightarrow> string \<Rightarrow> emission list \<Rightarrow> driver \<Rightarrow> bool" where
  "em_inv c fid old d \<longleftrightarrow> d_cfg d = c \<and>
     cl_width (outMsg d) = length (cl_points (outMsg d)) \<and> (cl_points (outMsg d) \<noteq> [] \<longrightarrow> cl_height (outMsg d) = 1) \<and>
     cl_frame_id (outMsg d) = fid \<and>
     (\<exists>ms. emitted d = old @ ms \<and> (\<forall>m \<in> set ms. emission_ok m \<and> cl_frame_id (em_cloud m) = fid))"

lemma em_inv_simps [simp]:
  "em_inv c f o1 (d\<lparr>scan := s\<rparr>) = em_inv c f o1 d" "em_inv c f o1 (d\<lparr>lastAzimuth := a\<rparr>) = em_inv c f o1 d"
  "em_inv c f o1 (d\<lparr>lastTimestamp := t\<rparr>) = em_inv c f o1 d"
  by (simp_all add: em_inv_def)

lemma em_inv_frame: "frame_state d' = frame_state d \<Longrightarrow> d_cfg d' = d_cfg d \<Longrightarrow> em_inv c f o1 d' = em_inv c f o1 d"
  by (simp add: em_inv_def frame_state_def)

lemma store_point_em:
  assumes "store_point u i p d = Some d'"
  shows "em_inv c f o1 d' = em_inv c f o1 d"
proof -
  have "outMsg d' = outMsg d \<and> emitted d' = emitted d \<and> d_cfg d' = d_cfg d"
    using assms by (auto simp: store_point_def Let_def bind_eq_Some_conv split: if_splits)
  then show ?thesis by (simp add: em_inv_def)
qed

lemma calc_units_em: "calc_units u calc n i d = Some d' \<Longrightarrow> em_inv c f o1 d' = em_inv c f o1 d"
proof (induction n arbitrary: i d)
  case (Suc n)
  from Suc.prems obtain r d1 where
    1: "(case r of None \<Rightarrow> Some d | Some p \<Rightarrow> store_point u i p d) = Some d1" "calc_units u calc n (Suc i) d1 = Some d'"
    by (auto simp: bind_eq_Some_conv)
  have "em_inv c f o1 d1 = em_inv c f o1 d" using 1(1) store_point_em by (cases r) auto
  then show ?case using Suc.IH [OF 1(2)] by simp
qed simp

lemma upt_Cons_length: "[0..<n] = z # zs \<Longrightarrow> n = Suc (length zs)"
  by (drule arg_cong [where f = length]) simp

lemma EmitBackMessege_em:
  assumes "em_inv c f o1 d" and "EmitBackMessege n d = Some d'"
    and "scan d \<noteq> []" and "take 4 (msg_data (last (scan d))) = [0x47, 0x74, 0x05, 0x00]"
  shows "em_inv c f o1 d'"
  using assms
  by (auto simp: EmitBackMessege_def Let_def em_inv_def emission_ok_def cloud_append_def bind_eq_Some_conv
      dest: upt_Cons_length split: if_splits list.splits)

lemma with_stamp_frame:
  "with_stamp e raw (computeTransformToTarget e) d = (r, d') \<Longrightarrow> frame_state d' = frame_state d \<and> d_cfg d' = d_cfg d"
  by (auto simp: with_stamp_def computeTransformToTarget_def calculateTransformMatrix_def frame_state_def Let_def
      split: option.splits if_splits prod.splits lookup.splits tf_result.splits)

lemma finish_frame_em:
  assumes "em_inv c f o1 d" and "finish_frame e n raw d = Some (r, d')"
  shows "em_inv c f o1 d'"
proof -
  from assms(2) obtain cor d1 where 1: "SaveCorrectionFile (base e) (d_tbl d) n = Some cor"
    "EmitBackMessege n (d\<lparr>scan := scan d @ [cor]\<rparr>) = Some d1"
    "with_stamp e raw (computeTransformToTarget e) (d1\<lparr>scan := []\<rparr>) = (r, d')"
    by (auto simp: finish_frame_def bind_eq_Some_conv)
  have "take 4 (msg_data cor) = [0x47, 0x74, 0x05, 0x00]"
    using 1(1) by (auto simp: SaveCorrectionFile_def Let_def bind_eq_Some_conv)
  then have "em_inv c f o1 d1" using 1(2) assms(1) by (intro EmitBackMessege_em [OF _ 1(2)]) simp_all
  then show ?thesis using em_inv_frame [of d' "d1\<lparr>scan := []\<rparr>"] with_stamp_frame [OF 1(3)] by simp
qed

lemma process_blocks_em:
  assumes "em_inv c f o1 d" and "process_blocks e u n raw tp az calc m i d = Some (r, d')"
  shows "em_inv c f o1 d'"
  using assms
proof (induction m arbitrary: i d)
  case (Suc m)
  from Suc.prems(2) obtain a r1 d1 where b: "process_block e u n raw tp a (calc i) d = Some (r1, d1)"
    "(if r1 \<noteq> Next then Some (r1, d1) else process_blocks e u n raw tp az calc m (Suc i) d1) = Some (r, d')"
    by (auto simp: bind_eq_Some_conv)
  from b(1) obtain r2 d2 where c: "(if frame_ends d a tp then finish_frame e n raw d else Some (Next, d)) = Some (r2, d2)"
    "if r2 \<noteq> Next then d1 = d2
     else \<exists>d3. calc_units u (calc i) n 0 d2 = Some d3 \<and> d1 = d3\<lparr>lastAzimuth := a, lastTimestamp := tp\<rparr>"
    by (auto simp: process_block_def bind_eq_Some_conv split: if_splits)
  have "em_inv c f o1 d2" using c(1) Suc.prems(1) finish_frame_em by (auto split: if_splits)
  then have "em_inv c f o1 d1" using c(2) calc_units_em [of u "calc i" n 0 d2] by (auto split: if_splits)
  then show ?case using b(2) Suc.IH by (auto split: if_splits)
qed simp

text \<open>After a packet the output cloud may have been renamed.\<close>

definition em_done :: "cfg \<Rightarrow> string \<Rightarrow> emission list \<Rightarrow> driver \<Rightarrow> bool" where
  "em_done c fid old d \<longleftrightarrow> (\<exists>m. em_inv c fid old (d\<lparr>outMsg := m\<rparr>)) \<and>
     (em_inv c fid (emitted d) d \<or> em_inv c (frameId c) (emitted d) d)"

lemma em_inv_refl: "em_inv c f o1 d \<Longrightarrow> em_inv c f (emitted d) d"
  by (simp add: em_inv_def)

lemma same_outMsg: "d\<lparr>outMsg := outMsg d\<rparr> = (d :: driver)"
  by (cases d) simp

lemma em_doneI: "em_inv c f o1 d \<Longrightarrow> em_done c f o1 d"
  unfolding em_done_def using em_inv_refl same_outMsg by metis

lemma finish_packet_em: "em_inv c f o1 d \<Longrightarrow> finish_packet (r, d) = (r', d') \<Longrightarrow> em_done c f o1 d'"
proof -
  assume i: "em_inv c f o1 d" and f: "finish_packet (r, d) = (r', d')"
  show ?thesis
  proof (cases "r = Next")
    case True
    then have d': "d' = d\<lparr>outMsg := (outMsg d)\<lparr>cl_frame_id := frameId (d_cfg d), cl_height := 1\<rparr>\<rparr>"
      using f by (simp add: finish_packet_def)
    have "em_inv c f o1 (d'\<lparr>outMsg := outMsg d\<rparr>)" using i by (simp add: d' same_outMsg)
    moreover have "em_inv c (frameId c) (emitted d') d'" using i by (simp add: d' em_inv_def)
    ultimately show ?thesis by (auto simp: em_done_def)
  qed (use i f in \<open>simp add: finish_packet_def em_doneI\<close>)
qed

lemma process_general_em:
  assumes "em_inv c f o1 d" and "process_general e u raw nl nb pkt calc d = Some (r, d')"
  shows "em_done c f o1 d'"
  using assms process_blocks_em [of c f o1 "d\<lparr>scan := scan d @ [raw]\<rparr>"] finish_packet_em
  unfolding process_general_def Let_def by fastforce

lemma parsed_em:
  assumes "em_inv c f o1 d" and "(do { (ret, pkt) \<leftarrow> pr; if ret \<noteq> 0 then Some (Next, d) else g pkt }) = Some (r, d')"
    and "\<And>pkt. g pkt = Some (r, d') \<Longrightarrow> em_done c f o1 d'"
  shows "em_done c f o1 d'"
  using assms(2,3) em_doneI [OF assms(1)] by (auto simp: bind_eq_Some_conv split: if_splits)

lemma process_40p_em:
  assumes "em_inv c f o1 d" and "process_40p e p raw q d = Some (r, d')"
  shows "em_done c f o1 d'"
proof (rule parsed_em [OF assms(1) assms(2) [unfolded process_40p_def]])
  fix pkt
  let ?b = "process_blocks e False LASER_COUNT raw (p40_timestamp_point pkt)
          (\<lambda>i. map_option p40_azimuth (rd (p40_blocks pkt) i)) (\<lambda>b d. calc_40p_unit (ctx_of d) pkt b)
          BLOCKS_PER_PACKET 0 (d\<lparr>scan := scan d @ [raw]\<rparr>)"
  assume "map_option finish_packet ?b = Some (r, d')"
  then obtain r1 d1 where b: "?b = Some (r1, d1)" "finish_packet (r1, d1) = (r, d')" by auto
  have "em_inv c f o1 d1" by (rule process_blocks_em [OF _ b(1)]) (simp add: assms(1))
  then show "em_done c f o1 d'" using b(2) by (rule finish_packet_em)
qed

lemma formats_em:
  assumes "em_inv c f o1 d"
  shows "process_l64 e p raw q2 d = Some (r, d') \<Longrightarrow> em_done c f o1 d'"
    "process_l20 e p raw q2 d = Some (r, d') \<Longrightarrow> em_done c f o1 d'"
    "process_qt e p raw q3 d = Some (r, d') \<Longrightarrow> em_done c f o1 d'"
  unfolding process_l64_def process_l20_def process_qt_def
  by (erule parsed_em [OF assms], erule process_general_em [OF assms])+

lemma process_xt_em:
  assumes "em_inv c f o1 d" and "process_xt e p raw q d = Some (r, d')"
  shows "em_done c f o1 d'"
proof -
  from assms(2) obtain ret k where
    pr: "ParseXTData (char_signed (base e)) (mktime_fn (base e)) q (pp_data p) (pp_size p) = Some (ret, k)"
    by (auto simp: process_xt_def bind_eq_Some_conv)
  obtain ok d1 where ob: "observe_sequence (udp_sequence k) (pp_stamp p) d = (ok, d1)" by fastforce
  then have "em_inv c f o1 d1"
    using em_inv_frame [of d1 d c f o1] assms(1) observe_sequence_simps(2,4) [of "udp_sequence k" "pp_stamp p" d] by simp
  then show ?thesis
    using assms pr ob process_general_em [of c f o1 d1] em_doneI
    by (cases "ret = 0"; cases ok) (auto simp: process_xt_def)
qed

lemma prepared_em:
  assumes "em_inv c f o1 d" and "prepared e raw g d = Some (r, d')"
    and "\<And>d1. em_inv c f o1 d1 \<Longrightarrow> g d1 = Some (r, d') \<Longrightarrow> em_done c f o1 d'"
  shows "em_done c f o1 d'"
proof -
  obtain r1 d1 where p: "prepare_transform e raw d = (r1, d1)" by fastforce
  then have i: "em_inv c f o1 d1" using em_inv_frame [of d1 d] prepare_frame [OF p] assms(1) by simp
  then show ?thesis using assms(2,3) p em_doneI [OF i] by (cases "r1 = Next") (auto simp: prepared_def)
qed

lemma process_packet_em:
  assumes "em_inv c f o1 d" and "process_packet e p d = Some (r, d')"
  shows "em_done c f o1 d'"
proof -
  obtain dec g where o: "ts_observe (tsGuard d) (pp_stamp p) = (dec, g)" by fastforce
  let ?d = "d\<lparr>processedPackets := processedPackets d + 1, tsGuard := g, pktTimestamp := pp_stamp p\<rparr>"
  have i: "em_inv c f o1 ?d" using assms(1) by (simp add: em_inv_def)
  show ?thesis
  proof (cases "ts_accepted dec")
    case False
    then have "em_inv c f o1 d'"
      using assms o em_inv_frame [of d' d] by (auto simp: process_packet_def Let_def frame_state_def)
    then show ?thesis by (rule em_doneI)
  next
    case True
    then obtain raw where run: "dispatch_packet e p raw ?d = Some (r, d')"
      using assms(2) o by (auto simp: process_packet_def Let_def bind_eq_Some_conv)
    show ?thesis
    proof (cases rule: dispatch_formats [of e p raw ?d])
      case F40
      show ?thesis by (rule prepared_em [OF i run [unfolded F40(1)] process_40p_em])
    next
      case F64
      show ?thesis by (rule prepared_em [OF i run [unfolded F64(1)] formats_em(1)])
    next
      case F20
      show ?thesis by (rule prepared_em [OF i run [unfolded F20(1)] formats_em(2)])
    next
      case FQT
      show ?thesis by (rule prepared_em [OF i run [unfolded FQT(1)] formats_em(3)])
    next
      case FXT
      show ?thesis by (rule prepared_em [OF i run [unfolded FXT(1)] process_xt_em])
    next
      case Unknown
      then show ?thesis using run em_doneI [OF i] by simp
    qed
  qed
qed

lemma em_done_new: "em_done c f o1 d \<Longrightarrow> \<exists>ms. emitted d = o1 @ ms \<and> (\<forall>m \<in> set ms. emission_ok m \<and> cl_frame_id (em_cloud m) = f)"
  by (auto simp: em_done_def em_inv_def)

lemma process_packets_em:
  assumes "em_inv c f o1 d" and "f \<in> {[], frameId c}" and "process_packets e ps d = Some (r, d')"
  shows "\<exists>ms. emitted d' = o1 @ ms \<and> (\<forall>m \<in> set ms. emission_ok m \<and> cl_frame_id (em_cloud m) \<in> {[], frameId c})"
  using assms
proof (induction ps arbitrary: d f o1)
  case (Cons p ps)
  from Cons.prems(3) obtain r1 d1 where 1: "process_packet e p d = Some (r1, d1)"
    "if r1 = Next then process_packets e ps d1 = Some (r, d') else d' = d1"
    by (auto simp: bind_eq_Some_conv split: if_splits)
  have dn: "em_done c f o1 d1" using process_packet_em [OF Cons.prems(1) 1(1)] .
  obtain ms where ms: "emitted d1 = o1 @ ms" "\<forall>m \<in> set ms. emission_ok m \<and> cl_frame_id (em_cloud m) = f"
    using em_done_new [OF dn] by blast
  obtain f' where f': "em_inv c f' (emitted d1) d1" "f' \<in> {[], frameId c}"
    using dn Cons.prems(2) by (auto simp: em_done_def)
  show ?case
  proof (cases "r1 = Next")
    case True
    then obtain ns where "emitted d' = emitted d1 @ ns"
      "\<forall>m \<in> set ns. emission_ok m \<and> cl_frame_id (em_cloud m) \<in> {[], frameId c}"
      using Cons.IH [OF f'] 1(2) by auto
    then show ?thesis using ms Cons.prems(2) by (intro exI [of _ "ms @ ns"]) auto
  next
    case False
    then show ?thesis using 1(2) ms Cons.prems(2) by auto
  qed
qed (auto simp: em_inv_def)

text \<open>
  C22. Every cloud handed to the callback is well formed: over any run of the processing thread,
  in every configuration, each delivered cloud is non-empty, is stamped with the time of its
  first point, has width equal to its number of points and height one, carries either the
  configured frame identifier or none, and comes with a scan whose last packet is the
  correction-file packet.
\<close>

theorem delivered_clouds_ok:
  assumes "ProcessLiarPacket e ps d = Some (r, d')" and "\<forall>m \<in> set (emitted d). emission_ok m"
  shows "(\<forall>m \<in> set (emitted d'). emission_ok m) \<and>
    (\<exists>ms. emitted d' = emitted d @ ms \<and> (\<forall>m \<in> set ms. cl_frame_id (em_cloud m) \<in> {[], frameId (d_cfg d)}))"
proof -
  obtain r1 d1 where 1: "computeTransformToTarget e (clock_now e) (d\<lparr>outMsg := empty_cloud, scan := []\<rparr>) = (r1, d1)"
    by fastforce
  then have d1: "frame_state d1 = frame_state (d\<lparr>outMsg := empty_cloud, scan := []\<rparr>)" "d_cfg d1 = d_cfg d"
    by (auto simp: computeTransformToTarget_def calculateTransformMatrix_def frame_state_def Let_def
      split: option.splits if_splits prod.splits lookup.splits tf_result.splits)
  have e: "emitted d1 = emitted d" using d1(1) by (simp add: frame_state_def)
  have "em_inv (d_cfg d) [] (emitted d) d1" using d1 by (simp add: em_inv_def frame_state_def empty_cloud_def)
  then have "\<exists>ms. emitted d' = emitted d @ ms \<and>
      (\<forall>m \<in> set ms. emission_ok m \<and> cl_frame_id (em_cloud m) \<in> {[], frameId (d_cfg d)})"
    using process_packets_em [of "d_cfg d" "[]" "emitted d" d1 e ps r d'] assms(1) 1 e
    by (cases "r1 = Next") (auto simp: ProcessLiarPacket_def)
  then show ?thesis using assms(2) by auto
qed

text \<open>
  The clouds completed while a packet is processed carry the frame identifier that the output
  cloud had before the packet, because the identifier is assigned after the blocks: a frame that
  ends inside the first accepted packet is delivered without an identifier, all later ones have
  the configured one.
\<close>

lemma frame_id_lags:
  assumes "process_packet e p d = Some (r, d')"
    and "cl_width (outMsg d) = length (cl_points (outMsg d))" and "cl_points (outMsg d) \<noteq> [] \<longrightarrow> cl_height (outMsg d) = 1"
  shows "\<exists>ms. emitted d' = emitted d @ ms \<and> (\<forall>m \<in> set ms. cl_frame_id (em_cloud m) = cl_frame_id (outMsg d)) \<and>
    cl_frame_id (outMsg d') \<in> {cl_frame_id (outMsg d), frameId (d_cfg d)}"
proof -
  have "em_inv (d_cfg d) (cl_frame_id (outMsg d)) (emitted d) d" using assms(2,3) by (simp add: em_inv_def)
  from process_packet_em [OF this assms(1)]
  have dn: "em_done (d_cfg d) (cl_frame_id (outMsg d)) (emitted d) d'" .
  show ?thesis using em_done_new [OF dn] dn by (auto simp: em_done_def em_inv_def)
qed

lemma demo_run: "\<exists>d'. process_packet demo_env demo_packet demo_driver = Some (Next, d')"
  using xt_packet_fits [of "''PandarXT-16''" demo_driver demo_packet demo_env] Init_xt_tables
    demo_packet_simps demo_driver_simps
  by (auto simp: MAX_POINT_CLOUD_NUM_def demo_env_def ros_time_ok_def)

lemma demo_driver_out: "outMsg demo_driver = empty_cloud" "scan demo_driver = []" "emitted demo_driver = []"
  "targetFrame demo_driver = []"
  by (simp_all add: demo_driver_def new_driver_def)

theorem delivered_clouds_ok_witness:
  "\<exists>d'. ProcessLiarPacket demo_env [demo_packet] demo_driver = Some (Next, d') \<and> (\<forall>m \<in> set (emitted d'). emission_ok m)"
proof -
  obtain d' where d': "process_packet demo_env demo_packet demo_driver = Some (Next, d')" using demo_run by blast
  have same: "demo_driver\<lparr>outMsg := empty_cloud, scan := []\<rparr> = demo_driver"
    by (simp add: demo_driver_def new_driver_def)
  have "ProcessLiarPacket demo_env [demo_packet] demo_driver = Some (Next, d')"
    unfolding ProcessLiarPacket_def same using d' demo_driver_out by (simp add: computeTransformToTarget_def)
  then show ?thesis using delivered_clouds_ok [of demo_env "[demo_packet]" demo_driver Next d'] demo_driver_out by auto
qed

section \<open>When a frame ends\<close>

text \<open>Hundredths of a degree swept from \<open>a\<close> forwards to \<open>b\<close>.\<close>

definition sweep :: "int \<Rightarrow> int \<Rightarrow> int" where
  "sweep a b = (b - a) mod 36000"

text \<open>
  C31. The frame boundary against its meaning. For azimuths and a start angle inside a
  revolution, the code's azimuth gap is the angle swept since the last block, and its crossing
  test holds exactly when the start angle lies in the swept arc, except for one case: when the
  sweep passes 0 and the start angle lies between the last block and 0, the test does not fire
  although the start angle was passed.
\<close>

theorem frame_boundary_arc:
  assumes "uint (lastAzimuth d) < 36000" and "uint az < 36000"
    and "0 \<le> startAngle (d_cfg d)" and "startAngle (d_cfg d) < 36000"
  shows "azimuth_gap (lastAzimuth d) az = sweep (uint (lastAzimuth d)) (uint az) \<and>
    (crosses_start d az \<longleftrightarrow>
       0 < sweep (uint (lastAzimuth d)) (startAngle (d_cfg d)) \<and>
       sweep (uint (lastAzimuth d)) (startAngle (d_cfg d)) \<le> sweep (uint (lastAzimuth d)) (uint az) \<and>
       \<not> (uint az < uint (lastAzimuth d) \<and> uint (lastAzimuth d) < startAngle (d_cfg d)))"
proof -
  have sw: "sweep a b = (if a \<le> b then b - a else b - a + 36000)"
    if "0 \<le> a" "a < 36000" "0 \<le> b" "b < 36000" for a b
  proof (cases "a \<le> b")
    case False
    have "(b - a) mod 36000 = (b - a + 36000) mod 36000" by simp
    also have "\<dots> = b - a + 36000" using that False by (intro mod_pos_pos_trivial) auto
    finally show ?thesis using False by (simp add: sweep_def)
  qed (use that in \<open>simp add: sweep_def\<close>)
  have u: "0 \<le> uint (lastAzimuth d)" "0 \<le> uint az" by simp_all
  show ?thesis
    using assms sw [OF u(1) assms(1) u(2) assms(2)] sw [OF u(1) assms(1,3,4)] u
    unfolding azimuth_gap_def crosses_start_def by auto
qed

definition late_driver :: driver where
  "late_driver = (ResetStartAngle 35990 demo_driver)\<lparr>lastAzimuth := 35985\<rparr>"

theorem frame_boundary_arc_witness:
  "sweep 35985 35990 = 5 \<and> azimuth_gap (lastAzimuth late_driver) 3 = 18 \<and> \<not> crosses_start late_driver 3"
  using frame_boundary_arc [of late_driver 3] by (simp add: late_driver_def ResetStartAngle_def sweep_def)

section \<open>A target frame stops the thread\<close>

text \<open>
  C38. A driver constructed with a non-empty target frame never processes a packet: the thread asks
  for the transform to that frame before the loop, the buffer of the transform listener is only
  created inside the loop, so the look-up fails and the thread function returns. This holds whatever
  packets are waiting and whatever the transform library would answer; after a restart it holds
  again.
\<close>

theorem target_frame_stops_thread:
  assumes "target \<noteq> []"
    and "d = new_driver tb tf0 callback start_angle tz pcl_type lidar_type frame_id ts_type correction target fixed"
  shows "\<exists>d'. ProcessLiarPacket e ps d = Some (Exit, d') \<and> emitted d' = [] \<and> processedPackets d' = 0 \<and>
    (\<exists>d''. ProcessLiarPacket e ps (fst (Start_state d' q)) = Some (Exit, d'') \<and> emitted d'' = [] \<and> processedPackets d'' = 0)"
  using assms(1)
  by (simp add: assms(2) new_driver_def ProcessLiarPacket_def computeTransformToTarget_def
      calculateTransformMatrix_def outcome_of_def Start_state_def Stop_state_def)

theorem target_frame_stops_thread_witness:
  "\<exists>d'. ProcessLiarPacket demo_env [demo_packet] (new_driver (Init_tables (\<lambda>x. x) (\<lambda>x. x) ''PandarXT-16'') (\<lambda>p. p)
     True 0 0 0 ''PandarXT-16'' ''hesai_lidar'' [] True ''base_link'' []) = Some (Exit, d') \<and> emitted d' = []"
  using target_frame_stops_thread [OF _ refl, of "''base_link''"] by blast

end
