(* ===== verification/Pipeline.thy ===== *)
theory Pipeline
  imports Frame_Props "HOL-Library.Sublist"
begin

text \<open>
  The receiving and the processing thread together: \<^verbatim>\<open>RecvTask\<close> and \<^verbatim>\<open>FillPacket\<close> put
  packets into the bounded queue, the loop of \<^verbatim>\<open>ProcessLiarPacket\<close> takes them out. The two
  threads share only the queue, whose calls are linearised (theory \<open>Spsc_Concurrency\<close>), so
  an execution is an interleaving of their turns.
\<close>

section \<open>Turns\<close>

record pipeline =
  recv :: receiver
  drv :: driver
  alive :: bool

datatype turn = TPush PandarPacket | TProcess

text \<open>An empty queue makes the processing thread sleep and try again.\<close>

fun pipe_step :: "drv_env \<Rightarrow> turn \<Rightarrow> pipeline \<Rightarrow> pipeline option" where
  "pipe_step e (TPush p) s = Some (s\<lparr>recv := PushLiDARData p (recv s)\<rparr>)"
| "pipe_step e TProcess s =
     (if \<not> alive s then Some s
      else
        (case try_pop PACKET_BUFFER_STORAGE_SIZE (packetsBuffer (recv s)) of
           (None, q) \<Rightarrow> Some (s\<lparr>recv := (recv s)\<lparr>packetsBuffer := q\<rparr>\<rparr>)
         | (Some p, q) \<Rightarrow> do {
             (r, d) \<leftarrow> process_packet e p (drv s);
             Some (s\<lparr>recv := (recv s)\<lparr>packetsBuffer := q\<rparr>, drv := d, alive := (r = Next)\<rparr>)
           }))"

fun pipe_run :: "drv_env \<Rightarrow> turn list \<Rightarrow> pipeline \<Rightarrow> pipeline option" where
  "pipe_run e [] s = Some s"
| "pipe_run e (t # ts) s = Option.bind (pipe_step e t s) (pipe_run e ts)"

definition new_receiver :: "PandarPacket \<Rightarrow> receiver" where
  "new_receiver p0 = \<lparr>packetsBuffer = spsc_new PACKET_BUFFER_STORAGE_SIZE p0, queueOverloadDrops = 0,
     enqueuedPackets = 0, maxQueueDepthObserved = 0, gpsTimes = []\<rparr>"

section \<open>The queue\<close>

abbreviation queue_ok :: "PandarPacket spsc \<Rightarrow> bool" where
  "queue_ok \<equiv> spsc_inv PACKET_BUFFER_STORAGE_SIZE MAX_PACKET_BACKLOG"

definition queued :: "receiver \<Rightarrow> PandarPacket list" where
  "queued r = spsc_list PACKET_BUFFER_STORAGE_SIZE (packetsBuffer r)"

lemma PushLiDARData_ok:
  fixes p r
  assumes "queue_ok (packetsBuffer r)"
  defines "r' \<equiv> PushLiDARData p r"
  shows "queue_ok (packetsBuffer r') \<and>
    (if length (queued r) < MAX_PACKET_BACKLOG
     then queued r' = queued r @ [p] \<and> enqueuedPackets r' = enqueuedPackets r + 1 \<and>
       queueOverloadDrops r' = queueOverloadDrops r
     else queued r' = queued r \<and> enqueuedPackets r' = enqueuedPackets r \<and>
       queueOverloadDrops r' = queueOverloadDrops r + 1)"
proof -
  let ?c = PACKET_BUFFER_STORAGE_SIZE and ?m = MAX_PACKET_BACKLOG
  obtain ok n q where pu: "try_push ?c ?m p (packetsBuffer r) = (ok, n, q)" by (cases "try_push ?c ?m p (packetsBuffer r)") auto
  from packetq.push_simulates [OF assms(1) pu]
  have s: "queue_ok q" "list_push ?m p (queued r) = (ok, n, spsc_list ?c q)" by (simp_all add: queued_def)
  show ?thesis using pu s by (auto simp: r'_def PushLiDARData_def queued_def list_push_def split: if_splits)
qed

lemma pop_ok:
  assumes "queue_ok (packetsBuffer r)" and "try_pop PACKET_BUFFER_STORAGE_SIZE (packetsBuffer r) = (v, q)"
  shows "queue_ok q \<and> (case v of None \<Rightarrow> queued r = [] \<and> queued (r\<lparr>packetsBuffer := q\<rparr>) = []
    | Some p \<Rightarrow> queued r = p # queued (r\<lparr>packetsBuffer := q\<rparr>))"
  using packetq.pop_simulates [OF assms] by (auto simp: queued_def list_pop_def split: list.splits)

section \<open>End to end\<close>

fun pushes :: "turn list \<Rightarrow> PandarPacket list" where
  "pushes [] = []"
| "pushes (TPush p # ts) = p # pushes ts"
| "pushes (TProcess # ts) = pushes ts"

text \<open>What has happened since \<open>s0\<close>: \<open>ps\<close> were processed, \<open>kp\<close> were queued, \<open>n\<close> were dropped.\<close>

definition history :: "drv_env \<Rightarrow> pipeline \<Rightarrow> PandarPacket list \<Rightarrow> PandarPacket list \<Rightarrow> nat \<Rightarrow> pipeline \<Rightarrow> bool" where
  "history e s0 ps kp n s \<longleftrightarrow>
     queue_ok (packetsBuffer (recv s)) \<and> ps @ queued (recv s) = queued (recv s0) @ kp \<and>
     queueOverloadDrops (recv s) = queueOverloadDrops (recv s0) + of_nat n \<and>
     enqueuedPackets (recv s) = enqueuedPackets (recv s0) + of_nat (length kp) \<and>
     (alive s \<longrightarrow> plain (drv s) \<and> (\<forall>x. (ctx_of (drv s))\<lparr>cc_pktTimestamp := x\<rparr> = (ctx_of (drv s0))\<lparr>cc_pktTimestamp := x\<rparr>) \<and>
        processedPackets (drv s) = processedPackets (drv s0) + of_nat (length ps) \<and>
        collected (drv s) = fold (collect e (ctx_of (drv s0))) ps (collected (drv s0)))"

lemma push_history:
  assumes "history e s0 ps kp n s"
  shows "\<exists>kp' n'. history e s0 ps kp' n' (s\<lparr>recv := PushLiDARData p (recv s)\<rparr>) \<and>
    (kp' = kp @ [p] \<and> n' = n \<or> kp' = kp \<and> n' = Suc n \<and> length (queued (recv s)) = MAX_PACKET_BACKLOG)"
proof -
  have q: "queue_ok (packetsBuffer (recv s))" using assms by (simp add: history_def)
  have len: "length (queued (recv s)) \<le> MAX_PACKET_BACKLOG"
    using q by (simp add: queued_def spsc_inv_def approximate_size_def)
  note P = PushLiDARData_ok [OF q, of p]
  show ?thesis
  proof (cases "length (queued (recv s)) < MAX_PACKET_BACKLOG")
    case True
    then have "history e s0 ps (kp @ [p]) n (s\<lparr>recv := PushLiDARData p (recv s)\<rparr>)"
      using assms P by (auto simp: history_def)
    then show ?thesis by blast
  next
    case False
    then have "history e s0 ps kp (Suc n) (s\<lparr>recv := PushLiDARData p (recv s)\<rparr>)"
      using assms P by (auto simp: history_def)
    then show ?thesis using False len by auto
  qed
qed

lemma process_history:
  assumes h: "history e s0 ps kp n s" and run: "pipe_step e TProcess s = Some s'" and al: "alive s'"
  shows "\<exists>ps'. history e s0 ps' kp n s'"
proof -
  have q: "queue_ok (packetsBuffer (recv s))" using h by (simp add: history_def)
  obtain v b where pop: "try_pop PACKET_BUFFER_STORAGE_SIZE (packetsBuffer (recv s)) = (v, b)" by fastforce
  note pk = pop_ok [OF q pop]
  have als: "alive s" using run al by (auto split: if_splits)
  show ?thesis
  proof (cases v)
    case None
    then have "s' = s\<lparr>recv := (recv s)\<lparr>packetsBuffer := b\<rparr>\<rparr>" using run pop als by simp
    then have "history e s0 ps kp n s'" using h pk None by (simp add: history_def)
    then show ?thesis by blast
  next
    case (Some p)
    then obtain r d where d: "process_packet e p (drv s) = Some (r, d)"
      "s' = s\<lparr>recv := (recv s)\<lparr>packetsBuffer := b\<rparr>, drv := d, alive := (r = Next)\<rparr>"
      using run pop als by (auto simp: bind_eq_Some_conv)
    have r: "r = Next" using al d(2) by simp
    have pl: "plain (drv s)" using h als by (simp add: history_def)
    note step = process_packet_plain [OF pl d(1) [unfolded r]]
    have "collect e (ctx_of (drv s)) = collect e (ctx_of (drv s0))"
      using h als by (intro collect_cong) (simp add: history_def)
    then have "history e s0 (ps @ [p]) kp n s'"
      using h als step pk Some r by (auto simp: history_def d(2))
    then show ?thesis by blast
  qed
qed

lemma alive_back: "pipe_step e t s = Some s' \<Longrightarrow> alive s' \<Longrightarrow> alive s"
  by (cases t) (auto split: if_splits)

lemma alive_back_run: "pipe_run e ts s = Some s' \<Longrightarrow> alive s' \<Longrightarrow> alive s"
  by (induction ts arbitrary: s) (auto simp: bind_eq_Some_conv dest: alive_back)

lemma run_history:
  assumes "history e s0 ps kp n s" and "pipe_run e ts s = Some s'" and "alive s'"
  shows "\<exists>ps' kp' n'. history e s0 ps' (kp @ kp') (n + n') s' \<and> subseq kp' (pushes ts) \<and>
    length (pushes ts) = length kp' + n'"
  using assms
proof (induction ts arbitrary: s ps kp n)
  case Nil
  then show ?case by (intro exI [of _ ps] exI [of _ "[]"] exI [of _ 0]) simp
next
  case (Cons t ts)
  from Cons.prems(2) obtain s1 where s1: "pipe_step e t s = Some s1" "pipe_run e ts s1 = Some s'"
    by (auto simp: bind_eq_Some_conv)
  have al: "alive s1" using alive_back_run [OF s1(2) Cons.prems(3)] .
  show ?case
  proof (cases t)
    case TProcess
    then obtain ps1 where "history e s0 ps1 kp n s1" using process_history [OF Cons.prems(1) _ al] s1(1) by blast
    from Cons.IH [OF this s1(2) Cons.prems(3)] TProcess show ?thesis by simp
  next
    case (TPush p)
    then obtain kp1 n1 where h: "history e s0 ps kp1 n1 s1"
      "kp1 = kp @ [p] \<and> n1 = n \<or> kp1 = kp \<and> n1 = Suc n"
      using push_history [OF Cons.prems(1), of p] s1(1) by auto
    obtain ps' kp' n' where 2: "history e s0 ps' (kp1 @ kp') (n1 + n') s'" "subseq kp' (pushes ts)"
      "length (pushes ts) = length kp' + n'"
      using Cons.IH [OF h(1) s1(2) Cons.prems(3)] by blast
    from h(2) show ?thesis
    proof
      assume "kp1 = kp @ [p] \<and> n1 = n"
      then show ?thesis using 2 TPush by (intro exI [of _ ps'] exI [of _ "p # kp'"] exI [of _ n']) simp
    next
      assume "kp1 = kp \<and> n1 = Suc n"
      then have "history e s0 ps' (kp @ kp') (n + Suc n') s' \<and> subseq kp' (pushes (t # ts)) \<and>
          length (pushes (t # ts)) = length kp' + Suc n'"
        using 2 TPush by (simp add: list_emb_Cons)
      then show ?thesis by blast
    qed
  qed
qed

text \<open>
  C6. End to end, from the receiving thread to the callback: for every interleaving of the two
  threads in the shipped configuration that keeps the processing thread alive, the packets that
  entered the queue are a subsequence of those received, in order; the processed ones followed by
  those still queued are exactly them; the points delivered and pending are what the abstract
  collector makes of the processed packets; the drop, enqueue and processed counters account for
  every packet; and the backlog never exceeds 400.
\<close>

theorem pipeline_end_to_end:
  assumes "pipe_run e ts \<lparr>recv = new_receiver p0, drv = d, alive = True\<rparr> = Some s'" and "alive s'" and "plain d"
  shows "\<exists>kp ps n. subseq kp (pushes ts) \<and> ps @ queued (recv s') = kp \<and> length (pushes ts) = length kp + n \<and>
    collected (drv s') = fold (collect e (ctx_of d)) ps (collected d) \<and>
    enqueuedPackets (recv s') = of_nat (length kp) \<and> queueOverloadDrops (recv s') = of_nat n \<and>
    processedPackets (drv s') = processedPackets d + of_nat (length ps) \<and>
    length (queued (recv s')) \<le> MAX_PACKET_BACKLOG"
proof -
  let ?s = "\<lparr>recv = new_receiver p0, drv = d, alive = True\<rparr>"
  have q: "queue_ok (packetsBuffer (new_receiver p0))" "queued (new_receiver p0) = []"
    using spsc_new_inv [of MAX_PACKET_BACKLOG PACKET_BUFFER_STORAGE_SIZE p0]
    by (simp_all add: new_receiver_def queued_def MAX_PACKET_BACKLOG_def PACKET_BUFFER_STORAGE_SIZE_def)
  have "history e ?s [] [] 0 ?s" using q assms(3) by (simp add: history_def)
  from run_history [OF this assms(1,2)] obtain ps kp n where h: "history e ?s ps kp n s'" "subseq kp (pushes ts)"
    "length (pushes ts) = length kp + n" by auto
  have "length (queued (recv s')) \<le> MAX_PACKET_BACKLOG"
    using h(1) by (simp add: history_def queued_def spsc_inv_def approximate_size_def)
  then show ?thesis using h assms(2) q by (intro exI [of _ kp] exI [of _ ps] exI [of _ n]) (auto simp: history_def new_receiver_def)
qed

theorem pipeline_end_to_end_witness:
  "\<exists>s'. pipe_run demo_env [TPush demo_packet, TProcess]
       \<lparr>recv = new_receiver demo_packet, drv = demo_driver, alive = True\<rparr> = Some s' \<and> alive s' \<and>
     length (queued (recv s')) \<le> 400"
proof -
  let ?r = "new_receiver demo_packet" and ?s = "\<lparr>recv = new_receiver demo_packet, drv = demo_driver, alive = True\<rparr>"
  let ?r1 = "PushLiDARData demo_packet ?r"
  have q: "queue_ok (packetsBuffer ?r)" "queued ?r = []"
    using spsc_new_inv [of MAX_PACKET_BACKLOG PACKET_BUFFER_STORAGE_SIZE demo_packet]
    by (simp_all add: new_receiver_def queued_def MAX_PACKET_BACKLOG_def PACKET_BUFFER_STORAGE_SIZE_def)
  have q1: "queue_ok (packetsBuffer ?r1)" "queued ?r1 = [demo_packet]"
    using PushLiDARData_ok [OF q(1), of demo_packet] q(2) by (simp_all add: MAX_PACKET_BACKLOG_def)
  obtain b where b: "try_pop PACKET_BUFFER_STORAGE_SIZE (packetsBuffer ?r1) = (Some demo_packet, b)"
    using pop_ok [OF q1(1)] q1(2) by (cases "try_pop PACKET_BUFFER_STORAGE_SIZE (packetsBuffer ?r1)") (force split: option.splits)
  obtain d' where "process_packet demo_env demo_packet demo_driver = Some (Next, d')" using demo_run by blast
  then obtain s' where s': "pipe_run demo_env [TPush demo_packet, TProcess] ?s = Some s'" "alive s'"
    using b by simp
  from pipeline_end_to_end [OF s' demo_driver_simps(5)] show ?thesis
    using s' by (auto simp: MAX_PACKET_BACKLOG_def)
qed

end
