(* ===== verification/Udp_Input.thy ===== *)
theory Udp_Input
  imports Driver_Props Posix_Io
begin

text \<open>
  The UDP input of \<^verbatim>\<open>input.cc\<close>: the constructor, which opens one or two sockets, the
  destructor, and \<^verbatim>\<open>getPacket\<close>. The answers of the system calls are arguments. A member that
  the constructor leaves without a value is \<^term>\<open>None\<close>; using it is undefined. The log output
  is left out, and so are the socket options, whose failures the code only reports.
\<close>

section \<open>Construction\<close>

record Input =
  socketForLidar :: int
  socketForGPS :: "int option"
  socketNumber :: "nat option"

text \<open>
  \<open>us_socket\<close> by the purpose (\<open>True\<close> for GPS), \<open>us_bind\<close> by the socket and the port,
  \<open>us_nonblock\<close> (\<^verbatim>\<open>fcntl\<close>) by the socket. For the multicast group of IPv6, whether the address
  is valid and what joining it returns.
\<close>

record udp_sys =
  us_socket :: "bool \<Rightarrow> int"
  us_bind :: "int \<Rightarrow> u16 \<Rightarrow> int"
  us_nonblock :: "int \<Rightarrow> int"
  us_group_valid :: bool
  us_group_join :: int

text \<open>The last statements, which both families share.\<close>

definition finish_input :: "udp_sys \<Rightarrow> int \<Rightarrow> int \<Rightarrow> Input" where
  "finish_input S lidar gps =
     (if us_nonblock S gps < 0 then \<lparr>socketForLidar = lidar, socketForGPS = Some gps, socketNumber = None\<rparr>
      else \<lparr>socketForLidar = lidar, socketForGPS = Some gps, socketNumber = Some 2\<rparr>)"

definition open_gps :: "udp_sys \<Rightarrow> u16 \<Rightarrow> (int \<Rightarrow> Input) \<Rightarrow> int \<Rightarrow> Input" where
  "open_gps S gpsPort rest lidar =
     (let gps = us_socket S True
      in if gps = -1 \<or> us_bind S gps gpsPort = -1
         then \<lparr>socketForLidar = lidar, socketForGPS = Some gps, socketNumber = None\<rparr>
         else rest gps)"

definition new_Input :: "udp_sys \<Rightarrow> string \<Rightarrow> u16 \<Rightarrow> u16 \<Rightarrow> string \<Rightarrow> Input" where
  "new_Input S deviceipaddr port gpsPort multicast =
     (let isIpV6 = CHR '':'' \<in> set deviceipaddr;
          lidar = us_socket S False;
          failed = \<lparr>socketForLidar = lidar, socketForGPS = None, socketNumber = None\<rparr>
      in if lidar = -1 then failed
         else if us_bind S lidar port = -1 then failed
         else if us_nonblock S lidar < 0 then failed
         else if port = gpsPort then failed\<lparr>socketNumber := Some 1\<rparr>
         else
           open_gps S gpsPort
             (\<lambda>gps.
                if isIpV6 \<and> multicast \<noteq> [] \<and> (\<not> us_group_valid S \<or> us_group_join S \<noteq> 0)
                then \<lparr>socketForLidar = lidar, socketForGPS = Some gps, socketNumber = None\<rparr>
                else finish_input S lidar gps)
             lidar)"

text \<open>The destructor: the descriptors it closes.\<close>

definition delete_Input :: "Input \<Rightarrow> int list option" where
  "delete_Input i =
     map_option (\<lambda>gps. (if 0 < gps then [gps] else []) @ (if 0 < socketForLidar i then [socketForLidar i] else []))
       (socketForGPS i)"

section \<open>Receiving\<close>

record revents =
  rv_in :: bool
  rv_err :: bool

datatype poll_result = PollFailed | PollTimeout | PollReady "revents list"

text \<open>\<^verbatim>\<open>recvfrom\<close> on a descriptor: a datagram, cut to the buffer, or an error.\<close>

datatype recv_result = Datagram "byte list" | WouldBlock | RecvFailed

fun first_in :: "nat \<Rightarrow> revents list \<Rightarrow> nat option" where
  "first_in i [] = None"
| "first_in i (r # rs) = (if rv_in r then Some i else first_in (Suc i) rs)"

text \<open>The array \<^verbatim>\<open>fds\<close>: the GPS socket comes first when there are two.\<close>

definition pollfds :: "Input \<Rightarrow> int list option" where
  "pollfds i =
     (if socketNumber i = Some 2 then map_option (\<lambda>gps. [gps, socketForLidar i]) (socketForGPS i)
      else if socketNumber i = Some 1 then Some [socketForLidar i]
      else None)"

text \<open>
  \<open>old\<close> is the packet before the call. When no socket has input, \<^verbatim>\<open>nbytes\<close> is used without a
  value; when the datagram has gone, -1 is stored in the unsigned size.
\<close>

definition getPacket ::
  "poll_result \<Rightarrow> (int \<Rightarrow> recv_result) \<Rightarrow> fp \<Rightarrow> PandarPacket \<Rightarrow> Input \<Rightarrow> PandarPacket option option" where
  "getPacket poll recvfrom time old i =
     (case pollfds i of
        None \<Rightarrow> None
      | Some fds \<Rightarrow>
        (case poll of
           PollFailed \<Rightarrow> Some None
         | PollTimeout \<Rightarrow> Some None
         | PollReady revs \<Rightarrow>
             if length revs \<noteq> length fds then None
             else if rv_err (revs ! 0) then Some None
             else
               (case first_in 0 revs of
                  None \<Rightarrow> None
                | Some k \<Rightarrow>
                    (case recvfrom (fds ! k) of
                       RecvFailed \<Rightarrow> Some None
                     | WouldBlock \<Rightarrow> Some (Some (old\<lparr>pp_size := unat (- 1 :: u32), pp_stamp := time\<rparr>))
                     | Datagram bs \<Rightarrow>
                         (let bs = take ETHERNET_MTU bs
                          in Some (Some (old\<lparr>pp_data := bs @ drop (length bs) (pp_data old), pp_size := length bs,
                                             pp_stamp := time\<rparr>)))))))"

section \<open>Properties\<close>

lemma new_Input_cases:
  assumes "socketNumber (new_Input S ip port gpsPort mc) = Some k"
  shows "k = 1 \<and> port = gpsPort \<and> socketForGPS (new_Input S ip port gpsPort mc) = None \<or>
    k = 2 \<and> port \<noteq> gpsPort \<and> socketForGPS (new_Input S ip port gpsPort mc) \<noteq> None"
  using assms by (auto simp: new_Input_def open_gps_def finish_input_def Let_def split: if_splits)

lemma first_in_ready: "r \<in> set rs \<Longrightarrow> rv_in r \<Longrightarrow> first_in i rs \<noteq> None"
  by (induction i rs rule: first_in.induct) auto

lemma first_in_less: "first_in i revs = Some k \<Longrightarrow> i \<le> k \<and> k < i + length revs"
  by (induction i revs rule: first_in.induct) (auto split: if_splits)

lemma first_in_least:
  assumes "j < length revs" and "rv_in (revs ! j)" and "\<forall>k < j. \<not> rv_in (revs ! k)"
  shows "first_in i revs = Some (i + j)"
  using assms
proof (induction i revs arbitrary: j rule: first_in.induct)
  case (2 i r rs)
  show ?case
  proof (cases j)
    case (Suc m)
    with 2(4) have "\<not> rv_in r" "\<forall>k < m. \<not> rv_in (rs ! k)" by auto
    with 2(1) [of m] 2(2,3) Suc show ?thesis by simp
  qed (use 2 in simp)
qed simp

lemma first_in_none: "(\<forall>r \<in> set revs. \<not> rv_in r) \<longleftrightarrow> first_in i revs = None"
  by (induction i revs rule: first_in.induct) auto

text \<open>Whether the calls of the constructor for each of the two sockets succeed.\<close>

definition lidar_opens :: "udp_sys \<Rightarrow> u16 \<Rightarrow> bool" where
  "lidar_opens S port \<longleftrightarrow> us_socket S False \<noteq> -1 \<and> us_bind S (us_socket S False) port \<noteq> -1 \<and>
     0 \<le> us_nonblock S (us_socket S False)"

definition gps_opens :: "udp_sys \<Rightarrow> string \<Rightarrow> u16 \<Rightarrow> string \<Rightarrow> bool" where
  "gps_opens S ip gpsPort mc \<longleftrightarrow> us_socket S True \<noteq> -1 \<and> us_bind S (us_socket S True) gpsPort \<noteq> -1 \<and>
     (CHR '':'' \<in> set ip \<and> mc \<noteq> [] \<longrightarrow> us_group_valid S \<and> us_group_join S = 0) \<and>
     0 \<le> us_nonblock S (us_socket S True)"

lemma constructed_sockets:
  "pollfds (new_Input S ip port gpsPort mc) =
     (if \<not> lidar_opens S port then None else if port = gpsPort then Some [us_socket S False]
      else if gps_opens S ip gpsPort mc then Some [us_socket S True, us_socket S False] else None)"
  by (auto simp: pollfds_def new_Input_def open_gps_def finish_input_def lidar_opens_def gps_opens_def Let_def)

lemma destructed_sockets:
  "delete_Input (new_Input S ip port gpsPort mc) =
     (if lidar_opens S port \<and> port \<noteq> gpsPort then Some (filter (\<lambda>fd. 0 < fd) [us_socket S True, us_socket S False]) else None)"
  by (auto simp: delete_Input_def new_Input_def open_gps_def finish_input_def lidar_opens_def Let_def)

lemma vanished_datagram:
  assumes "length (pp_data p) = ETHERNET_MTU" and "pp_size p = 4294967295"
    and "ts_accepted (fst (ts_observe (tsGuard d) (pp_stamp p)))"
  shows "process_packet e p d = None"
proof -
  have "raw_message p = None"
    using assms(1,2) by (simp add: raw_message_def ETHERNET_MTU_def Let_def split: Option.bind_splits)
  with assms(3) show ?thesis by (simp add: process_packet_def case_prod_unfold Let_def)
qed

text \<open>
  C25. What \<^verbatim>\<open>getPacket\<close> does with the object that the constructor made. The sockets it polls are
  the one for GPS and the one for the sensor, in this order, or the one they share; when a call of
  the constructor has failed, which it does not report, their number has no value and every call
  is undefined. After a poll without error, exactly one datagram is read, from the first of the
  sockets that has input, and returned unchanged (up to the 1500 bytes of the buffer) with the
  time of reception; a failed read returns -1; a datagram that is gone after the poll is
  returned as a packet of 4294967295 bytes, which the processing thread, when its time is
  accepted, reads outside the buffer; and a poll that reports no input and no error on the first
  socket leads to the use of a length without a value. The destructor closes the descriptors
  that were opened, except that it is undefined when the GPS socket was never tried: after a failure
  on the first socket, and whenever one port serves both.
\<close>

theorem getPacket_outcomes:
  assumes "length (pp_data old) = ETHERNET_MTU"
    and "i = new_Input S ip port gpsPort mc"
  shows "pollfds i =
      (if \<not> lidar_opens S port then None else if port = gpsPort then Some [us_socket S False]
       else if gps_opens S ip gpsPort mc then Some [us_socket S True, us_socket S False] else None) \<and>
    (pollfds i = None \<longrightarrow> getPacket poll rcv time old i = None) \<and>
    (\<forall>fds revs. pollfds i = Some fds \<and> length revs = length fds \<and> \<not> rv_err (revs ! 0) \<longrightarrow>
      (\<forall>j < length fds. rv_in (revs ! j) \<and> (\<forall>k < j. \<not> rv_in (revs ! k)) \<longrightarrow>
        getPacket (PollReady revs) rcv time old i =
          (case rcv (fds ! j) of
             RecvFailed \<Rightarrow> Some None
           | Datagram bs \<Rightarrow> Some (Some \<lparr>pp_stamp = time, pp_data = take 1500 bs @ drop (length bs) (pp_data old),
                                       pp_size = min 1500 (length bs)\<rparr>)
           | WouldBlock \<Rightarrow> Some (Some \<lparr>pp_stamp = time, pp_data = pp_data old, pp_size = 4294967295\<rparr>))) \<and>
      ((\<forall>r \<in> set revs. \<not> rv_in r) \<longrightarrow> getPacket (PollReady revs) rcv time old i = None)) \<and>
    (\<forall>e d. ts_accepted (fst (ts_observe (tsGuard d) time)) \<longrightarrow>
      process_packet e \<lparr>pp_stamp = time, pp_data = pp_data old, pp_size = 4294967295\<rparr> d = None) \<and>
    delete_Input i =
      (if lidar_opens S port \<and> port \<noteq> gpsPort then Some (filter (\<lambda>fd. 0 < fd) [us_socket S True, us_socket S False]) else None)"
proof -
  have big: "unat (- 1 :: u32) = 4294967295" by (simp add: unsigned_minus_1_eq_mask mask_eq_exp_minus_1)
  have cut: "drop (min (length bs) 1500) (pp_data old) = drop (length bs) (pp_data old)" for bs :: "byte list"
    using assms(1) by (auto simp: ETHERNET_MTU_def min_def)
  have "getPacket (PollReady revs) rcv time old i =
          (case rcv (fds ! j) of
             RecvFailed \<Rightarrow> Some None
           | Datagram bs \<Rightarrow> Some (Some \<lparr>pp_stamp = time, pp_data = take 1500 bs @ drop (length bs) (pp_data old),
                                       pp_size = min 1500 (length bs)\<rparr>)
           | WouldBlock \<Rightarrow> Some (Some \<lparr>pp_stamp = time, pp_data = pp_data old, pp_size = 4294967295\<rparr>))"
    if h: "pollfds i = Some fds" "length revs = length fds" "\<not> rv_err (revs ! 0)" "j < length fds" "rv_in (revs ! j)"
      "\<forall>k < j. \<not> rv_in (revs ! k)" for fds revs j
    using first_in_least [of j revs 0] h cut
    by (cases old) (auto simp: getPacket_def ETHERNET_MTU_def Let_def big split: recv_result.splits)
  moreover have "getPacket (PollReady revs) rcv time old i = None"
    if h: "pollfds i = Some fds" "length revs = length fds" "\<not> rv_err (revs ! 0)" "\<forall>r \<in> set revs. \<not> rv_in r" for fds revs
    using first_in_none [of revs 0] h by (simp add: getPacket_def)
  moreover have "process_packet e \<lparr>pp_stamp = time, pp_data = pp_data old, pp_size = 4294967295\<rparr> d = None"
    if "ts_accepted (fst (ts_observe (tsGuard d) time))" for e d
    using vanished_datagram that assms(1) by simp
  moreover have "pollfds i = None \<longrightarrow> getPacket poll rcv time old i = None" by (simp add: getPacket_def)
  ultimately show ?thesis
    using constructed_sockets [of S ip port gpsPort mc] destructed_sockets [of S ip port gpsPort mc]
    unfolding assms(2) by blast
qed

definition demo_sys :: udp_sys where
  "demo_sys = \<lparr>us_socket = (\<lambda>gps. if gps then 5 else 4), us_bind = (\<lambda>fd port. 0), us_nonblock = (\<lambda>fd. 0),
     us_group_valid = True, us_group_join = 0\<rparr>"

lemma demo_opens: "lidar_opens demo_sys port" "gps_opens demo_sys ip gpsPort mc"
  by (simp_all add: demo_sys_def lidar_opens_def gps_opens_def)

definition demo_buffer :: PandarPacket where
  "demo_buffer = \<lparr>pp_stamp = NaN, pp_data = replicate 1500 0, pp_size = 0\<rparr>"

text \<open>Two sockets, of which only the sensor's has input; and one socket for both.\<close>

theorem getPacket_outcomes_witness:
  "getPacket (PollReady [\<lparr>rv_in = False, rv_err = False\<rparr>, \<lparr>rv_in = True, rv_err = False\<rparr>])
      (\<lambda>fd. if fd = 4 then Datagram [1, 2, 3] else RecvFailed) (Fin False 1) demo_buffer
      (new_Input demo_sys ''192.168.1.201'' 2368 10110 []) =
     Some (Some \<lparr>pp_stamp = Fin False 1, pp_data = [1, 2, 3] @ replicate 1497 0, pp_size = 3\<rparr>) \<and>
   delete_Input (new_Input demo_sys ''192.168.1.201'' 2368 10110 []) = Some [5, 4] \<and>
   delete_Input (new_Input demo_sys ''192.168.1.201'' 2368 2368 []) = None"
proof -
  let ?revs = "[\<lparr>rv_in = False, rv_err = False\<rparr>, \<lparr>rv_in = True, rv_err = False\<rparr>]"
  let ?rcv = "\<lambda>fd. if fd = 4 then Datagram [1, 2, 3] else RecvFailed"
  have b: "length (pp_data demo_buffer) = ETHERNET_MTU" by (simp add: demo_buffer_def ETHERNET_MTU_def)
  note t = getPacket_outcomes [OF b refl, of demo_sys "''192.168.1.201''" 2368 _ "[]" "PollReady ?revs" ?rcv "Fin False 1"]
  have s: "us_socket demo_sys True = 5" "us_socket demo_sys False = 4" by (simp_all add: demo_sys_def)
  have "pollfds (new_Input demo_sys ''192.168.1.201'' 2368 10110 []) =
      (if \<not> lidar_opens demo_sys 2368 then None else if 2368 = (10110 :: u16) then Some [us_socket demo_sys False]
       else if gps_opens demo_sys ''192.168.1.201'' 10110 [] then Some [us_socket demo_sys True, us_socket demo_sys False] else None)"
    by (rule conjunct1 [OF t])
  then have p: "pollfds (new_Input demo_sys ''192.168.1.201'' 2368 10110 []) = Some [5, 4]"
    using demo_opens by (simp add: s)
  have j: "1 < length [5 :: int, 4] \<and> rv_in (?revs ! 1) \<and> (\<forall>k < 1. \<not> rv_in (?revs ! k))" "length ?revs = length [5 :: int, 4]"
    "\<not> rv_err (?revs ! 0)" by simp_all
  have g: "getPacket (PollReady ?revs) ?rcv (Fin False 1) demo_buffer (new_Input demo_sys ''192.168.1.201'' 2368 10110 []) =
      (case ?rcv ([5, 4] ! 1) of
         RecvFailed \<Rightarrow> Some None
       | Datagram bs \<Rightarrow> Some (Some \<lparr>pp_stamp = Fin False 1, pp_data = take 1500 bs @ drop (length bs) (pp_data demo_buffer),
                                   pp_size = min 1500 (length bs)\<rparr>)
       | WouldBlock \<Rightarrow> Some (Some \<lparr>pp_stamp = Fin False 1, pp_data = pp_data demo_buffer, pp_size = 4294967295\<rparr>))"
    using t [of 10110, THEN conjunct2, THEN conjunct2, THEN conjunct1, rule_format, of "[5, 4]" ?revs,
        OF conjI [OF p conjI [OF j(2,3)]], THEN conjunct1, rule_format, OF _ conjunct2 [OF j(1)]] by simp
  have d: "delete_Input (new_Input demo_sys ''192.168.1.201'' 2368 gps []) =
      (if lidar_opens demo_sys 2368 \<and> 2368 \<noteq> gps then Some (filter (\<lambda>fd. 0 < fd) [us_socket demo_sys True, us_socket demo_sys False])
       else None)" for gps
    by (rule t [THEN conjunct2, THEN conjunct2, THEN conjunct2, THEN conjunct2])
  show ?thesis using g d [of 10110] d [of 2368] demo_opens by (simp add: s) (simp add: demo_buffer_def)
qed

end
