(* ===== verification/Pcap_Reader.thy ===== *)
theory Pcap_Reader
  imports Driver_Props Posix_Io
begin

text \<open>
  The replay of a capture file (\<^verbatim>\<open>pcap_reader.cpp\<close>). The file is what \<^verbatim>\<open>libpcap\<close> delivers: a
  list of frames with the length on the wire and the captured bytes, after the filter for UDP.
  \<^verbatim>\<open>mktime\<close>, the two clocks and the member \<^verbatim>\<open>loop\<close> at each turn are arguments. A local variable
  that has not been given a value is \<^term>\<open>None\<close>, and reading it is undefined; the counter of the
  loop is one. Times are in microseconds and stay far below \<open>2 ^ 63\<close>. The output is left out.
\<close>

section \<open>The reader\<close>

definition m_timeIndexMap :: "string \<Rightarrow> (nat \<times> nat) option" where
  "m_timeIndexMap t = map_of
     [(''Pandar40P'', (1250, 1256)), (''Pandar40M'', (1250, 1256)), (''Pandar64'', (1182, 1188)),
      (''PandarQT'', (1056, 1062)), (''Pandar20A'', (1258, 1264)), (''Pandar20B'', (1258, 1264)),
      (''PandarXT-32'', (1071, 1065)), (''PandarXT-16'', (559, 553)), (''PandarXTM'', (811, 805))] t"

record PcapReader =
  pcapPath :: string
  m_iTsIndex :: nat
  m_iUTCIndex :: nat

definition new_PcapReader :: "string \<Rightarrow> string \<Rightarrow> PcapReader" where
  "new_PcapReader path frame_id =
     (case m_timeIndexMap frame_id of
        Some (ts, utc) \<Rightarrow> \<lparr>pcapPath = path, m_iTsIndex = ts, m_iUTCIndex = utc\<rparr>
      | None \<Rightarrow> \<lparr>pcapPath = path, m_iTsIndex = 0, m_iUTCIndex = 0\<rparr>)"

definition IPV4_PKT_HEADER_SIZE :: nat where "IPV4_PKT_HEADER_SIZE = 42"
definition IPV6_PKT_HEADER_SIZE :: nat where "IPV6_PKT_HEADER_SIZE = 62"
definition IPV4_TYPE :: u16 where "IPV4_TYPE = 0x0800"
definition IPV6_TYPE :: u16 where "IPV6_TYPE = 0x86dd"
definition MAC_PACKET_HEADER_LEN :: nat where "MAC_PACKET_HEADER_LEN = 12"

lemmas pcap_consts = IPV4_PKT_HEADER_SIZE_def IPV6_PKT_HEADER_SIZE_def IPV4_TYPE_def IPV6_TYPE_def
  MAC_PACKET_HEADER_LEN_def

record frame =
  fr_len :: u32
  fr_bytes :: "byte list"

text \<open>
  The UDP payload of a frame: the bytes from the pointer on (\<^term>\<open>None\<close> for the null pointer)
  and the size, computed in 32 bits and read as an \<^verbatim>\<open>int\<close>. The frame must have a type field.
\<close>

definition frame_payload :: "frame \<Rightarrow> (byte list option \<times> int) option" where
  "frame_payload f = do {
     ip_type \<leftarrow> rd_be16 (fr_bytes f) MAC_PACKET_HEADER_LEN;
     Some (if ip_type = IPV4_TYPE
           then (Some (drop IPV4_PKT_HEADER_SIZE (fr_bytes f)), sint (fr_len f - of_nat IPV4_PKT_HEADER_SIZE))
           else if ip_type = IPV6_TYPE
           then (Some (drop IPV6_PKT_HEADER_SIZE (fr_bytes f)), sint (fr_len f - of_nat IPV6_PKT_HEADER_SIZE))
           else (None, 0))
   }"

section \<open>The loop\<close>

definition gap :: int where "gap = 100"

text \<open>The local variables, the sleeps so far, and the queue behind the callback.\<close>

record pcap_state =
  count :: "int option"
  last_pkt_ts :: int
  last_time :: "int option"
  sleeps :: "int list"
  pcap_receiver :: receiver

definition pcap_locals :: "int option \<Rightarrow> receiver \<Rightarrow> pcap_state" where
  "pcap_locals n rc = \<lparr>count = n, last_pkt_ts = 0, last_time = None, sleeps = [], pcap_receiver = rc\<rparr>"

text \<open>\<^verbatim>\<open>callback(packet, pktSize, time)\<close>, which is \<^verbatim>\<open>FillPacket\<close>: a negative size is too large a copy.\<close>

definition call_back :: "byte list \<Rightarrow> byte list option \<Rightarrow> int \<Rightarrow> fp \<Rightarrow> receiver \<Rightarrow> receiver option" where
  "call_back old packet pktSize time r =
     (if pktSize < 0 then None else FillPacket old (case packet of None \<Rightarrow> [] | Some b \<Rightarrow> b) (nat pktSize) time r)"

text \<open>
  The time in a packet. Its year field is taken as \<^verbatim>\<open>tm_year\<close> as it is, and the microseconds are
  assembled as an \<^verbatim>\<open>int\<close>.
\<close>

definition packet_time :: "(tm \<Rightarrow> int \<times> tm) \<Rightarrow> PcapReader \<Rightarrow> byte list option \<Rightarrow> int option" where
  "packet_time mktime r packet = do {
     b \<leftarrow> packet;
     u \<leftarrow> rd_bytes b (m_iUTCIndex r) 6;
     usec \<leftarrow> rd_le32 b (m_iTsIndex r);
     Some (fst (mktime \<lparr>tm_year = uint (u ! 0), tm_mon = uint (u ! 1) - 1, tm_mday = uint (u ! 2),
                        tm_hour = uint (u ! 3), tm_min = uint (u ! 4), tm_sec = uint (u ! 5), tm_isdst = 0\<rparr>) * 1000000
           + sint usec)
   }"

text \<open>
  Every hundredth packet: how long to sleep, and the new reference times. The call of \<^verbatim>\<open>select\<close>
  that sleeps is its argument; a signal that interrupts it ends it early.
\<close>

definition pace :: "int \<Rightarrow> int \<Rightarrow> pcap_state \<Rightarrow> pcap_state option" where
  "pace pkt_ts current_time s =
     (if last_pkt_ts s = 0 then Some (s\<lparr>last_pkt_ts := pkt_ts, last_time := Some current_time\<rparr>)
      else do {
        last \<leftarrow> last_time s;
        let sleep_time = (pkt_ts - last_pkt_ts s) - (current_time - last);
        let s = (if 0 < sleep_time then s\<lparr>sleeps := sleeps s @ [sleep_time]\<rparr> else s);
        Some (s\<lparr>last_pkt_ts := pkt_ts, last_time := Some (current_time + sleep_time)\<rparr>)
      })"

text \<open>\<^verbatim>\<open>count++\<close>\<close>

definition increment :: "int option \<Rightarrow> int option" where
  "increment x = (case x of None \<Rightarrow> None | Some n \<Rightarrow> if n = 2147483647 then None else Some (n + 1))"

definition pcap_turn ::
  "(tm \<Rightarrow> int \<times> tm) \<Rightarrow> PcapReader \<Rightarrow> byte list \<Rightarrow> frame \<times> fp \<times> int \<Rightarrow> pcap_state \<Rightarrow> pcap_state option" where
  "pcap_turn mktime r old x s =
     (case x of (f, time, current_time) \<Rightarrow> do {
        (packet, pktSize) \<leftarrow> frame_payload f;
        rc \<leftarrow> call_back old packet pktSize time (pcap_receiver s);
        n \<leftarrow> increment (count s);
        let s = s\<lparr>pcap_receiver := rc, count := Some n\<rparr>;
        if gap \<le> n \<and> m_iUTCIndex r \<noteq> 0
        then do {
          pkt_ts \<leftarrow> packet_time mktime r packet;
          pace pkt_ts current_time (s\<lparr>count := Some 0\<rparr>)
        }
        else Some s
      })"

text \<open>
  \<^verbatim>\<open>parsePcap\<close>: \<open>opened\<close> is whether the file can be opened and the filter be set. A frame comes
  with the value of \<^verbatim>\<open>loop\<close> when it has been read.
\<close>

fun pcap_loop ::
  "(tm \<Rightarrow> int \<times> tm) \<Rightarrow> PcapReader \<Rightarrow> byte list \<Rightarrow> (bool \<times> frame \<times> fp \<times> int) list \<Rightarrow> pcap_state \<Rightarrow> pcap_state option" where
  "pcap_loop mktime r old [] s = Some s"
| "pcap_loop mktime r old ((lp, x) # xs) s =
     (if \<not> lp then Some s else Option.bind (pcap_turn mktime r old x s) (pcap_loop mktime r old xs))"

definition parsePcap ::
  "(tm \<Rightarrow> int \<times> tm) \<Rightarrow> bool \<Rightarrow> PcapReader \<Rightarrow> byte list \<Rightarrow> (bool \<times> frame \<times> fp \<times> int) list \<Rightarrow> receiver \<Rightarrow>
   pcap_state option" where
  "parsePcap mktime opened r old xs rc =
     (let s = pcap_locals None rc
      in if pcapPath r = [] then Some s else if \<not> opened then Some s else pcap_loop mktime r old xs s)"

section \<open>Properties\<close>

text \<open>
  A captured datagram: the header (42 bytes of Ethernet, IPv4 and UDP, or 62 with IPv6), the payload,
  and the two clocks when it is replayed.
\<close>

record capture =
  cp_header :: "byte list"
  cp_payload :: "byte list"
  cp_time :: fp
  cp_now :: int

definition header_ok :: "byte list \<Rightarrow> bool" where
  "header_ok h \<longleftrightarrow> length h = 42 \<and> h ! 12 = 0x08 \<and> h ! 13 = 0x00 \<or> length h = 62 \<and> h ! 12 = 0x86 \<and> h ! 13 = 0xdd"

definition capture_ok :: "PcapReader \<Rightarrow> capture \<Rightarrow> bool" where
  "capture_ok r c \<longleftrightarrow> header_ok (cp_header c) \<and>
     length (cp_payload c) < 2 ^ 31 - 62 \<and> length (cp_payload c) \<noteq> GPS_PACKET_SIZE \<and>
     m_iUTCIndex r + 6 \<le> length (cp_payload c) \<and> m_iTsIndex r + 4 \<le> length (cp_payload c)"

definition as_frame :: "capture \<Rightarrow> frame \<times> fp \<times> int" where
  "as_frame c = (\<lparr>fr_len = of_nat (length (cp_header c) + length (cp_payload c)), fr_bytes = cp_header c @ cp_payload c\<rparr>,
     cp_time c, cp_now c)"

definition as_packet :: "byte list \<Rightarrow> capture \<Rightarrow> PandarPacket" where
  "as_packet old c = \<lparr>pp_stamp = cp_time c, pp_data = cp_payload c @ drop (length (cp_payload c)) old,
     pp_size = length (cp_payload c)\<rparr>"

definition time_of :: "(tm \<Rightarrow> int \<times> tm) \<Rightarrow> PcapReader \<Rightarrow> capture \<Rightarrow> int" where
  "time_of mktime r c = the (packet_time mktime r (Some (cp_payload c)))"

text \<open>
  The replay schedule, independently of the loop. With \<open>n\<close> in the counter at the beginning, the
  packets at which the time is looked at are the one that brings it to 100 and every hundredth
  after it. The first of them sets the replay clock; each later one is held back until the replay
  clock shows its capture time.
\<close>

definition checkpoints :: "int \<Rightarrow> capture list \<Rightarrow> capture list" where
  "checkpoints n cs =
     map (\<lambda>j. cs ! j) (filter (\<lambda>j. nat (99 - n) \<le> j \<and> (j - nat (99 - n)) mod 100 = 0) [0..<length cs])"

definition held_back :: "(capture \<Rightarrow> int) \<Rightarrow> int \<Rightarrow> capture list \<Rightarrow> int list" where
  "held_back ts offset cs = filter (\<lambda>d. 0 < d) (map (\<lambda>c. ts c + offset - cp_now c) cs)"

definition schedule :: "(capture \<Rightarrow> int) \<Rightarrow> capture list \<Rightarrow> int list" where
  "schedule ts cs = (case cs of [] \<Rightarrow> [] | c # rest \<Rightarrow> held_back ts (cp_now c - ts c) rest)"

lemma hundredth: "Suc j mod 100 = 0 \<longleftrightarrow> 99 \<le> j \<and> (j - 99) mod 100 = 0"
  by presburger

lemma checkpoints_Cons:
  "checkpoints n (c # cs) = (if 99 \<le> n then c # checkpoints 0 cs else checkpoints (n + 1) cs)"
proof -
  have upt: "[0..<length (c # cs)] = 0 # map Suc [0..<length cs]" by (simp add: map_Suc_upt upt_conv_Cons del: upt_Suc)
  show ?thesis
  proof (cases "99 \<le> n")
    case True
    then show ?thesis unfolding checkpoints_def upt by (simp add: filter_map comp_def hundredth)
  next
    case False
    then have "nat (99 - n) = Suc (nat (99 - (n + 1)))" by simp
    then show ?thesis using False unfolding checkpoints_def upt by (simp add: filter_map comp_def)
  qed
qed

lemma checkpoints_Nil [simp]: "checkpoints n [] = []"
  by (simp add: checkpoints_def)

lemma capture_payload:
  assumes "capture_ok r c"
  shows "frame_payload (fst (as_frame c)) = Some (Some (cp_payload c), int (length (cp_payload c)))"
proof -
  let ?h = "length (cp_header c)"
  have l: "length (cp_payload c) < 2 ^ 31" "?h = 42 \<or> ?h = 62"
    using assms by (auto simp: capture_ok_def header_ok_def)
  have "sint (of_nat (?h + length (cp_payload c)) - of_nat ?h :: u32) = int (length (cp_payload c))"
    using l(1) by (simp add: sint_uint uint_nat unat_of_nat_small signed_take_bit_int_eq_self)
  then show ?thesis
    using assms
    by (auto simp: capture_ok_def header_ok_def as_frame_def frame_payload_def pcap_consts nth_append be16_def)
qed

text \<open>One turn, and the loop, on captured datagrams.\<close>

lemma pcap_turn_capture:
  assumes "capture_ok r c" and "length (cp_payload c) \<le> length old" and "count s = Some n" and "n < 2147483647"
  defines "s1 \<equiv> s\<lparr>pcap_receiver := PushLiDARData (as_packet old c) (pcap_receiver s)\<rparr>"
  shows "pcap_turn mktime r old (as_frame c) s =
    (if 99 \<le> n \<and> m_iUTCIndex r \<noteq> 0 then pace (time_of mktime r c) (cp_now c) (s1\<lparr>count := Some 0\<rparr>)
     else Some (s1\<lparr>count := Some (n + 1)\<rparr>))"
proof -
  let ?p = "cp_payload c"
  obtain f where f: "as_frame c = (f, cp_time c, cp_now c)" "frame_payload f = Some (Some ?p, int (length ?p))"
    using capture_payload [OF assms(1)] by (simp add: as_frame_def)
  have cb: "call_back old (Some ?p) (int (length ?p)) (cp_time c) (pcap_receiver s) =
      Some (PushLiDARData (as_packet old c) (pcap_receiver s))"
    using assms(1,2) by (simp add: call_back_def FillPacket_def as_packet_def capture_ok_def)
  have "packet_time mktime r (Some ?p) = Some (time_of mktime r c)"
    using assms(1) by (simp add: time_of_def packet_time_def capture_ok_def)
  then show ?thesis using f cb assms(3,4) by (simp add: pcap_turn_def increment_def gap_def s1_def Let_def)
qed

lemma pace_first:
  "last_pkt_ts s = 0 \<Longrightarrow> pace ts now s = Some (s\<lparr>last_pkt_ts := ts, last_time := Some now\<rparr>)"
  by (simp add: pace_def)

lemma pace_later:
  assumes "last_pkt_ts s \<noteq> 0" and "last_time s = Some l0"
  shows "\<exists>s'. pace ts now s = Some s' \<and> last_pkt_ts s' = ts \<and> last_time s' = Some (ts + (l0 - last_pkt_ts s)) \<and>
    sleeps s' = sleeps s @ filter (\<lambda>d. 0 < d) [ts + (l0 - last_pkt_ts s) - now] \<and>
    count s' = count s \<and> pcap_receiver s' = pcap_receiver s"
  using assms by (simp add: pace_def Let_def)

definition replays :: "byte list \<Rightarrow> capture list \<Rightarrow> receiver \<Rightarrow> receiver" where
  "replays old cs = fold (\<lambda>c. PushLiDARData (as_packet old c)) cs"

lemma pcap_loop_paced:
  assumes "\<forall>c \<in> set cs. capture_ok r c \<and> length (cp_payload c) \<le> length old \<and> time_of mktime r c \<noteq> 0"
    and "count s = Some n" and "n + int (length cs) \<le> 2147483647" and "m_iUTCIndex r \<noteq> 0"
    and "last_pkt_ts s \<noteq> 0" and "last_time s = Some l0"
  shows "\<exists>s'. pcap_loop mktime r old (map (\<lambda>c. (True, as_frame c)) cs) s = Some s' \<and>
    pcap_receiver s' = replays old cs (pcap_receiver s) \<and>
    sleeps s' = sleeps s @ held_back (time_of mktime r) (l0 - last_pkt_ts s) (checkpoints n cs)"
  using assms
proof (induction cs arbitrary: s n l0)
  case (Cons c cs)
  let ?s = "s\<lparr>pcap_receiver := PushLiDARData (as_packet old c) (pcap_receiver s)\<rparr>"
  have c: "capture_ok r c" "length (cp_payload c) \<le> length old" "time_of mktime r c \<noteq> 0" "n < 2147483647"
    using Cons.prems(1,3) by auto
  note turn = pcap_turn_capture [OF c(1,2) Cons.prems(2) c(4), of mktime]
  show ?case
  proof (cases "99 \<le> n")
    case True
    obtain s1 where s1: "pace (time_of mktime r c) (cp_now c) (?s\<lparr>count := Some 0\<rparr>) = Some s1"
      "last_pkt_ts s1 = time_of mktime r c" "last_time s1 = Some (time_of mktime r c + (l0 - last_pkt_ts s))"
      "sleeps s1 = sleeps s @ filter (\<lambda>d. 0 < d) [time_of mktime r c + (l0 - last_pkt_ts s) - cp_now c]"
      "count s1 = Some 0" "pcap_receiver s1 = pcap_receiver ?s"
      using pace_later [of "?s\<lparr>count := Some 0\<rparr>" l0 "time_of mktime r c" "cp_now c"] Cons.prems(5,6) by auto
    have len: "0 + int (length cs) \<le> 2147483647" using Cons.prems(3) True by simp
    have ts: "last_pkt_ts s1 \<noteq> 0" using s1(2) c(3) by simp
    have cs: "\<forall>c \<in> set cs. capture_ok r c \<and> length (cp_payload c) \<le> length old \<and> time_of mktime r c \<noteq> 0"
      using Cons.prems(1) by simp
    from Cons.IH [OF cs s1(5) len Cons.prems(4) ts s1(3)] show ?thesis
      using True turn s1 Cons.prems(4)
      by (cases "cp_now c < time_of mktime r c + (l0 - last_pkt_ts s)") (simp_all add: checkpoints_Cons held_back_def replays_def)
  next
    case False
    have cs: "\<forall>c \<in> set cs. capture_ok r c \<and> length (cp_payload c) \<le> length old \<and> time_of mktime r c \<noteq> 0"
      using Cons.prems(1) by simp
    have "n + 1 + int (length cs) \<le> 2147483647" using Cons.prems(3) by simp
    from Cons.IH [OF cs _ this Cons.prems(4), of "?s\<lparr>count := Some (n + 1)\<rparr>" l0] Cons.prems(5,6) show ?thesis
      using False turn by (simp add: checkpoints_Cons replays_def)
  qed
qed (simp add: held_back_def replays_def)

lemma pcap_loop_start:
  assumes "\<forall>c \<in> set cs. capture_ok r c \<and> length (cp_payload c) \<le> length old \<and> time_of mktime r c \<noteq> 0"
    and "count s = Some n" and "n + int (length cs) \<le> 2147483647" and "m_iUTCIndex r \<noteq> 0" and "last_pkt_ts s = 0"
  shows "\<exists>s'. pcap_loop mktime r old (map (\<lambda>c. (True, as_frame c)) cs) s = Some s' \<and>
    pcap_receiver s' = replays old cs (pcap_receiver s) \<and>
    sleeps s' = sleeps s @ schedule (time_of mktime r) (checkpoints n cs)"
  using assms
proof (induction cs arbitrary: s n)
  case (Cons c cs)
  let ?s = "s\<lparr>pcap_receiver := PushLiDARData (as_packet old c) (pcap_receiver s)\<rparr>"
  have c: "capture_ok r c" "length (cp_payload c) \<le> length old" "time_of mktime r c \<noteq> 0" "n < 2147483647"
    and cs: "\<forall>c \<in> set cs. capture_ok r c \<and> length (cp_payload c) \<le> length old \<and> time_of mktime r c \<noteq> 0"
    using Cons.prems(1,3) by auto
  note turn = pcap_turn_capture [OF c(1,2) Cons.prems(2) c(4), of mktime]
  show ?case
  proof (cases "99 \<le> n")
    case True
    let ?s1 = "?s\<lparr>count := Some 0, last_pkt_ts := time_of mktime r c, last_time := Some (cp_now c)\<rparr>"
    have "pcap_turn mktime r old (as_frame c) s = Some ?s1"
      using turn True Cons.prems(4,5) by (simp add: pace_first)
    moreover have "0 + int (length cs) \<le> 2147483647" using Cons.prems(3) True by simp
    from pcap_loop_paced [OF cs _ this Cons.prems(4), of ?s1 "cp_now c"] c(3)
    have "\<exists>s'. pcap_loop mktime r old (map (\<lambda>c. (True, as_frame c)) cs) ?s1 = Some s' \<and>
      pcap_receiver s' = replays old cs (pcap_receiver ?s1) \<and>
      sleeps s' = sleeps s @ held_back (time_of mktime r) (cp_now c - time_of mktime r c) (checkpoints 0 cs)" by simp
    ultimately show ?thesis using True by (simp add: checkpoints_Cons schedule_def replays_def)
  next
    case False
    have "n + 1 + int (length cs) \<le> 2147483647" using Cons.prems(3) by simp
    from Cons.IH [OF cs _ this Cons.prems(4), of "?s\<lparr>count := Some (n + 1)\<rparr>"] Cons.prems(5) show ?thesis
      using False turn by (simp add: checkpoints_Cons replays_def)
  qed
qed (simp add: schedule_def replays_def)


definition demo_capture :: "byte \<Rightarrow> int \<Rightarrow> capture" where
  "demo_capture sec now = \<lparr>cp_header = replicate 12 0 @ [0x08, 0x00] @ replicate 28 0,
     cp_payload = replicate 558 0 @ [sec] @ replicate 9 0, cp_time = Fin False 1, cp_now = now\<rparr>"

definition demo_captures :: "capture list" where
  "demo_captures = replicate 100 (demo_capture 1 10) @ [demo_capture 3 500010]"

definition demo_receiver :: receiver where
  "demo_receiver = \<lparr>packetsBuffer = spsc_new 2 (as_packet [] (demo_capture 0 0)), queueOverloadDrops = 0,
     enqueuedPackets = 0, maxQueueDepthObserved = 0, gpsTimes = []\<rparr>"

lemma checkpoints_counting:
  "n + int k = 99 \<Longrightarrow> checkpoints n (replicate k a @ b # cs) = b # checkpoints 0 cs"
  by (induction k arbitrary: n) (simp_all add: checkpoints_Cons)


end
