(* ===== verification/Pandar_General.thy ===== *)
theory Pandar_General
  imports Correction_Props Pipeline Udp_Input Pcap_Reader
begin

text \<open>
  The object behind the facade: the constructors, \<^verbatim>\<open>Start\<close>, \<^verbatim>\<open>Stop\<close> and the destructor of
  \<^verbatim>\<open>PandarGeneral_Internal\<close>, the time zone variable that its initialisation sets, and the class
  \<^verbatim>\<open>PandarGeneral\<close> (\<^verbatim>\<open>pandarGeneral.cc\<close>), which holds a pointer to it and forwards. A thread
  is the fact that it is there. The receiving, replaying and processing threads repeat turns that
  return (a poll has a timeout of a second, no turn waits for another thread) while their flag is
  set; joining a thread whose flag is still set waits for ever.
\<close>

section \<open>The driver's threads\<close>

record internal =
  in_driver :: driver
  in_receiver :: receiver
  in_input :: "Input option"
  pcap_reader :: "PcapReader option"
  got_lidar_correction_flag :: bool
  connect_lidar :: bool
  enable_lidar_recv_thr :: bool
  enable_lidar_process_thr :: bool
  lidar_recv_thr :: bool
  lidar_process_thr :: bool
  pcap_loop_flag :: bool
  parse_thr :: bool

text \<open>The two constructors: with the sockets of a sensor, or with the reader of a capture.\<close>

definition new_internal :: "driver \<Rightarrow> receiver \<Rightarrow> Input option \<Rightarrow> PcapReader option \<Rightarrow> internal" where
  "new_internal d r inp reader = \<lparr>in_driver = d, in_receiver = r, in_input = inp, pcap_reader = reader,
     got_lidar_correction_flag = False, connect_lidar = (inp \<noteq> None),
     enable_lidar_recv_thr = False, enable_lidar_process_thr = False, lidar_recv_thr = False,
     lidar_process_thr = False, pcap_loop_flag = False, parse_thr = False\<rparr>"

definition join_thread :: "bool \<Rightarrow> bool \<Rightarrow> unit run" where
  "join_thread there flag = (if there \<and> flag then Blocked else Done ())"

text \<open>\<^verbatim>\<open>PcapReader::stop\<close> and \<^verbatim>\<open>start\<close>\<close>

definition pcap_stop :: "internal \<Rightarrow> internal run" where
  "pcap_stop s =
     (let s = s\<lparr>pcap_loop_flag := False\<rparr>
      in run_bind (join_thread (parse_thr s) (pcap_loop_flag s)) (\<lambda>_. Done (s\<lparr>parse_thr := False\<rparr>)))"

definition pcap_start :: "internal \<Rightarrow> internal run" where
  "pcap_start s = run_bind (pcap_stop s) (\<lambda>s. Done (s\<lparr>pcap_loop_flag := True, parse_thr := True\<rparr>))"

definition internal_Stop :: "internal \<Rightarrow> internal run" where
  "internal_Stop s =
     (let s = s\<lparr>enable_lidar_recv_thr := False, enable_lidar_process_thr := False\<rparr>
      in run_bind (if pcap_reader s = None then Done s else pcap_stop s) (\<lambda>s.
         run_bind (join_thread (lidar_recv_thr s) (enable_lidar_recv_thr s)) (\<lambda>_.
         let s = s\<lparr>lidar_recv_thr := False\<rparr>
         in run_bind (join_thread (lidar_process_thr s) (enable_lidar_process_thr s)) (\<lambda>_.
         let s = s\<lparr>lidar_process_thr := False\<rparr>; (d, r) = Stop_state (in_driver s) (in_receiver s)
         in Done (s\<lparr>in_driver := d, in_receiver := r\<rparr>)))))"

definition internal_Start :: "internal \<Rightarrow> internal run" where
  "internal_Start s =
     run_bind (internal_Stop s) (\<lambda>s.
       let (d, r) = Start_state (in_driver s) (in_receiver s);
           s = s\<lparr>in_driver := d, in_receiver := r, enable_lidar_recv_thr := True,
                 enable_lidar_process_thr := True, lidar_process_thr := True\<rparr>
       in if connect_lidar s then Done (s\<lparr>lidar_recv_thr := True\<rparr>) else pcap_start s)"

text \<open>The flags are cleared before the joins, so stopping and starting return.\<close>

definition reader_stopped :: "internal \<Rightarrow> internal" where
  "reader_stopped s = s\<lparr>pcap_loop_flag := False, parse_thr := False\<rparr>"

definition stopped :: "internal \<Rightarrow> internal" where
  "stopped s =
     (let s = (if pcap_reader s = None then s else reader_stopped s);
          (d, r) = Stop_state (in_driver s) (in_receiver s)
      in s\<lparr>enable_lidar_recv_thr := False, enable_lidar_process_thr := False, lidar_recv_thr := False,
           lidar_process_thr := False, in_driver := d, in_receiver := r\<rparr>)"

definition running :: "internal \<Rightarrow> internal" where
  "running s =
     (let s = stopped s;
          (d, r) = Start_state (in_driver s) (in_receiver s);
          s = s\<lparr>in_driver := d, in_receiver := r, enable_lidar_recv_thr := True,
                enable_lidar_process_thr := True, lidar_process_thr := True\<rparr>
      in if connect_lidar s then s\<lparr>lidar_recv_thr := True\<rparr>
         else (reader_stopped s)\<lparr>pcap_loop_flag := True, parse_thr := True\<rparr>)"

lemma pcap_stop_returns [simp]: "pcap_stop s = Done (reader_stopped s)"
  by (simp add: pcap_stop_def join_thread_def reader_stopped_def Let_def)

lemma internal_Stop_returns [simp]: "internal_Stop s = Done (stopped s)"
  by (simp add: internal_Stop_def stopped_def reader_stopped_def join_thread_def Let_def case_prod_unfold)

lemma internal_Start_returns [simp]: "internal_Start s = Done (running s)"
  by (simp add: internal_Start_def running_def pcap_start_def Let_def case_prod_unfold)

text \<open>The numbers that the destructor reports.\<close>

definition packet_diagnostics :: "internal \<Rightarrow> u64 list" where
  "packet_diagnostics s =
     (let d = in_driver s; r = in_receiver s
      in [queueOverloadDrops r, sequenceGapPackets d, sequenceDuplicates d, sequenceBackwards d, sequenceRestarts d,
          timestampRegressions d, emptyCloudDrops d, enqueuedPackets r, processedPackets d,
          of_nat (maxQueueDepthObserved r)])"

text \<open>
  \<^verbatim>\<open>~PandarGeneral_Internal\<close>: the report, the descriptors that the destructor of the input closes,
  and the stopped object. The destructor of the reader stops it again.
\<close>

definition delete_internal :: "internal \<Rightarrow> (u64 list \<times> int list \<times> internal) run" where
  "delete_internal s =
     run_bind (internal_Stop s) (\<lambda>s.
       let report = packet_diagnostics s
       in run_bind (if pcap_reader s = None then Done s
                    else run_bind (pcap_stop s) (\<lambda>s. Done (s\<lparr>pcap_reader := None\<rparr>))) (\<lambda>s.
          case in_input s of
            None \<Rightarrow> Done (report, [], s)
          | Some inp \<Rightarrow> (case delete_Input inp of None \<Rightarrow> Undef | Some fds \<Rightarrow> Done (report, fds, s))))"

section \<open>The other operations\<close>

definition internal_LoadCorrectionFile ::
  "(fp \<Rightarrow> fp) \<Rightarrow> (fp \<Rightarrow> fp) \<Rightarrow> string \<Rightarrow> internal \<Rightarrow> (int \<times> internal) option" where
  "internal_LoadCorrectionFile sinf cosf content s =
     map_option (\<lambda>(ret, tb). (ret, s\<lparr>in_driver := (in_driver s)\<lparr>d_tbl := tb\<rparr>\<rparr>))
       (LoadCorrectionFile sinf cosf content (d_tbl (in_driver s)))"

definition internal_ResetStartAngle :: "u16 \<Rightarrow> internal \<Rightarrow> internal" where
  "internal_ResetStartAngle a s = s\<lparr>in_driver := ResetStartAngle a (in_driver s)\<rparr>"

definition internal_PushScanPacket ::
  "(fp \<Rightarrow> fp) \<Rightarrow> (fp \<Rightarrow> fp) \<Rightarrow> byte list option \<Rightarrow> byte list \<Rightarrow> packet_msg list \<Rightarrow> internal \<Rightarrow> internal option" where
  "internal_PushScanPacket sinf cosf correction old ms s =
     map_option (\<lambda>r. s\<lparr>in_driver := (in_driver s)\<lparr>d_tbl := rp_tables r\<rparr>, got_lidar_correction_flag := rp_flag r,
                       in_receiver := rp_receiver r\<rparr>)
       (PushScanPacket sinf cosf correction old ms
         \<lparr>rp_tables = d_tbl (in_driver s), rp_flag = got_lidar_correction_flag s, rp_receiver = in_receiver s\<rparr>)"

definition internal_GetCorrectionFileFlag :: "internal \<Rightarrow> bool" where
  "internal_GetCorrectionFileFlag s = got_lidar_correction_flag s"

definition internal_SetCorrectionFileFlag :: "bool \<Rightarrow> internal \<Rightarrow> internal" where
  "internal_SetCorrectionFileFlag flag s = s\<lparr>got_lidar_correction_flag := flag\<rparr>"

section \<open>The time zone\<close>

text \<open>
  \<^verbatim>\<open>SetEnvironmentVariableTZ\<close>, called by the constructors: \<open>tz\<close> is what \<^verbatim>\<open>getenv\<close> finds,
  \<open>block\<close> the memory that \<^verbatim>\<open>malloc\<close> returns with what it held before, \<open>ok\<close> whether
  \<^verbatim>\<open>putenv\<close> succeeds. The result is the block installed in the environment. The computed times
  are not used. The final \<^verbatim>\<open>printf\<close> reads the block as a string.
\<close>

definition SetEnvironmentVariableTZ :: "string option \<Rightarrow> byte list option \<Rightarrow> bool \<Rightarrow> byte list option run" where
  "SetEnvironmentVariableTZ tz block ok =
     (case tz of
        Some v \<Rightarrow> Done None
      | None \<Rightarrow>
          (let data = ''TZ=UTC'' @ show_nat 0; len = length data
           in case block of
                None \<Rightarrow> Undef
              | Some old \<Rightarrow>
                  if length old \<noteq> len + 1 then Undef
                  else
                    (let TZ = map of_char data @ drop len old
                     in if ok then (if string_of_buffer TZ = None then Undef else Done (Some TZ)) else Done None)))"

text \<open>The terminator is not copied: the string is only one if the memory happened to hold a zero.\<close>

lemma tz_unterminated:
  assumes "length old = 8"
  shows "SetEnvironmentVariableTZ None (Some old) True =
    (if last old = 0 then Done (Some (map of_char ''TZ=UTC0'' @ [0])) else Undef)"
proof -
  have "old \<noteq> []" using assms by auto
  then have b: "drop 7 old = [old ! 7]" "last old = old ! 7"
    using assms Cons_nth_drop_Suc [of 7 old] by (simp_all add: last_conv_nth)
  have t: "''TZ=UTC'' @ show_nat 0 = ''TZ=UTC0''" by (simp add: show_nat.simps [of 0] char_of_def bit_0)
  have len: "length ''TZ=UTC0'' = 7" by simp
  show ?thesis
    unfolding SetEnvironmentVariableTZ_def t Let_def len using assms b by (simp add: string_of_buffer_def)
qed

section \<open>The class PandarGeneral\<close>

record PandarGeneral =
  internal_ptr :: "internal option"

definition new_live_PandarGeneral ::
  "udp_sys \<Rightarrow> driver \<Rightarrow> receiver \<Rightarrow> string \<Rightarrow> u16 \<Rightarrow> u16 \<Rightarrow> string \<Rightarrow> PandarGeneral" where
  "new_live_PandarGeneral S d r device_ip lidar_port gps_port multicast =
     \<lparr>internal_ptr = Some (new_internal d r (Some (new_Input S device_ip lidar_port gps_port multicast)) None)\<rparr>"

definition new_file_PandarGeneral :: "driver \<Rightarrow> receiver \<Rightarrow> string \<Rightarrow> string \<Rightarrow> PandarGeneral" where
  "new_file_PandarGeneral d r pcap_path lidar_kind =
     \<lparr>internal_ptr = Some (new_internal d r None (Some (new_PcapReader pcap_path lidar_kind)))\<rparr>"

text \<open>A call through the pointer, and the same with the test that some methods make.\<close>

definition via :: "(internal \<Rightarrow> internal run) \<Rightarrow> PandarGeneral \<Rightarrow> PandarGeneral run" where
  "via f g =
     (case internal_ptr g of
        None \<Rightarrow> Undef
      | Some i \<Rightarrow> run_bind (f i) (\<lambda>i. Done (g\<lparr>internal_ptr := Some i\<rparr>)))"

definition PandarGeneral_Start :: "PandarGeneral \<Rightarrow> PandarGeneral run" where
  "PandarGeneral_Start g = via internal_Start g"

definition PandarGeneral_Stop :: "PandarGeneral \<Rightarrow> PandarGeneral run" where
  "PandarGeneral_Stop g = via internal_Stop g"

definition PandarGeneral_ResetStartAngle :: "u16 \<Rightarrow> PandarGeneral \<Rightarrow> PandarGeneral run" where
  "PandarGeneral_ResetStartAngle a g = via (\<lambda>i. Done (internal_ResetStartAngle a i)) g"

definition PandarGeneral_LoadCorrectionFile ::
  "(fp \<Rightarrow> fp) \<Rightarrow> (fp \<Rightarrow> fp) \<Rightarrow> string \<Rightarrow> PandarGeneral \<Rightarrow> (int \<times> PandarGeneral) run" where
  "PandarGeneral_LoadCorrectionFile sinf cosf content g =
     (case internal_ptr g of
        None \<Rightarrow> Undef
      | Some i \<Rightarrow>
          (case internal_LoadCorrectionFile sinf cosf content i of
             None \<Rightarrow> Undef
           | Some (ret, i) \<Rightarrow> Done (ret, g\<lparr>internal_ptr := Some i\<rparr>)))"

definition PandarGeneral_PushScanPacket ::
  "(fp \<Rightarrow> fp) \<Rightarrow> (fp \<Rightarrow> fp) \<Rightarrow> byte list option \<Rightarrow> byte list \<Rightarrow> packet_msg list \<Rightarrow> PandarGeneral \<Rightarrow> PandarGeneral run" where
  "PandarGeneral_PushScanPacket sinf cosf correction old ms g =
     (case internal_ptr g of
        None \<Rightarrow> Done g
      | Some i \<Rightarrow>
          (case internal_PushScanPacket sinf cosf correction old ms i of
             None \<Rightarrow> Undef
           | Some i \<Rightarrow> Done (g\<lparr>internal_ptr := Some i\<rparr>)))"

text \<open>Without an object this function reaches its end and has no value.\<close>

definition PandarGeneral_GetCorrectionFileFlag :: "PandarGeneral \<Rightarrow> bool run" where
  "PandarGeneral_GetCorrectionFileFlag g =
     (case internal_ptr g of None \<Rightarrow> Undef | Some i \<Rightarrow> Done (internal_GetCorrectionFileFlag i))"

definition PandarGeneral_SetCorrectionFileFlag :: "bool \<Rightarrow> PandarGeneral \<Rightarrow> PandarGeneral" where
  "PandarGeneral_SetCorrectionFileFlag flag g =
     (case internal_ptr g of None \<Rightarrow> g | Some i \<Rightarrow> g\<lparr>internal_ptr := Some (internal_SetCorrectionFileFlag flag i)\<rparr>)"

definition delete_PandarGeneral :: "PandarGeneral \<Rightarrow> (u64 list \<times> int list) run" where
  "delete_PandarGeneral g =
     (case internal_ptr g of
        None \<Rightarrow> Done ([], [])
      | Some i \<Rightarrow> run_bind (delete_internal i) (\<lambda>(report, fds, i). Done (report, fds)))"

text \<open>
  A constructed object has its pointer and keeps it, so every method is the method of the inner
  object, and the missing return is never reached.
\<close>

lemma PandarGeneral_constructed:
  "\<exists>i. internal_ptr (new_live_PandarGeneral S d r ip port gps mc) = Some i"
  "\<exists>i. internal_ptr (new_file_PandarGeneral d r path kind) = Some i"
  by (simp_all add: new_live_PandarGeneral_def new_file_PandarGeneral_def)

lemma PandarGeneral_forwards:
  assumes "internal_ptr g = Some i"
  shows "PandarGeneral_Start g = Done \<lparr>internal_ptr = Some (running i)\<rparr>"
    "PandarGeneral_Stop g = Done \<lparr>internal_ptr = Some (stopped i)\<rparr>"
    "PandarGeneral_ResetStartAngle a g = Done \<lparr>internal_ptr = Some (internal_ResetStartAngle a i)\<rparr>"
    "PandarGeneral_SetCorrectionFileFlag b g = \<lparr>internal_ptr = Some (internal_SetCorrectionFileFlag b i)\<rparr>"
    "PandarGeneral_GetCorrectionFileFlag g = Done (internal_GetCorrectionFileFlag i)"
  using assms
  by (cases g; simp add: PandarGeneral_Start_def PandarGeneral_Stop_def PandarGeneral_ResetStartAngle_def
      PandarGeneral_SetCorrectionFileFlag_def PandarGeneral_GetCorrectionFileFlag_def via_def)+

end
