(* ===== verification/Sdk.thy ===== *)
theory Sdk
  imports Tcp_Props Pandar_General
begin

text \<open>
  The facade of the driver, \<^verbatim>\<open>PandarGeneralSDK\<close> (\<^verbatim>\<open>pandarGeneral_sdk.cc\<close>). It calls the driver
  object through the class \<^verbatim>\<open>PandarGeneral\<close>, whose pointer is set from the constructor on (theory
  \<open>Pandar_General\<close>), so the field \<open>pandarGeneral\<close> is the inner object. The calibration thread is the
  outcome of its function, which joining waits for. Printing is left out.
\<close>

section \<open>The facade\<close>

text \<open>
  What the command client and the calibration thread need of the system: the network, the heap, the size of
  the client's structure, the file, \<^verbatim>\<open>sinf\<close> and \<^verbatim>\<open>cosf\<close>.
\<close>

record sdk_env =
  sv_net :: net
  sv_malloc :: allocator
  sv_client_size :: nat
  sv_stack :: "byte list"
  sv_files :: "string \<Rightarrow> byte list option"
  sv_sinf :: "fp \<Rightarrow> fp"
  sv_cosf :: "fp \<Rightarrow> fp"

record calibration =
  cal_tables :: tables
  cal_flag :: bool
  cal_content :: string
  cal_os :: tcp_os

record sdk =
  pandarGeneral :: internal
  tcp_command_client :: "TcpCommandClient option"
  get_calibration_thr :: "calibration run option"
  enable_get_calibration_thr :: bool
  correction_content :: string
  correction_file_path :: string
  sdk_os :: tcp_os

definition PANDARGENERALSDK_TCP_COMMAND_PORT :: u16 where "PANDARGENERALSDK_TCP_COMMAND_PORT = 9347"

definition new_live_sdk ::
  "sdk_env \<Rightarrow> udp_sys \<Rightarrow> driver \<Rightarrow> receiver \<Rightarrow> string \<Rightarrow> u16 \<Rightarrow> u16 \<Rightarrow> string \<Rightarrow> string \<Rightarrow> tcp_os \<Rightarrow> sdk run" where
  "new_live_sdk V S d r device_ip lidar_port gps_port multicast lidar_correction_file os =
     run_bind (TcpCommandClientNew (sv_malloc V) (sv_client_size V) (Some device_ip) PANDARGENERALSDK_TCP_COMMAND_PORT os)
       (\<lambda>(client, os).
          Done \<lparr>pandarGeneral = new_internal d r (Some (new_Input S device_ip lidar_port gps_port multicast)) None,
                tcp_command_client = client, get_calibration_thr = None,
                enable_get_calibration_thr = False, correction_content = [],
                correction_file_path = lidar_correction_file, sdk_os = os\<rparr>)"

definition new_file_sdk :: "driver \<Rightarrow> receiver \<Rightarrow> string \<Rightarrow> string \<Rightarrow> string \<Rightarrow> tcp_os \<Rightarrow> sdk" where
  "new_file_sdk d r pcap_path lidar_kind lidar_correction_file os =
     \<lparr>pandarGeneral = new_internal d r None (Some (new_PcapReader pcap_path lidar_kind)), tcp_command_client = None,
      get_calibration_thr = None, enable_get_calibration_thr = False, correction_content = [],
      correction_file_path = lidar_correction_file, sdk_os = os\<rparr>"

text \<open>
  \<^verbatim>\<open>GetCalibrationFromDevice\<close>. A reply with a return code other than 0 is neither loaded nor
  freed. The file is read into a buffer without a terminator.
\<close>

definition load_reply :: "sdk_env \<Rightarrow> nat \<Rightarrow> ptr \<Rightarrow> calibration \<Rightarrow> calibration run" where
  "load_reply V ret buffer c =
     (case buffer of
        None \<Rightarrow> Done c
      | Some a \<Rightarrow>
          if ret \<noteq> 0 then Done c
          else
            (case Option.bind (os_heap (cal_os c) a) string_of_buffer of
               None \<Rightarrow> Undef
             | Some s \<Rightarrow>
                 (case LoadCorrectionFile (sv_sinf V) (sv_cosf V) s (cal_tables c) of
                    None \<Rightarrow> Undef
                  | Some (r, tb) \<Rightarrow>
                      run_bind (free_ptr buffer (cal_os c)) (\<lambda>os.
                        Done (c\<lparr>cal_tables := tb, cal_flag := (cal_flag c \<or> r = 0), cal_content := s, cal_os := os\<rparr>)))))"

definition load_from_file :: "sdk_env \<Rightarrow> string \<Rightarrow> calibration \<Rightarrow> calibration run" where
  "load_from_file V path c =
     (if cal_flag c then Done c
      else
        (case sv_files V path of
           None \<Rightarrow> Done c
         | Some contents \<Rightarrow>
             (case load_file (sv_sinf V) (sv_cosf V) contents (cal_tables c) of
                None \<Rightarrow> Undef
              | Some (r, tb) \<Rightarrow> Done (c\<lparr>cal_tables := tb, cal_flag := (r = 0)\<rparr>))))"

definition GetCalibrationFromDevice :: "sdk_env \<Rightarrow> TcpCommandClient option \<Rightarrow> string \<Rightarrow> calibration \<Rightarrow> calibration run" where
  "GetCalibrationFromDevice V client path c =
     (if client = None then Done c
      else
        run_bind (TcpCommandGetLidarCalibration (sv_net V) (sv_malloc V) (sv_stack V) client True True (cal_os c))
          (\<lambda>(ret, out, os).
             run_bind (load_reply V ret (case out of None \<Rightarrow> None | Some (p, n) \<Rightarrow> p) (c\<lparr>cal_os := os\<rparr>))
               (load_from_file V path)))"

definition calibration_of :: "sdk \<Rightarrow> calibration" where
  "calibration_of s =
     \<lparr>cal_tables = d_tbl (in_driver (pandarGeneral s)),
      cal_flag = got_lidar_correction_flag (pandarGeneral s), cal_content = correction_content s, cal_os = sdk_os s\<rparr>"

definition with_calibration :: "calibration \<Rightarrow> sdk \<Rightarrow> sdk" where
  "with_calibration c s =
     s\<lparr>pandarGeneral := (pandarGeneral s)
         \<lparr>in_driver := (in_driver (pandarGeneral s))\<lparr>d_tbl := cal_tables c\<rparr>, got_lidar_correction_flag := cal_flag c\<rparr>,
       correction_content := cal_content c, sdk_os := cal_os c\<rparr>"

text \<open>The thread object is kept after it has been joined.\<close>

definition sdk_Stop :: "sdk \<Rightarrow> sdk run" where
  "sdk_Stop s =
     run_bind (internal_Stop (pandarGeneral s)) (\<lambda>i.
       let s = s\<lparr>pandarGeneral := i, enable_get_calibration_thr := False\<rparr>
       in case get_calibration_thr s of
            None \<Rightarrow> Done s
          | Some t \<Rightarrow> run_bind t (\<lambda>c. Done ((with_calibration c s)\<lparr>get_calibration_thr := Some (Done c)\<rparr>)))"

definition sdk_Start :: "sdk_env \<Rightarrow> sdk \<Rightarrow> sdk run" where
  "sdk_Start V s =
     run_bind (sdk_Stop s) (\<lambda>s.
     run_bind (internal_Start (pandarGeneral s)) (\<lambda>i.
       let s = s\<lparr>pandarGeneral := i, enable_get_calibration_thr := True\<rparr>
       in Done (s\<lparr>get_calibration_thr :=
                   Some (GetCalibrationFromDevice V (tcp_command_client s) (correction_file_path s) (calibration_of s))\<rparr>)))"

text \<open>
  The destructor, which ends in that of the driver object; the result has the closed descriptors.
  The command client and the thread object are not freed.
\<close>

definition delete_sdk :: "sdk \<Rightarrow> (int list \<times> sdk) run" where
  "delete_sdk s =
     run_bind (sdk_Stop s) (\<lambda>s.
       run_bind (delete_internal (pandarGeneral s)) (\<lambda>(report, fds, i). Done (fds, s\<lparr>pandarGeneral := i\<rparr>)))"

definition LoadLidarCorrectionFile :: "(fp \<Rightarrow> fp) \<Rightarrow> (fp \<Rightarrow> fp) \<Rightarrow> string \<Rightarrow> sdk \<Rightarrow> (int \<times> sdk) option" where
  "LoadLidarCorrectionFile sinf cosf content s =
     map_option (\<lambda>(ret, i). (ret, s\<lparr>pandarGeneral := i\<rparr>)) (internal_LoadCorrectionFile sinf cosf content (pandarGeneral s))"

definition ResetLidarStartAngle :: "u16 \<Rightarrow> sdk \<Rightarrow> sdk" where
  "ResetLidarStartAngle a s = s\<lparr>pandarGeneral := internal_ResetStartAngle a (pandarGeneral s)\<rparr>"

definition GetLidarCalibration :: "sdk \<Rightarrow> string" where
  "GetLidarCalibration s = correction_content s"

definition sdk_PushScanPacket ::
  "(fp \<Rightarrow> fp) \<Rightarrow> (fp \<Rightarrow> fp) \<Rightarrow> byte list option \<Rightarrow> byte list \<Rightarrow> packet_msg list \<Rightarrow> sdk \<Rightarrow> sdk option" where
  "sdk_PushScanPacket sinf cosf correction old ms s =
     map_option (\<lambda>i. s\<lparr>pandarGeneral := i\<rparr>) (internal_PushScanPacket sinf cosf correction old ms (pandarGeneral s))"

section \<open>The calibration thread\<close>

lemma with_calibration_simps [simp]:
  "in_driver (pandarGeneral (with_calibration c s)) = (in_driver (pandarGeneral s))\<lparr>d_tbl := cal_tables c\<rparr>"
  "got_lidar_correction_flag (pandarGeneral (with_calibration c s)) = cal_flag c"
  "correction_content (with_calibration c s) = cal_content c" "sdk_os (with_calibration c s) = cal_os c"
  "tcp_command_client (with_calibration c s) = tcp_command_client s"
  by (simp_all add: with_calibration_def)

text \<open>A device that answers with a calibration text, and one that cannot be reached.\<close>

lemma calibration_from_reply:
  assumes "setting cl (sv_net V) (sv_malloc V) (cal_os c)" "connected (sv_net V) cl (cal_os c)"
    and "replies f (map of_char (file_text e as)) (cal_os c)" "\<And>n. sv_malloc V n \<noteq> None" "h_ret_code f = 0"
    and prints: "\<And>x. prints_ok e x" and "length as \<le> HS_LIDAR_L64_UNIT_NUM"
  shows "\<exists>tb os'. LoadCorrectionFile (sv_sinf V) (sv_cosf V) (file_text e as) (cal_tables c) = Some (0, tb) \<and>
    GetCalibrationFromDevice V (Some cl) path c =
      Done \<lparr>cal_tables = tb, cal_flag = True, cal_content = file_text e as, cal_os = os'\<rparr> \<and>
    os_heap os' = os_heap (cal_os c) \<and> same_fds (cal_os c) os'"
proof -
  let ?pl = "map of_char (file_text e as) :: byte list"
  obtain a s os' where get: "TcpCommandGetLidarCalibration (sv_net V) (sv_malloc V) (sv_stack V) (Some cl) True True (cal_os c) =
      Done (0, Some (Some a, of_nat (Suc (length ?pl))), s)" and s: "os_heap s a = Some (?pl @ [0])"
    "free_ptr (Some a) s = Done os'" "os_heap os' = os_heap (cal_os c)" "same_fds (cal_os c) os'"
    using lidar.answered_freed [OF assms(1,2,3,4), of "sv_stack V"] assms(5) by auto
  have "\<forall>b \<in> set ?pl. b \<noteq> 0" using file_text_no_zero [OF prints, of as] by metis
  then have "takeWhile (\<lambda>b. b \<noteq> 0) (?pl @ [0]) = ?pl" by (subst takeWhile_append2) auto
  then have str: "string_of_buffer (?pl @ [0]) = Some (file_text e as)" by (simp add: string_of_buffer_def)
  obtain tb where tb: "LoadCorrectionFile (sv_sinf V) (sv_cosf V) (file_text e as) (cal_tables c) = Some (0, tb)"
    using load_file_text [OF prints assms(7)] by blast
  show ?thesis
    using get str tb s
    by (cases c) (simp add: GetCalibrationFromDevice_def load_reply_def load_from_file_def same_fds_def)
qed

lemma calibration_from_file:
  assumes "\<not> cal_flag c" and os: "\<not> os_locked (cal_os c)" and "client_ok cl"
    and refused: "\<And>v6 ip port. net_connect (sv_net V) v6 ip port = -1"
    and "sv_files V path = Some contents" "0 \<notin> set contents"
  shows "GetCalibrationFromDevice V (Some cl) path c = Undef"
  using lidar.refused [OF assms(3) os refused, of "sv_malloc V" "sv_stack V"] assms
  by (auto simp: GetCalibrationFromDevice_def load_reply_def load_from_file_def load_file_def string_of_buffer_def ptc_codes)

end
