(* ===== verification/Latest_Value_Mailbox.thy ===== *)
theory Latest_Value_Mailbox
  imports Prelude "HOL-Library.Sublist"
begin

text \<open>
  The single-slot handoff of \<^verbatim>\<open>latest_value_mailbox.h\<close> between the packet thread, which
  must never wait, and the publishing thread. The critical sections under \<^verbatim>\<open>mutex_\<close> are
  functions on the mailbox; the condition variable is the state of the one waiting thread
  (\<open>waiter\<close>): blocked, notified but not yet running, or outside \<^verbatim>\<open>wait_pop\<close>. Spurious
  wake-ups are steps like any other. The locale \<open>handoff\<close> is the contract the ROS node uses.
\<close>

section \<open>The class\<close>

datatype LatestValuePushResult = KStored | KReplaced | KStopped

record 'a mailbox =
  pending :: "'a option"
  mb_stopped :: bool

definition mb_new :: "'a mailbox" where
  "mb_new = \<lparr>pending = None, mb_stopped = False\<rparr>"

definition mb_push :: "'a \<Rightarrow> 'a mailbox \<Rightarrow> LatestValuePushResult \<times> 'a mailbox" where
  "mb_push v m =
     (if mb_stopped m then (KStopped, m)
      else (let replaced = (pending m \<noteq> None) in
            (if replaced then KReplaced else KStored, m\<lparr>pending := Some v\<rparr>)))"

text \<open>The predicate of \<^verbatim>\<open>condition_.wait\<close>, and what follows once it holds.\<close>

definition mb_ready :: "'a mailbox \<Rightarrow> bool" where
  "mb_ready m \<longleftrightarrow> mb_stopped m \<or> pending m \<noteq> None"

definition mb_take :: "'a mailbox \<Rightarrow> 'a option \<times> 'a mailbox" where
  "mb_take m =
     (case pending m of None \<Rightarrow> (None, m) | Some v \<Rightarrow> (Some v, m\<lparr>pending := None\<rparr>))"

definition mb_wait_pop :: "'a mailbox \<Rightarrow> ('a option \<times> 'a mailbox) option" where
  "mb_wait_pop m = (if mb_ready m then Some (mb_take m) else None)"

definition mb_stop :: "'a mailbox \<Rightarrow> 'a mailbox" where
  "mb_stop m = m\<lparr>mb_stopped := True, pending := None\<rparr>"

section \<open>The contract\<close>

text \<open>
  A handoff holds a list of at most one value: a push after the stop is refused and changes
  nothing, a push before it leaves exactly the new value and reports whether one was lost, a
  pop blocks exactly when there is nothing to take and no stop.
\<close>

locale handoff =
  fixes push :: "'a \<Rightarrow> 's \<Rightarrow> LatestValuePushResult \<times> 's"
    and wait_pop :: "'s \<Rightarrow> ('a option \<times> 's) option"
    and stop :: "'s \<Rightarrow> 's"
    and held :: "'s \<Rightarrow> 'a list"
    and closed :: "'s \<Rightarrow> bool"
    and ok :: "'s \<Rightarrow> bool"
  assumes held_le: "ok s \<Longrightarrow> length (held s) \<le> 1"
    and closed_empty: "ok s \<Longrightarrow> closed s \<Longrightarrow> held s = []"
    and push_closed: "closed s \<Longrightarrow> push v s = (KStopped, s)"
    and push_open: "\<not> closed s \<Longrightarrow> \<exists>s'. held s' = [v] \<and> \<not> closed s' \<and> ok s' \<and>
      push v s = (if held s = [] then KStored else KReplaced, s')"
    and pop_blocks: "\<not> closed s \<Longrightarrow> held s = [] \<Longrightarrow> wait_pop s = None"
    and pop_closed: "closed s \<Longrightarrow> held s = [] \<Longrightarrow> wait_pop s = Some (None, s)"
    and pop_takes: "ok s \<Longrightarrow> held s = [v] \<Longrightarrow>
      \<exists>s'. wait_pop s = Some (Some v, s') \<and> held s' = [] \<and> closed s' = closed s \<and> ok s'"
    and stop_closes: "closed (stop s) \<and> held (stop s) = [] \<and> ok (stop s)"
begin

lemma push_cases:
  assumes "push v s = (r, s')"
  obtains "closed s" "r = KStopped" "s' = s"
  | "\<not> closed s" "held s = []" "r = KStored" "held s' = [v]" "\<not> closed s'" "ok s'"
  | "\<not> closed s" "held s \<noteq> []" "r = KReplaced" "held s' = [v]" "\<not> closed s'" "ok s'"
  using assms push_closed [of s v] push_open [of s v]
  by (cases "closed s"; cases "held s") auto

lemma push_ok: "ok s \<Longrightarrow> push v s = (r, s') \<Longrightarrow> ok s'"
  by (erule push_cases) auto

lemma push_balance:
  assumes "ok s" and "push v s = (r, s')"
  shows "length (held s') + (if r = KReplaced then 1 else 0) =
    length (held s) + (if r = KStopped then 0 else 1)"
  using assms(2) held_le [OF assms(1)] by (cases rule: push_cases) (auto simp: le_Suc_eq)

lemma pop_cases:
  assumes "ok s"
  obtains "wait_pop s = None" "held s = []" "\<not> closed s"
  | "wait_pop s = Some (None, s)" "held s = []" "closed s"
  | v s' where "wait_pop s = Some (Some v, s')" "held s = [v]" "held s' = []"
      "closed s' = closed s" "ok s'"
proof (cases "held s")
  case Nil
  then show ?thesis using that pop_blocks pop_closed by (cases "closed s") auto
next
  case (Cons v vs)
  with held_le [OF assms] have "held s = [v]" by auto
  then show ?thesis using that pop_takes [OF assms] by blast
qed

end

definition mb_held :: "'a mailbox \<Rightarrow> 'a list" where
  "mb_held m = (case pending m of None \<Rightarrow> [] | Some v \<Rightarrow> [v])"

definition mb_ok :: "'a mailbox \<Rightarrow> bool" where
  "mb_ok m \<longleftrightarrow> (mb_stopped m \<longrightarrow> pending m = None)"

interpretation mb: handoff mb_push mb_wait_pop mb_stop mb_held mb_stopped mb_ok
  by unfold_locales
    (auto simp: mb_push_def mb_wait_pop_def mb_ready_def mb_take_def mb_stop_def mb_held_def
      mb_ok_def Let_def split: option.splits)

section \<open>The threads\<close>

text \<open>
  \<open>WOut\<close>: the publishing thread is outside \<^verbatim>\<open>wait_pop\<close>, working on what it got;
  \<open>WBlocked\<close>: asleep in \<^verbatim>\<open>condition_.wait\<close>; \<open>WNotified\<close>: woken, waiting for the mutex;
  \<open>WDone\<close>: \<^verbatim>\<open>wait_pop\<close> returned false and the loop ended.
\<close>

datatype waiter_state = WOut | WBlocked | WNotified | WDone

record 'a mbsys =
  box :: "'a mailbox"
  waiter :: waiter_state
  stored :: "'a list"
  delivered :: "'a list"
  overwritten :: nat
  discarded :: nat

datatype 'a mb_event = EPush 'a | EStop | ECall | EWake

fun notify :: "waiter_state \<Rightarrow> waiter_state" where
  "notify WBlocked = WNotified"
| "notify w = w"

definition mb_enter :: "'a mbsys \<Rightarrow> 'a mbsys" where
  "mb_enter s =
     (case mb_wait_pop (box s) of
        None \<Rightarrow> s\<lparr>waiter := WBlocked\<rparr>
      | Some (None, b) \<Rightarrow> s\<lparr>box := b, waiter := WDone\<rparr>
      | Some (Some v, b) \<Rightarrow> s\<lparr>box := b, waiter := WOut, delivered := delivered s @ [v]\<rparr>)"

fun mb_step :: "'a mb_event \<Rightarrow> 'a mbsys \<Rightarrow> 'a mbsys option" where
  "mb_step (EPush v) s =
     (case mb_push v (box s) of
        (KStopped, b) \<Rightarrow> Some (s\<lparr>box := b\<rparr>)
      | (KStored, b) \<Rightarrow>
          Some (s\<lparr>box := b, waiter := notify (waiter s), stored := stored s @ [v]\<rparr>)
      | (KReplaced, b) \<Rightarrow>
          Some (s\<lparr>box := b, waiter := notify (waiter s), stored := stored s @ [v],
                  overwritten := Suc (overwritten s)\<rparr>))"
| "mb_step EStop s =
     Some (s\<lparr>box := mb_stop (box s), waiter := notify (waiter s),
             discarded := discarded s + length (mb_held (box s))\<rparr>)"
| "mb_step ECall s = (if waiter s = WOut then Some (mb_enter s) else None)"
| "mb_step EWake s =
     (if waiter s = WBlocked \<or> waiter s = WNotified then Some (mb_enter s) else None)"

definition mb_init :: "'a mbsys" where
  "mb_init = \<lparr>box = mb_new, waiter = WOut, stored = [], delivered = [], overwritten = 0,
     discarded = 0\<rparr>"

inductive mb_reach :: "'a mbsys \<Rightarrow> bool" where
  start: "mb_reach mb_init"
| step: "mb_reach s \<Longrightarrow> mb_step e s = Some t \<Longrightarrow> mb_reach t"

inductive_cases mb_reach_cases: "mb_reach s"

section \<open>Invariant\<close>

definition mb_inv :: "'a mbsys \<Rightarrow> bool" where
  "mb_inv s \<longleftrightarrow>
     mb_ok (box s) \<and>
     (waiter s = WBlocked \<longrightarrow> \<not> mb_ready (box s)) \<and>
     (waiter s = WDone \<longrightarrow> mb_stopped (box s)) \<and>
     (\<exists>xs. stored s = xs @ mb_held (box s) \<and> subseq (delivered s) xs) \<and>
     length (stored s) =
       length (delivered s) + overwritten s + discarded s + length (mb_held (box s))"

lemma mb_inv_init: "mb_inv mb_init"
  by (simp add: mb_inv_def mb_init_def mb_new_def mb_ok_def mb_held_def)

lemma subseq_app: "subseq ds xs \<Longrightarrow> subseq ds (xs @ ys)"
  by (simp add: subseq_rev_drop_many)

lemma mb_inv_push:
  assumes inv: "mb_inv s" and st: "mb_step (EPush v) s = Some t"
  shows "mb_inv t"
proof -
  obtain r b where p: "mb_push v (box s) = (r, b)" by (cases "mb_push v (box s)")
  have bal: "length (mb_held b) + (if r = KReplaced then 1 else 0) =
      length (mb_held (box s)) + (if r = KStopped then 0 else 1)"
    using mb.push_balance [OF _ p] inv by (simp add: mb_inv_def)
  obtain xs where xs: "stored s = xs @ mb_held (box s)" "subseq (delivered s) xs"
    using inv by (auto simp: mb_inv_def)
  have d: "subseq (delivered s) (stored s)" unfolding xs(1) using xs(2) by (rule subseq_app)
  have fin: "waiter s = WDone \<Longrightarrow> mb_stopped (box s)" using inv by (simp add: mb_inv_def)
  from p show ?thesis
  proof (cases rule: mb.push_cases)
    case 1
    then show ?thesis using inv st p by (auto simp: mb_inv_def)
  next
    case 2
    then have "waiter t \<noteq> WBlocked" "waiter t \<noteq> WDone"
      using st p fin by (cases "waiter s"; auto)+
    with 2 show ?thesis using inv st p bal d by (auto simp: mb_inv_def)
  next
    case 3
    then have "waiter t \<noteq> WBlocked" "waiter t \<noteq> WDone"
      using st p fin by (cases "waiter s"; auto)+
    with 3 show ?thesis using inv st p bal d by (auto simp: mb_inv_def)
  qed
qed

lemma mb_inv_stop:
  assumes inv: "mb_inv s" and st: "mb_step EStop s = Some t"
  shows "mb_inv t"
proof -
  have c: "mb_stopped (mb_stop (box s))" "mb_held (mb_stop (box s)) = []" "mb_ok (mb_stop (box s))"
    using mb.stop_closes by blast+
  have "notify (waiter s) \<noteq> WBlocked" by (cases "waiter s") auto
  then show ?thesis using inv st c by (auto simp: mb_inv_def subseq_app)
qed

lemma mb_inv_enter:
  assumes inv: "mb_inv s"
  shows "mb_inv (mb_enter s)"
proof -
  have ok: "mb_ok (box s)" using inv by (simp add: mb_inv_def)
  then show ?thesis
  proof (cases rule: mb.pop_cases)
    case 1
    then show ?thesis using inv by (auto simp: mb_inv_def mb_enter_def mb_wait_pop_def split: if_splits)
  next
    case 2
    then show ?thesis using inv by (auto simp: mb_inv_def mb_enter_def)
  next
    case (3 v b)
    obtain xs where "stored s = xs @ [v]" "subseq (delivered s) xs"
      using inv 3(2) by (auto simp: mb_inv_def)
    then have "subseq (delivered s @ [v]) (stored s)" by simp
    with 3 show ?thesis using inv by (auto simp: mb_inv_def mb_enter_def)
  qed
qed

lemma mb_inv_step: "mb_inv s \<Longrightarrow> mb_step e s = Some t \<Longrightarrow> mb_inv t"
  by (cases e) (auto split: if_splits intro: mb_inv_push mb_inv_stop mb_inv_enter simp del: mb_step.simps(1,2))

lemma mb_reach_inv: "mb_reach s \<Longrightarrow> mb_inv s"
  by (induction rule: mb_reach.induct) (auto intro: mb_inv_init mb_inv_step simp del: mb_step.simps)

section \<open>What the two threads get\<close>

fun mb_run :: "'a mb_event list \<Rightarrow> 'a mbsys \<Rightarrow> 'a mbsys option" where
  "mb_run [] s = Some s"
| "mb_run (e # es) s = Option.bind (mb_step e s) (mb_run es)"

lemma mb_run_reach: "mb_reach s \<Longrightarrow> mb_run es s = Some t \<Longrightarrow> mb_reach t"
  by (induction es arbitrary: s)
    (auto intro: mb_reach.step simp: bind_eq_Some_conv simp del: mb_step.simps)

text \<open>
  C12. Latest wins, nothing is repeated and nothing vanishes unaccounted: in every reachable
  state the delivered values are a subsequence of the stored ones, in their order; a pending
  value is the newest stored one; stored values are delivered, counted as overwritten,
  discarded by the stop, or pending; and whatever a step delivers is the newest stored value.
\<close>

theorem mailbox_latest_wins:
  assumes "mb_reach s"
  shows "subseq (delivered s) (stored s) \<and>
    (\<forall>v. pending (box s) = Some v \<longrightarrow> stored s \<noteq> [] \<and> last (stored s) = v) \<and>
    length (stored s) = length (delivered s) + overwritten s + discarded s +
      (if pending (box s) = None then 0 else 1) \<and>
    (\<forall>e t. mb_step e s = Some t \<and> delivered t \<noteq> delivered s \<longrightarrow>
      delivered t = delivered s @ [last (stored s)])"
proof -
  have inv: "mb_inv s" using assms by (rule mb_reach_inv)
  then obtain xs where xs: "stored s = xs @ mb_held (box s)" "subseq (delivered s) xs"
    by (auto simp: mb_inv_def)
  have p: "last (stored s) = v" "stored s \<noteq> []" if "pending (box s) = Some v" for v
    using that xs(1) by (simp_all add: mb_held_def)
  have enter: "delivered (mb_enter s) = delivered s \<or>
      delivered (mb_enter s) = delivered s @ [last (stored s)]"
    using p by (auto simp: mb_enter_def mb_wait_pop_def mb_take_def split: option.splits)
  have "delivered t = delivered s @ [last (stored s)]"
    if "mb_step e s = Some t" "delivered t \<noteq> delivered s" for e t
    using that enter by (cases e) (auto split: prod.splits LatestValuePushResult.splits if_splits)
  moreover have "subseq (delivered s) (stored s)" unfolding xs(1) using xs(2) by (rule subseq_app)
  moreover have "length (stored s) = length (delivered s) + overwritten s + discarded s +
      (if pending (box s) = None then 0 else 1)"
    using inv by (auto simp: mb_inv_def mb_held_def split: option.splits)
  ultimately show ?thesis using p by blast
qed

definition mb_demo :: "nat mb_event list" where
  "mb_demo = [ECall, EPush 1, EPush 2, EWake, EPush 3, EPush 4]"

theorem mailbox_latest_wins_witness:
  "delivered (the (mb_run mb_demo mb_init)) = [2] \<and>
   stored (the (mb_run mb_demo mb_init)) = [1, 2, 3, 4] \<and>
   subseq (delivered (the (mb_run mb_demo mb_init))) (stored (the (mb_run mb_demo mb_init))) \<and>
   last (stored (the (mb_run mb_demo mb_init))) = 4"
proof -
  let ?s = "the (mb_run mb_demo mb_init)"
  have some: "mb_run mb_demo mb_init = Some ?s" by code_simp
  have reach: "mb_reach ?s" by (rule mb_run_reach [OF mb_reach.start some])
  have v: "delivered ?s = [2]" "stored ?s = [1, 2, 3, 4]" "pending (box ?s) = Some 4" by code_simp+
  show ?thesis using mailbox_latest_wins [OF reach] v by simp
qed

text \<open>
  C13. No lost wake-up and a prompt end: in every reachable state a publishing thread that
  sleeps without a pending notification has nothing to do (no value pending, no stop); once
  a value is pending or the mailbox is stopped, the thread's next step is enabled and does not
  block; after the stop that step ends the loop and every push is refused without effect.
\<close>

theorem mailbox_no_lost_wakeup:
  assumes "mb_reach s"
  shows "(waiter s = WBlocked \<longrightarrow> pending (box s) = None \<and> \<not> mb_stopped (box s)) \<and>
    (mb_ready (box s) \<and> waiter s \<noteq> WDone \<longrightarrow>
      (\<exists>e t. e \<in> {ECall, EWake} \<and> mb_step e s = Some t \<and> waiter t \<in> {WOut, WDone} \<and>
        (mb_stopped (box s) \<longrightarrow> waiter t = WDone))) \<and>
    (mb_stopped (box s) \<longrightarrow> (\<forall>v. mb_push v (box s) = (KStopped, box s)))"
proof -
  have inv: "mb_inv s" using assms by (rule mb_reach_inv)
  have "\<exists>e t. e \<in> {ECall, EWake} \<and> mb_step e s = Some t \<and> waiter t \<in> {WOut, WDone} \<and>
        (mb_stopped (box s) \<longrightarrow> waiter t = WDone)"
    if r: "mb_ready (box s)" and w: "waiter s \<noteq> WDone"
  proof -
    have e: "waiter (mb_enter s) \<in> {WOut, WDone}"
      "mb_stopped (box s) \<longrightarrow> waiter (mb_enter s) = WDone"
      using r inv
      by (auto simp: mb_enter_def mb_wait_pop_def mb_take_def mb_inv_def mb_ok_def split: option.splits)
    show ?thesis
    proof (cases "waiter s = WOut")
      case True
      then have "mb_step ECall s = Some (mb_enter s)" by simp
      with e show ?thesis by blast
    next
      case False
      with w have "mb_step EWake s = Some (mb_enter s)" by (cases "waiter s") auto
      with e show ?thesis by blast
    qed
  qed
  then show ?thesis using inv by (auto simp: mb_inv_def mb_ready_def mb_push_def)
qed

theorem mailbox_no_lost_wakeup_witness:
  "\<exists>e t. e \<in> {ECall, EWake} \<and>
     mb_step e (the (mb_run [ECall, EPush (1::nat), EStop] mb_init)) = Some t \<and> waiter t = WDone"
proof -
  let ?s = "the (mb_run [ECall, EPush (1::nat), EStop] mb_init)"
  have some: "mb_run [ECall, EPush (1::nat), EStop] mb_init = Some ?s" by code_simp
  have reach: "mb_reach ?s" by (rule mb_run_reach [OF mb_reach.start some])
  have v: "mb_ready (box ?s)" "waiter ?s \<noteq> WDone" "mb_stopped (box ?s)" by code_simp+
  show ?thesis using mailbox_no_lost_wakeup [OF reach] v by blast
qed

end
