(* ===== verification/Compact_PointCloud2.thy ===== *)
theory Compact_PointCloud2
  imports Prelude
begin

text \<open>
  The conversion of a point cloud into the 26-byte-per-point \<^verbatim>\<open>PointCloud2\<close> message
  (\<^verbatim>\<open>compact_pointcloud2.h\<close>). Floating-point fields are copied bit by bit, so a
  \<^verbatim>\<open>float\<close> is its 32-bit pattern and a \<^verbatim>\<open>double\<close> its 64-bit pattern. The byte order of the
  host is an argument (\<open>big\<close>), as \<^verbatim>\<open>hostIsBigEndian\<close> tests it at run time. The
  constants of the message type and the fields of the \<^verbatim>\<open>PCL\<close> point and cloud types
  are those the source uses.
\<close>

section \<open>Data\<close>

record PPoint =
  px :: u32
  py :: u32
  pz :: u32
  pintensity :: u32
  ptimestamp :: u64
  pring :: u16

record PPointCloud =
  cld_frame_id :: string
  cld_width :: u32
  cld_height :: u32
  cld_is_dense :: bool
  cld_points :: "PPoint list"

record PointField =
  field_name :: string
  field_offset :: u32
  field_datatype :: nat
  field_count :: u32

record PointCloud2 =
  out_frame_id :: string
  out_stamp_sec :: int
  out_stamp_nanosec :: nat
  out_height :: u32
  out_width :: u32
  out_fields :: "PointField list"
  out_is_bigendian :: bool
  out_point_step :: u32
  out_row_step :: u32
  out_data :: "byte list"
  out_is_dense :: bool

text \<open>\<^verbatim>\<open>sensor_msgs::msg::PointField\<close> datatype codes.\<close>

definition UINT16 :: nat where "UINT16 = 4"
definition FLOAT32 :: nat where "FLOAT32 = 7"
definition FLOAT64 :: nat where "FLOAT64 = 8"

definition kCompactPointStep :: nat where "kCompactPointStep = 26"

definition uint32_max :: nat where "uint32_max = 2 ^ 32 - 1"

section \<open>Object representation\<close>

definition bytes_of :: "nat \<Rightarrow> 'a::len word \<Rightarrow> byte list" where
  "bytes_of n w = map (\<lambda>k. byte_of k w) [0..<n]"

definition host_bytes :: "bool \<Rightarrow> nat \<Rightarrow> 'a::len word \<Rightarrow> byte list" where
  "host_bytes big n w = (if big then rev (bytes_of n w) else bytes_of n w)"

text \<open>\<^verbatim>\<open>hostIsBigEndian\<close>: the first byte of the two-byte marker.\<close>

definition hostIsBigEndian :: "bool \<Rightarrow> bool" where
  "hostIsBigEndian big \<longleftrightarrow> hd (host_bytes big 2 (0x0102 :: u16)) = 0x01"

text \<open>The packed struct: its members in order, without padding.\<close>

definition CompactPointXYZIT :: "bool \<Rightarrow> PPoint \<Rightarrow> byte list" where
  "CompactPointXYZIT big p =
     host_bytes big 4 (px p) @ host_bytes big 4 (py p) @ host_bytes big 4 (pz p) @
     host_bytes big 4 (pintensity p) @ host_bytes big 8 (ptimestamp p) @ host_bytes big 2 (pring p)"

definition pointField :: "string \<Rightarrow> u32 \<Rightarrow> nat \<Rightarrow> PointField" where
  "pointField name offset datatype =
     \<lparr>field_name = name, field_offset = offset, field_datatype = datatype, field_count = 1\<rparr>"

datatype pc2_error = WidthRange | RowStepRange

text \<open>
  \<^verbatim>\<open>std::memcpy(data + index * 26, &compact, 26)\<close>: a write of a block into the buffer,
  \<^term>\<open>None\<close> when it does not fit.
\<close>

definition memcpy_at :: "nat \<Rightarrow> byte list \<Rightarrow> byte list \<Rightarrow> byte list option" where
  "memcpy_at pos src dst =
     (if pos + length src \<le> length dst
      then Some (take pos dst @ src @ drop (pos + length src) dst) else None)"

fun copy_points :: "bool \<Rightarrow> nat \<Rightarrow> PPoint list \<Rightarrow> byte list \<Rightarrow> byte list option" where
  "copy_points big index [] dst = Some dst"
| "copy_points big index (p # ps) dst =
     Option.bind (memcpy_at (index * kCompactPointStep) (CompactPointXYZIT big p) dst)
       (copy_points big (Suc index) ps)"

text \<open>
  The outer \<^term>\<open>None\<close> is a write outside \<^verbatim>\<open>output.data\<close>; the two \<^verbatim>\<open>throw\<close>s are the
  left summand. The products are taken in the source's types: \<^verbatim>\<open>row_step\<close> in 32 bits,
  \<^verbatim>\<open>declared_points\<close> in 64 bits.
\<close>

definition makeCompactPointCloud2 ::
  "bool \<Rightarrow> PPointCloud \<Rightarrow> (pc2_error + PointCloud2) option" where
  "makeCompactPointCloud2 big cloud =
     (let n = length (cld_points cloud) in
      if uint32_max < n then Some (Inl WidthRange)
      else
        let declared_points = (ucast (cld_width cloud) :: u64) * ucast (cld_height cloud);
            mismatch = (cld_height cloud = 0 \<or> declared_points \<noteq> of_nat n);
            height = (if mismatch then 1 else cld_height cloud);
            width = (if mismatch then of_nat n else cld_width cloud)
        in if uint32_max div kCompactPointStep < unat width then Some (Inl RowStepRange)
           else
             let row_step = width * of_nat kCompactPointStep;
                 buffer = replicate (unat row_step * unat height) 0
             in map_option
                  (\<lambda>bytes. Inr
                     \<lparr>out_frame_id = cld_frame_id cloud, out_stamp_sec = 0, out_stamp_nanosec = 0,
                      out_height = height, out_width = width,
                      out_fields =
                        [pointField ''x'' 0 FLOAT32, pointField ''y'' 4 FLOAT32,
                         pointField ''z'' 8 FLOAT32, pointField ''intensity'' 12 FLOAT32,
                         pointField ''timestamp'' 16 FLOAT64, pointField ''ring'' 24 UINT16],
                      out_is_bigendian = hostIsBigEndian big,
                      out_point_step = of_nat kCompactPointStep, out_row_step = row_step,
                      out_data = bytes, out_is_dense = cld_is_dense cloud\<rparr>)
                  (copy_points big 0 (cld_points cloud) buffer))"

section \<open>A subscriber's view\<close>

text \<open>
  Reading a message by its own description: the field table gives the offset and the
  width, \<^verbatim>\<open>is_bigendian\<close> the byte order, \<^verbatim>\<open>point_step\<close> the stride.
\<close>

definition field_width :: "nat \<Rightarrow> nat" where
  "field_width dt = (if dt = UINT16 then 2 else if dt = FLOAT32 then 4 else if dt = FLOAT64 then 8 else 0)"

fun bytes_value :: "byte list \<Rightarrow> nat" where
  "bytes_value [] = 0"
| "bytes_value (b # bs) = unat b + 256 * bytes_value bs"

definition read_field :: "PointCloud2 \<Rightarrow> nat \<Rightarrow> string \<Rightarrow> nat option" where
  "read_field m i name =
     (case find (\<lambda>f. field_name f = name) (out_fields m) of
        None \<Rightarrow> None
      | Some f \<Rightarrow>
          (let bs = take (field_width (field_datatype f))
                      (drop (i * unat (out_point_step m) + unat (field_offset f)) (out_data m))
           in if length bs = field_width (field_datatype f)
              then Some (bytes_value (if out_is_bigendian m then rev bs else bs)) else None))"

section \<open>Bytes\<close>

lemma length_host_bytes [simp]: "length (host_bytes big n w) = n"
  by (simp add: host_bytes_def bytes_of_def)

lemma length_CompactPointXYZIT [simp]: "length (CompactPointXYZIT big p) = kCompactPointStep"
  by (simp add: CompactPointXYZIT_def kCompactPointStep_def)

lemma bytes_value_upt:
  "bytes_value (map (\<lambda>k. byte_of k w) [j..<j + n]) = unat w div 256 ^ j mod 256 ^ n"
proof (induction n arbitrary: j)
  case (Suc n)
  have "bytes_value (map (\<lambda>k. byte_of k w) [j..<j + Suc n]) =
      unat w div 256 ^ j mod 256 + 256 * bytes_value (map (\<lambda>k. byte_of k w) [Suc j..<Suc j + n])"
    by (simp add: upt_conv_Cons unat_byte_of del: upt_Suc)
  also have "\<dots> = unat w div 256 ^ j mod 256 + 256 * (unat w div 256 ^ j div 256 mod 256 ^ n)"
    by (simp only: Suc.IH power_Suc2 div_mult2_eq)
  also have "\<dots> = unat w div 256 ^ j mod 256 ^ Suc n"
    by (simp add: mod_mult2_eq)
  finally show ?case .
qed simp

lemma bytes_value_of:
  assumes "8 * n = LENGTH('a::len)"
  shows "bytes_value (bytes_of n (w :: 'a word)) = unat w"
proof -
  have "unat w < 256 ^ n"
    using unsigned_less [of w] by (simp add: assms [symmetric] power_mult)
  then show ?thesis using bytes_value_upt [of w 0 n] by (simp add: bytes_of_def)
qed

lemma host_bytes_value [byte_simps]:
  assumes "8 * n = LENGTH('a::len)"
  shows "bytes_value (if big then rev (host_bytes big n (w :: 'a word)) else host_bytes big n w) = unat w"
  using bytes_value_of [OF assms, of w] by (simp add: host_bytes_def)

lemma hostIsBigEndian_iff [simp]: "hostIsBigEndian big = big"
  by (cases big) (simp_all add: hostIsBigEndian_def host_bytes_def bytes_of_def byte_of_def upt_rec)

section \<open>The copy loop\<close>

lemma memcpy_at_mid:
  "memcpy_at (length as) src (as @ bs @ cs) =
     (if length src \<le> length (bs @ cs)
      then Some (as @ src @ drop (length src) (bs @ cs)) else None)"
  by (auto simp: memcpy_at_def)

lemma copy_points_ok:
  assumes "length as = index * kCompactPointStep" and "length bs = length ps * kCompactPointStep"
  shows "copy_points big index ps (as @ bs) = Some (as @ concat (map (CompactPointXYZIT big) ps))"
  using assms
proof (induction ps arbitrary: index "as" bs)
  case (Cons p ps)
  let ?c = "CompactPointXYZIT big p"
  have "memcpy_at (index * kCompactPointStep) ?c (as @ bs) = Some ((as @ ?c) @ drop kCompactPointStep bs)"
    using Cons.prems memcpy_at_mid [of "as" ?c bs "[]"] by simp
  moreover have "copy_points big (Suc index) ps ((as @ ?c) @ drop kCompactPointStep bs) =
      Some ((as @ ?c) @ concat (map (CompactPointXYZIT big) ps))"
    using Cons.prems by (intro Cons.IH) simp_all
  ultimately show ?case by simp
qed simp

lemma length_points [simp]:
  "length (concat (map (CompactPointXYZIT big) ps)) = length ps * kCompactPointStep"
  by (induction ps) auto

lemma drop_concat_block:
  assumes "i < length ps"
  shows "drop (i * kCompactPointStep) (concat (map (CompactPointXYZIT big) ps)) =
    CompactPointXYZIT big (ps ! i) @ concat (map (CompactPointXYZIT big) (drop (Suc i) ps))"
  using assms
proof (induction i arbitrary: ps)
  case 0
  then show ?case by (cases ps) auto
next
  case (Suc i)
  then obtain q qs where q: "ps = q # qs" by (cases ps) auto
  with Suc show ?case by simp
qed

section \<open>Shape of the message\<close>

text \<open>The two dimensions that are published, after the mismatch test.\<close>

definition out_dims :: "PPointCloud \<Rightarrow> nat \<times> nat" where
  "out_dims cloud =
     (let n = length (cld_points cloud); h = unat (cld_height cloud); w = unat (cld_width cloud)
      in if h = 0 \<or> w * h \<noteq> n then (1, n) else (h, w))"

lemma declared_points_eq:
  assumes "n \<le> uint32_max"
  shows "(ucast (w :: u32) :: u64) * ucast (h :: u32) = of_nat n \<longleftrightarrow> unat w * unat h = n"
proof -
  have lt: "unat w * unat h < 2 ^ LENGTH(64)" "n < 2 ^ LENGTH(64)"
  proof -
    have "unat w * unat h \<le> (2 ^ 32 - 1) * (2 ^ 32 - 1)"
      using unsigned_less [of w, where 'a = nat] unsigned_less [of h, where 'a = nat]
      by (intro mult_mono) auto
    then show "unat w * unat h < 2 ^ LENGTH(64)" by simp
    show "n < 2 ^ LENGTH(64)" using assms by (simp add: uint32_max_def)
  qed
  have "(ucast w :: u64) * ucast h = of_nat (unat w * unat h)" by simp
  then show ?thesis using lt by (simp add: of_nat_word_inj del: of_nat_mult)
qed

lemma makeCompactPointCloud2_width_range:
  "uint32_max < length (cld_points cloud) \<Longrightarrow> makeCompactPointCloud2 big cloud = Some (Inl WidthRange)"
  by (simp add: makeCompactPointCloud2_def)

lemma out_dims_words:
  assumes "length (cld_points cloud) \<le> uint32_max" and "out_dims cloud = (h, w)"
  shows "(cld_height cloud = 0 \<or>
      (ucast (cld_width cloud) :: u64) * ucast (cld_height cloud) \<noteq> of_nat (length (cld_points cloud))) =
      (unat (cld_height cloud) = 0 \<or>
       unat (cld_width cloud) * unat (cld_height cloud) \<noteq> length (cld_points cloud))"
    and "h * w = length (cld_points cloud)" and "0 < h" and "h < 2 ^ 32" and "w < 2 ^ 32"
  using assms declared_points_eq [OF assms(1), of "cld_width cloud" "cld_height cloud"]
    unsigned_less [of "cld_width cloud", where 'a = nat]
    unsigned_less [of "cld_height cloud", where 'a = nat]
  by (auto simp: out_dims_def Let_def uint32_max_def unat_eq_zero mult.commute unat_gt_0
    split: if_splits)

lemma makeCompactPointCloud2_cases:
  assumes n: "length (cld_points cloud) \<le> uint32_max" and d: "out_dims cloud = (h, w)"
  shows "makeCompactPointCloud2 big cloud =
    (if uint32_max div kCompactPointStep < w then Some (Inl RowStepRange)
     else Some (Inr
       \<lparr>out_frame_id = cld_frame_id cloud, out_stamp_sec = 0, out_stamp_nanosec = 0,
        out_height = of_nat h, out_width = of_nat w,
        out_fields =
          [pointField ''x'' 0 FLOAT32, pointField ''y'' 4 FLOAT32,
           pointField ''z'' 8 FLOAT32, pointField ''intensity'' 12 FLOAT32,
           pointField ''timestamp'' 16 FLOAT64, pointField ''ring'' 24 UINT16],
        out_is_bigendian = big,
        out_point_step = of_nat kCompactPointStep, out_row_step = of_nat (w * kCompactPointStep),
        out_data = concat (map (CompactPointXYZIT big) (cld_points cloud)),
        out_is_dense = cld_is_dense cloud\<rparr>))"
proof -
  note dims = out_dims_words [OF n d]
  let ?mis = "unat (cld_height cloud) = 0 \<or>
       unat (cld_width cloud) * unat (cld_height cloud) \<noteq> length (cld_points cloud)"
  have hw: "(if ?mis then 1 else cld_height cloud) = of_nat h"
    "(if ?mis then of_nat (length (cld_points cloud)) else cld_width cloud) = of_nat w"
    using d by (auto simp: out_dims_def Let_def split: if_splits)
  have u: "unat (of_nat w :: u32) = w" "unat (of_nat h :: u32) = h"
    using dims(4,5) by (simp_all add: unat_of_nat_small)
  show ?thesis
  proof (cases "uint32_max div kCompactPointStep < w")
    case True
    then show ?thesis using n u
      by (simp add: makeCompactPointCloud2_def Let_def dims(1) hw del: One_nat_def)
  next
    case False
    then have "w * kCompactPointStep < 2 ^ LENGTH(32)"
      by (simp add: uint32_max_def kCompactPointStep_def)
    then have "unat (of_nat w * of_nat kCompactPointStep :: u32) = w * kCompactPointStep"
      by (metis of_nat_mult unat_of_nat_small)
    moreover have "copy_points big 0 (cld_points cloud) (replicate (w * kCompactPointStep * h) 0) =
        Some (concat (map (CompactPointXYZIT big) (cld_points cloud)))"
      using copy_points_ok [of "[]" 0 "replicate (w * kCompactPointStep * h) 0" "cld_points cloud" big]
        dims(2) by (simp add: mult.commute mult.left_commute)
    ultimately show ?thesis using n u False
      by (simp add: makeCompactPointCloud2_def Let_def dims(1) hw)
  qed
qed

lemma read_block:
  assumes "out_data m = concat (map (CompactPointXYZIT big) ps)" and "i < length ps"
    and "out_point_step m = of_nat kCompactPointStep"
  shows "drop (i * unat (out_point_step m) + off) (out_data m) =
    drop off (CompactPointXYZIT big (ps ! i) @ concat (map (CompactPointXYZIT big) (drop (Suc i) ps)))"
proof -
  have "unat (out_point_step m) = kCompactPointStep"
    unfolding assms(3) by (simp add: kCompactPointStep_def)
  then show ?thesis
    using drop_concat_block [OF assms(2), of big] assms(1)
    by (metis add.commute drop_drop)
qed

text \<open>What a successful conversion fixes of the message.\<close>

definition compact_of :: "bool \<Rightarrow> PPointCloud \<Rightarrow> PointCloud2 \<Rightarrow> bool" where
  "compact_of big cloud m \<longleftrightarrow>
     out_fields m =
       [pointField ''x'' 0 FLOAT32, pointField ''y'' 4 FLOAT32, pointField ''z'' 8 FLOAT32,
        pointField ''intensity'' 12 FLOAT32, pointField ''timestamp'' 16 FLOAT64,
        pointField ''ring'' 24 UINT16] \<and>
     out_data m = concat (map (CompactPointXYZIT big) (cld_points cloud)) \<and>
     out_point_step m = of_nat kCompactPointStep \<and> out_is_bigendian m = big \<and>
     unat (out_height m) * unat (out_width m) = length (cld_points cloud) \<and>
     out_frame_id m = cld_frame_id cloud"

lemma makeCompactPointCloud2_compact:
  assumes "makeCompactPointCloud2 big cloud = Some (Inr m)"
  shows "compact_of big cloud m"
proof -
  have n: "length (cld_points cloud) \<le> uint32_max"
    using assms makeCompactPointCloud2_width_range [of cloud big] by (force simp: not_le [symmetric])
  obtain h w where d: "out_dims cloud = (h, w)" by force
  note dims = out_dims_words [OF n d]
  then have "unat (of_nat w :: u32) = w" "unat (of_nat h :: u32) = h" by (simp_all add: unat_of_nat_small)
  then show ?thesis
    using assms makeCompactPointCloud2_cases [OF n d, of big] dims(2) by (auto simp: compact_of_def split: if_splits)
qed

lemma compact_of_read:
  assumes "compact_of big cloud m" and "i < length (cld_points cloud)"
  shows "read_field m i ''x'' = Some (unat (px (cld_points cloud ! i)))"
    "read_field m i ''y'' = Some (unat (py (cld_points cloud ! i)))"
    "read_field m i ''z'' = Some (unat (pz (cld_points cloud ! i)))"
    "read_field m i ''intensity'' = Some (unat (pintensity (cld_points cloud ! i)))"
    "read_field m i ''timestamp'' = Some (unat (ptimestamp (cld_points cloud ! i)))"
    "read_field m i ''ring'' = Some (unat (pring (cld_points cloud ! i)))"
proof -
  note m = assms(1) [unfolded compact_of_def]
  have blk: "drop (i * unat (out_point_step m) + off) (out_data m) = drop off (CompactPointXYZIT big (cld_points cloud ! i) @
      concat (map (CompactPointXYZIT big) (drop (Suc i) (cld_points cloud))))" for off
    using m assms(2) by (intro read_block) auto
  show "read_field m i ''x'' = Some (unat (px (cld_points cloud ! i)))"
    "read_field m i ''y'' = Some (unat (py (cld_points cloud ! i)))"
    "read_field m i ''z'' = Some (unat (pz (cld_points cloud ! i)))"
    "read_field m i ''intensity'' = Some (unat (pintensity (cld_points cloud ! i)))"
    "read_field m i ''timestamp'' = Some (unat (ptimestamp (cld_points cloud ! i)))"
    "read_field m i ''ring'' = Some (unat (pring (cld_points cloud ! i)))"
    unfolding read_field_def blk
    by (auto simp: m pointField_def field_width_def FLOAT32_def FLOAT64_def UINT16_def
        CompactPointXYZIT_def Let_def host_bytes_value)
qed

section \<open>Properties\<close>

text \<open>
  C30. Every call of \<^verbatim>\<open>makeCompactPointCloud2\<close> stays inside the buffer it allocates (never a
  write out of range), and ends in exactly one of three ways: the first \<^verbatim>\<open>length_error\<close>, when
  the point count does not fit 32 bits; the second, when the published width times 26 does not
  fit 32 bits; or a message with height times width equal to the number of points, a row step
  of 26 times the width without wrap-around, and exactly height times row step bytes of data.
\<close>

theorem compact_cloud_shape:
  "(case makeCompactPointCloud2 big cloud of
      None \<Rightarrow> False
    | Some (Inl WidthRange) \<Rightarrow> uint32_max < length (cld_points cloud)
    | Some (Inl RowStepRange) \<Rightarrow>
        length (cld_points cloud) \<le> uint32_max \<and> uint32_max < 26 * snd (out_dims cloud)
    | Some (Inr m) \<Rightarrow>
        length (cld_points cloud) \<le> uint32_max \<and>
        (unat (out_height m), unat (out_width m)) = out_dims cloud \<and>
        unat (out_height m) * unat (out_width m) = length (cld_points cloud) \<and>
        unat (out_row_step m) = 26 * unat (out_width m) \<and>
        length (out_data m) = unat (out_row_step m) * unat (out_height m))"
proof (cases "length (cld_points cloud) \<le> uint32_max")
  case False
  then show ?thesis by (simp add: makeCompactPointCloud2_width_range not_le)
next
  case True
  obtain h w where d: "out_dims cloud = (h, w)" by force
  note dims = out_dims_words [OF True d]
  note eq = makeCompactPointCloud2_cases [OF True d, of big]
  show ?thesis
  proof (cases "uint32_max div kCompactPointStep < w")
    case big: True
    then have "uint32_max < 26 * w" by (simp add: uint32_max_def kCompactPointStep_def)
    with big True show ?thesis by (simp add: eq d)
  next
    case False
    then have "w * kCompactPointStep < 2 ^ LENGTH(32)"
      by (simp add: uint32_max_def kCompactPointStep_def)
    then have "unat (of_nat (w * kCompactPointStep) :: u32) = w * kCompactPointStep"
      by (rule unat_of_nat_small)
    moreover have "unat (of_nat h :: u32) = h" "unat (of_nat w :: u32) = w"
      using dims(4,5) by (simp_all add: unat_of_nat_small)
    ultimately show ?thesis using False True dims(2)
      by (simp add: eq d kCompactPointStep_def mult.commute mult.left_commute)
  qed
qed

text \<open>
  C20. Round trip: a subscriber that reads the message through its own field table and byte
  order finds, for every point of the cloud, the exact bit patterns of its six fields, on
  hosts of either byte order.
\<close>

theorem compact_cloud_roundtrip:
  assumes "makeCompactPointCloud2 big cloud = Some (Inr m)" and "i < length (cld_points cloud)"
  shows "read_field m i ''x'' = Some (unat (px (cld_points cloud ! i))) \<and>
    read_field m i ''y'' = Some (unat (py (cld_points cloud ! i))) \<and>
    read_field m i ''z'' = Some (unat (pz (cld_points cloud ! i))) \<and>
    read_field m i ''intensity'' = Some (unat (pintensity (cld_points cloud ! i))) \<and>
    read_field m i ''timestamp'' = Some (unat (ptimestamp (cld_points cloud ! i))) \<and>
    read_field m i ''ring'' = Some (unat (pring (cld_points cloud ! i)))"
  using compact_of_read [OF makeCompactPointCloud2_compact [OF assms(1)] assms(2)] by blast

definition demo_cloud :: PPointCloud where
  "demo_cloud =
     \<lparr>cld_frame_id = ''lidar'', cld_width = 7, cld_height = 0, cld_is_dense = True,
      cld_points =
        [\<lparr>px = 1, py = 2, pz = 3, pintensity = 4, ptimestamp = 5, pring = 6\<rparr>,
         \<lparr>px = 0x3F800000, py = 0x40000000, pz = 9, pintensity = 10,
          ptimestamp = 0x0102030405060708, pring = 0x0A0B\<rparr>]\<rparr>"

theorem compact_cloud_roundtrip_witness:
  "read_field (projr (the (makeCompactPointCloud2 True demo_cloud))) 1 ''timestamp'' =
     Some 0x0102030405060708"
proof -
  let ?m = "projr (the (makeCompactPointCloud2 True demo_cloud))"
  have "length (cld_points demo_cloud) \<le> uint32_max" "out_dims demo_cloud = (1, 2)"
    by (simp_all add: demo_cloud_def uint32_max_def out_dims_def)
  from makeCompactPointCloud2_cases [OF this, of True]
  have m: "makeCompactPointCloud2 True demo_cloud = Some (Inr ?m)"
    by (simp add: uint32_max_def kCompactPointStep_def)
  have i: "1 < length (cld_points demo_cloud)"
    "unat (ptimestamp (cld_points demo_cloud ! 1)) = 0x0102030405060708"
    by (simp_all add: demo_cloud_def)
  show ?thesis using compact_cloud_roundtrip [OF m i(1)] i(2) by simp
qed

end
