(* ===== verification/Ros_Node.thy ===== *)
theory Ros_Node
  imports Driver Posix_Io Latest_Value_Mailbox Compact_PointCloud2
begin

text \<open>
  The ROS node of \<^verbatim>\<open>main_ros2.cc\<close>: its parameters and their validation, the callback that
  converts a cloud and hands it to the publishing thread, the loop of that thread, and the
  choice of the data source. The node and its two threads are one state, \<open>node\<close>; its mailbox
  is the one of theory \<open>Latest_Value_Mailbox\<close>. Points are their object representation, as
  in theory \<open>Compact_PointCloud2\<close>. \<^verbatim>\<open>pcl::toROSMsg\<close>, whether a call of \<^verbatim>\<open>publish\<close>
  throws, and the readings of the steady clock (in nanoseconds) are arguments. The log output is
  left out.
\<close>

section \<open>Parameters\<close>

record node_params =
  pcap_file :: string
  server_ip :: string
  lidar_recv_port :: int
  gps_port :: int
  start_angle :: fp
  lidar_correction_file :: string
  lidar_type :: string
  frame_id_param :: string
  pcldata_type :: int
  publish_type :: string
  timestamp_type :: string
  data_type :: string
  multicast_ip :: string
  coordinate_correction_flag :: bool
  target_frame :: string
  fixed_frame :: string
  pointcloud_reliability :: string
  pointcloud_qos_depth :: int
  pointcloud_layout :: string

definition default_params :: node_params where
  "default_params = \<lparr>pcap_file = [], server_ip = [], lidar_recv_port = 2368, gps_port = 10110,
     start_angle = d_int 0, lidar_correction_file = [], lidar_type = [], frame_id_param = [],
     pcldata_type = 0, publish_type = [], timestamp_type = [], data_type = [], multicast_ip = [],
     coordinate_correction_flag = False, target_frame = [], fixed_frame = [],
     pointcloud_reliability = ''reliable'', pointcloud_qos_depth = 1000, pointcloud_layout = ''compact''\<rparr>"

datatype param_error = BadDepth | BadLayout | BadReliability

text \<open>The depth and whether the publisher is reliable, or the exception.\<close>

definition pointcloud_qos :: "node_params \<Rightarrow> param_error + nat \<times> bool" where
  "pointcloud_qos p =
     (if pointcloud_qos_depth p \<le> 0 then Inl BadDepth
      else if pointcloud_layout p \<noteq> ''compact'' \<and> pointcloud_layout p \<noteq> ''legacy_pcl'' then Inl BadLayout
      else if pointcloud_reliability p = ''best_effort'' then Inr (nat (pointcloud_qos_depth p), False)
      else if pointcloud_reliability p = ''reliable'' then Inr (nat (pointcloud_qos_depth p), True)
      else Inl BadReliability)"

text \<open>
  The part of \<^verbatim>\<open>initialize_sdk\<close> that reads the parameters: which constructor of the driver is
  called and with which arguments.
  The angle in hundredths is an \<^verbatim>\<open>int\<close> (undefined when out of range) passed as a
  \<^verbatim>\<open>uint16_t\<close>, and so are the ports.
\<close>

datatype source = FromPcap string | FromBag | FromSensor string u16 u16 string

record sdk_request =
  rq_source :: source
  rq_start_angle :: u16
  rq_pcl_type :: int
  rq_lidar_type :: string
  rq_frame_id :: string
  rq_timestamp_type :: string
  rq_correction_file :: string
  rq_coordinate_correction :: bool
  rq_target_frame :: string
  rq_fixed_frame :: string
  rq_subscribes :: bool

definition start_angle_of :: "fp \<Rightarrow> u16 option" where
  "start_angle_of a = map_option of_int (to_i32 (d_add (d_mul a (d_int 100)) (d_lit (1 / 2))))"

definition sdk_request_of :: "node_params \<Rightarrow> sdk_request option" where
  "sdk_request_of p =
     map_option (\<lambda>angle.
       \<lparr>rq_source =
          (if pcap_file p \<noteq> [] then FromPcap (pcap_file p)
           else if ''rosbag'' = data_type p then FromBag
           else FromSensor (server_ip p) (of_int (lidar_recv_port p)) (of_int (gps_port p)) (multicast_ip p)),
        rq_start_angle = angle, rq_pcl_type = pcldata_type p, rq_lidar_type = lidar_type p,
        rq_frame_id = frame_id_param p, rq_timestamp_type = timestamp_type p,
        rq_correction_file = lidar_correction_file p,
        rq_coordinate_correction = coordinate_correction_flag p, rq_target_frame = target_frame p,
        rq_fixed_frame = fixed_frame p,
        rq_subscribes = (pcap_file p = [] \<and> ''rosbag'' = data_type p)\<rparr>)
       (start_angle_of (start_angle p))"

section \<open>State\<close>

record node =
  publishType :: string
  pointcloudLayout :: string
  cloudTimestampGuard :: TimestampGuard
  cloudPublishMailbox :: "PointCloud2 mbsys"
  nd_output :: "PointCloud2 option"
  nd_emptyCloudDrops :: u64
  cloudTimestampRegressions :: u64
  cloudsEnqueued :: u64
  cloudQueueOverwrites :: u64
  cloudPublishFailures :: u64
  cloudsPublished :: u64
  cloudConversionTotalNs :: u64
  cloudConversionMaxNs :: u64
  cloudPublishTotalNs :: u64
  cloudPublishMaxNs :: u64
  rawScansPublished :: u64
  rawPublishTotalNs :: u64
  rawPublishMaxNs :: u64
  nd_published :: "PointCloud2 list"
  nd_raw :: "packet_msg list list"
  nd_running :: bool

definition new_node :: "node_params \<Rightarrow> node" where
  "new_node p = \<lparr>publishType = publish_type p, pointcloudLayout = pointcloud_layout p,
     cloudTimestampGuard = newTimestampGuard kTimestampRegressionToleranceSec,
     cloudPublishMailbox = mb_init, nd_output = None, nd_emptyCloudDrops = 0, cloudTimestampRegressions = 0,
     cloudsEnqueued = 0, cloudQueueOverwrites = 0, cloudPublishFailures = 0, cloudsPublished = 0,
     cloudConversionTotalNs = 0, cloudConversionMaxNs = 0, cloudPublishTotalNs = 0, cloudPublishMaxNs = 0,
     rawScansPublished = 0, rawPublishTotalNs = 0, rawPublishMaxNs = 0, nd_published = [], nd_raw = [],
     nd_running = True\<rparr>"

section \<open>Durations\<close>

definition recordDuration :: "int \<Rightarrow> int \<Rightarrow> u64 \<times> u64 \<Rightarrow> u64 \<times> u64" where
  "recordDuration started finished t =
     (let elapsed = of_int (finished - started)
      in (fst t + elapsed, if snd t < elapsed then elapsed else snd t))"

definition nanosecondsToMilliseconds :: "u64 \<Rightarrow> fp" where
  "nanosecondsToMilliseconds ns = d_div (d_int (uint ns)) (d_int 1000000)"

definition averageMilliseconds :: "u64 \<Rightarrow> u64 \<Rightarrow> fp" where
  "averageMilliseconds ns_total samples =
     (if samples = 0 then d_int 0
      else d_div (nanosecondsToMilliseconds ns_total) (d_int (uint samples)))"

text \<open>What the destructor of the node reports: the counters, and the durations in milliseconds.\<close>

definition cloud_diagnostics :: "node \<Rightarrow> u64 list \<times> fp list" where
  "cloud_diagnostics n =
     ([nd_emptyCloudDrops n, cloudTimestampRegressions n, cloudsEnqueued n, cloudQueueOverwrites n,
       cloudPublishFailures n, cloudsPublished n, rawScansPublished n],
      [averageMilliseconds (cloudConversionTotalNs n) (cloudsEnqueued n),
       nanosecondsToMilliseconds (cloudConversionMaxNs n),
       averageMilliseconds (cloudPublishTotalNs n) (cloudsPublished n + cloudPublishFailures n),
       nanosecondsToMilliseconds (cloudPublishMaxNs n),
       averageMilliseconds (rawPublishTotalNs n) (rawScansPublished n),
       nanosecondsToMilliseconds (rawPublishMaxNs n)])"

section \<open>The callback\<close>

text \<open>The stamp of the message: both conversions are undefined when out of range.\<close>

definition stamp_of :: "fp \<Rightarrow> (int \<times> int) option" where
  "stamp_of tstamp = do {
     sec \<leftarrow> to_i32 tstamp;
     nanosec \<leftarrow> to_u32 (d_mul (d_sub tstamp (d_int sec)) (d_int 1000000000));
     Some (sec, nanosec)
   }"

datatype node_exn = ConversionFailed pc2_error | RawPublishFailed

record node_env =
  big_endian :: bool
  toROSMsg :: "PPointCloud \<Rightarrow> PointCloud2"

definition convert :: "node_env \<Rightarrow> string \<Rightarrow> PPointCloud \<Rightarrow> (pc2_error + PointCloud2) option" where
  "convert e layout cld =
     (if layout = ''compact'' then makeCompactPointCloud2 (big_endian e) cld else Some (Inr (toROSMsg e cld)))"

text \<open>
  The first half of \<^verbatim>\<open>lidarCallback\<close>: \<open>t\<close> are the clock readings around the conversion. The
  outer \<^term>\<open>None\<close> is undefined behaviour, the left summand an exception.
\<close>

definition push_cloud :: "PointCloud2 \<Rightarrow> node \<Rightarrow> node" where
  "push_cloud msg n =
     (case mb_step (EPush msg) (cloudPublishMailbox n) of
        None \<Rightarrow> n
      | Some m \<Rightarrow>
          (let r = fst (mb_push msg (box (cloudPublishMailbox n)));
               n = n\<lparr>cloudPublishMailbox := m\<rparr>;
               n = (if r \<noteq> KStopped then n\<lparr>cloudsEnqueued := cloudsEnqueued n + 1\<rparr> else n)
           in if r = KReplaced then n\<lparr>cloudQueueOverwrites := cloudQueueOverwrites n + 1\<rparr> else n))"

definition publish_points ::
  "node_env \<Rightarrow> PPointCloud option \<Rightarrow> fp \<Rightarrow> int \<times> int \<Rightarrow> node \<Rightarrow> (node_exn + node) option" where
  "publish_points e cld tstamp t n =
     (case cld of
        None \<Rightarrow> Some (Inr (n\<lparr>nd_emptyCloudDrops := nd_emptyCloudDrops n + 1\<rparr>))
      | Some c \<Rightarrow>
          if cld_points c = [] then Some (Inr (n\<lparr>nd_emptyCloudDrops := nd_emptyCloudDrops n + 1\<rparr>))
          else
            (let (dec, g) = ts_observe (cloudTimestampGuard n) tstamp;
                 n = n\<lparr>cloudTimestampGuard := g\<rparr>
             in if \<not> ts_accepted dec
                then Some (Inr (n\<lparr>cloudTimestampRegressions := cloudTimestampRegressions n + 1\<rparr>))
                else
                  (case convert e (pointcloudLayout n) c of
                     None \<Rightarrow> None
                   | Some (Inl x) \<Rightarrow> Some (Inl (ConversionFailed x))
                   | Some (Inr msg) \<Rightarrow> do {
                       (sec, nanosec) \<leftarrow> stamp_of tstamp;
                       let msg = msg\<lparr>out_stamp_sec := sec, out_stamp_nanosec := nat nanosec\<rparr>;
                       let (ns_total, most) = recordDuration (fst t) (snd t)
                             (cloudConversionTotalNs n, cloudConversionMaxNs n);
                       Some (Inr (push_cloud msg
                         (n\<lparr>cloudConversionTotalNs := ns_total, cloudConversionMaxNs := most\<rparr>)))
                     })))"

definition publish_raw :: "packet_msg list \<Rightarrow> bool \<Rightarrow> int \<times> int \<Rightarrow> node \<Rightarrow> node_exn + node" where
  "publish_raw sc ok t n =
     (if \<not> ok then Inl RawPublishFailed
      else
        (let (ns_total, most) = recordDuration (fst t) (snd t) (rawPublishTotalNs n, rawPublishMaxNs n)
         in Inr (n\<lparr>nd_raw := nd_raw n @ [sc], rawPublishTotalNs := ns_total, rawPublishMaxNs := most,
                   rawScansPublished := rawScansPublished n + 1\<rparr>)))"

record callback_args =
  cb_cloud :: "PPointCloud option"
  cb_timestamp :: fp
  cb_scan :: "packet_msg list"
  cb_conversion :: "int \<times> int"
  cb_raw_ok :: bool
  cb_raw_times :: "int \<times> int"

definition wants_points :: "node \<Rightarrow> bool" where
  "wants_points n \<longleftrightarrow> publishType n = ''both'' \<or> publishType n = ''points''"

definition wants_raw :: "node \<Rightarrow> bool" where
  "wants_raw n \<longleftrightarrow> publishType n = ''both'' \<or> publishType n = ''raw''"

definition lidarCallback :: "node_env \<Rightarrow> callback_args \<Rightarrow> node \<Rightarrow> (node_exn + node) option" where
  "lidarCallback e a n =
     (case (if wants_points n then publish_points e (cb_cloud a) (cb_timestamp a) (cb_conversion a) n
            else Some (Inr n)) of
        None \<Rightarrow> None
      | Some (Inl x) \<Rightarrow> Some (Inl x)
      | Some (Inr n) \<Rightarrow>
          Some (if wants_raw n then publish_raw (cb_scan a) (cb_raw_ok a) (cb_raw_times a) n else Inr n))"

text \<open>
  \<^verbatim>\<open>gpsCallback\<close> takes an \<^verbatim>\<open>int\<close> and is bound to a function of a \<^verbatim>\<open>double\<close>: its argument is
  converted, which is undefined when it does not fit. Its body is empty.
\<close>

definition gpsCallback :: "fp \<Rightarrow> unit option" where
  "gpsCallback time = map_option (\<lambda>timestamp. ()) (to_i32 time)"

section \<open>The publishing thread\<close>

text \<open>
  \<^verbatim>\<open>publishPointClouds\<close>: the wait of the mailbox, and what is done with a message taken from
  it; \<open>ok\<close> is whether \<^verbatim>\<open>publish\<close> returned without an exception.
\<close>

definition take_cloud :: "PointCloud2 mb_event \<Rightarrow> node \<Rightarrow> node option" where
  "take_cloud ev n =
     (if nd_output n \<noteq> None then None
      else
        (case mb_step ev (cloudPublishMailbox n) of
           None \<Rightarrow> None
         | Some m \<Rightarrow>
             (let n' = n\<lparr>cloudPublishMailbox := m\<rparr>
              in Some (if length (delivered m) = length (delivered (cloudPublishMailbox n)) then n'
                       else n'\<lparr>nd_output := Some (last (delivered m))\<rparr>))))"

definition publish_output :: "bool \<Rightarrow> int \<times> int \<Rightarrow> node \<Rightarrow> node option" where
  "publish_output ok t n =
     (case nd_output n of
        None \<Rightarrow> None
      | Some msg \<Rightarrow>
          (let n = (if ok then n\<lparr>cloudsPublished := cloudsPublished n + 1, nd_published := nd_published n @ [msg]\<rparr>
                    else n\<lparr>cloudPublishFailures := cloudPublishFailures n + 1\<rparr>);
               (ns_total, most) = recordDuration (fst t) (snd t) (cloudPublishTotalNs n, cloudPublishMaxNs n)
           in Some (n\<lparr>cloudPublishTotalNs := ns_total, cloudPublishMaxNs := most, nd_output := None\<rparr>)))"

text \<open>
  The thread by itself, until it returns: it publishes what it holds, calls \<^verbatim>\<open>wait_pop\<close>, or goes on
  after a notification. A thread that sleeps without one stays asleep. \<open>pub\<close> tells of a message
  whether it can be published, and when. Every turn uses up work: the message in hand, the
  pending one, or the last look at the mailbox.
\<close>

definition pub_work :: "node \<Rightarrow> nat" where
  "pub_work n = 2 * length (mb_held (box (cloudPublishMailbox n))) + (if nd_output n = None then 0 else 1) +
     (if waiter (cloudPublishMailbox n) \<in> {WOut, WNotified} then 1 else 0)"

lemma take_cloud_work:
  assumes "take_cloud ev n = Some n'" and "ev \<in> {ECall, EWake}" and "waiter (cloudPublishMailbox n) \<noteq> WBlocked"
  shows "pub_work n' < pub_work n"
proof -
  have w: "waiter (cloudPublishMailbox n) \<in> {WOut, WNotified}" "nd_output n = None"
    and n': "n' = (let m = mb_enter (cloudPublishMailbox n); n' = n\<lparr>cloudPublishMailbox := m\<rparr>
      in if length (delivered m) = length (delivered (cloudPublishMailbox n)) then n' else n'\<lparr>nd_output := Some (last (delivered m))\<rparr>)"
    using assms by (auto simp: take_cloud_def Let_def split: if_splits option.splits)
  show ?thesis
    using w unfolding n'
    by (auto simp: pub_work_def Let_def mb_enter_def mb_wait_pop_def mb_take_def mb_held_def split: option.splits)
qed

lemma publish_output_work: "publish_output ok t n = Some n' \<Longrightarrow> pub_work n = Suc (pub_work n')"
  by (cases ok) (auto simp: publish_output_def pub_work_def Let_def split: option.splits prod.splits)

function run_publisher :: "(PointCloud2 \<Rightarrow> bool \<times> int \<times> int) \<Rightarrow> node \<Rightarrow> node run" where
  "run_publisher pub n =
     (case nd_output n of
        Some msg \<Rightarrow>
          (case publish_output (fst (pub msg)) (snd (pub msg)) n of None \<Rightarrow> Undef | Some n \<Rightarrow> run_publisher pub n)
      | None \<Rightarrow>
          (case waiter (cloudPublishMailbox n) of
             WDone \<Rightarrow> Done n
           | WBlocked \<Rightarrow> Blocked
           | WOut \<Rightarrow> (case take_cloud ECall n of None \<Rightarrow> Undef | Some n \<Rightarrow> run_publisher pub n)
           | WNotified \<Rightarrow> (case take_cloud EWake n of None \<Rightarrow> Undef | Some n \<Rightarrow> run_publisher pub n)))"
  by pat_completeness auto

termination
  by (relation "measure (pub_work \<circ> snd)") (auto dest: take_cloud_work publish_output_work)

declare run_publisher.simps [simp del]

section \<open>The node as a system of threads\<close>

text \<open>
  A step of the driver's thread is a call of the callback; \<open>NStop\<close> is the call of
  \<^verbatim>\<open>stop\<close> in the destructor, which comes after the driver's threads have been joined. The
  control topic only requests the shutdown.
\<close>

definition node_control_callback :: "string \<Rightarrow> node \<Rightarrow> node" where
  "node_control_callback msg n =
     (if msg = ''hesailidar_stop'' \<or> msg = ''all_stop'' then n\<lparr>nd_running := False\<rparr> else n)"

datatype node_event = NCallback callback_args | NWait | NWake | NPublish bool "int \<times> int" | NControl string | NStop

fun node_step :: "node_env \<Rightarrow> node_event \<Rightarrow> node \<Rightarrow> node option" where
  "node_step e (NCallback a) n = (case lidarCallback e a n of Some (Inr n') \<Rightarrow> Some n' | _ \<Rightarrow> None)"
| "node_step e NWait n = take_cloud ECall n"
| "node_step e NWake n = take_cloud EWake n"
| "node_step e (NPublish ok t) n = publish_output ok t n"
| "node_step e (NControl msg) n = Some (node_control_callback msg n)"
| "node_step e NStop n = map_option (\<lambda>m. n\<lparr>cloudPublishMailbox := m\<rparr>) (mb_step EStop (cloudPublishMailbox n))"

fun node_run :: "node_env \<Rightarrow> node_event list \<Rightarrow> node \<Rightarrow> node option" where
  "node_run e [] n = Some n"
| "node_run e (ev # evs) n = Option.bind (node_step e ev n) (node_run e evs)"

end
