(* ===== verification/Node_Props.thy ===== *)
theory Node_Props
  imports Ros_Node
begin

text \<open>
  Properties of the ROS node: its counters account for every cloud, whatever the interleaving of
  the callback with the publishing thread; the stamp of a message is well-formed; after the stop
  the publishing thread ends.
\<close>

section \<open>Invariant\<close>

abbreviation mbx :: "node \<Rightarrow> PointCloud2 mbsys" where
  "mbx n \<equiv> cloudPublishMailbox n"

definition in_hand :: "node \<Rightarrow> PointCloud2 list" where
  "in_hand n = (case nd_output n of None \<Rightarrow> [] | Some v \<Rightarrow> [v])"

definition node_inv :: "node \<Rightarrow> nat \<Rightarrow> bool" where
  "node_inv n failed \<longleftrightarrow>
     mb_reach (mbx n) \<and>
     cloudsEnqueued n = of_nat (length (stored (mbx n))) \<and>
     cloudQueueOverwrites n = of_nat (overwritten (mbx n)) \<and>
     cloudsPublished n = of_nat (length (nd_published n)) \<and>
     cloudPublishFailures n = of_nat failed \<and>
     length (delivered (mbx n)) = length (nd_published n) + failed + length (in_hand n) \<and>
     subseq (nd_published n @ in_hand n) (delivered (mbx n)) \<and>
     (nd_output n \<noteq> None \<longrightarrow> waiter (mbx n) = WOut) \<and>
     rawScansPublished n = of_nat (length (nd_raw n))"

lemma node_inv_new: "node_inv (new_node p) 0"
  by (simp add: node_inv_def new_node_def mb_init_def mb_reach.start [unfolded mb_init_def] in_hand_def)

lemma node_reach: "node_inv n k \<Longrightarrow> mb_step ev (mbx n) = Some m \<Longrightarrow> mb_reach m"
  unfolding node_inv_def by (blast intro: mb_reach.step)

text \<open>A push.\<close>

lemma mb_push_step:
  assumes "mb_push v (box m) = (r, b)"
  shows "\<exists>m'. mb_step (EPush v) m = Some m' \<and> delivered m' = delivered m \<and>
    (waiter m = WOut \<longrightarrow> waiter m' = WOut) \<and> box m' = b \<and>
    stored m' = stored m @ (if r = KStopped then [] else [v]) \<and>
    overwritten m' = overwritten m + (if r = KReplaced then 1 else 0)"
  using assms by (cases r) auto

lemma push_cloud_inv:
  assumes "node_inv n k"
  shows "node_inv (push_cloud msg n) k"
proof -
  obtain r b where r: "mb_push msg (box (mbx n)) = (r, b)" by (cases "mb_push msg (box (mbx n))")
  obtain m' where m': "mb_step (EPush msg) (mbx n) = Some m'" "delivered m' = delivered (mbx n)"
    "waiter (mbx n) = WOut \<longrightarrow> waiter m' = WOut"
    "stored m' = stored (mbx n) @ (if r = KStopped then [] else [msg])"
    "overwritten m' = overwritten (mbx n) + (if r = KReplaced then 1 else 0)"
    using mb_push_step [OF r] by blast
  have "mb_reach m'" using assms m'(1) by (rule node_reach)
  with assms m' r show ?thesis
    by (cases r) (auto simp: node_inv_def push_cloud_def in_hand_def simp del: mb_step.simps)
qed

text \<open>What the first half of the callback does when it returns: it counts the cloud or pushes it.\<close>

lemma publish_points_cases:
  assumes "publish_points e cld ts t n = Some (Inr n')"
  obtains "n' = n\<lparr>nd_emptyCloudDrops := nd_emptyCloudDrops n + 1\<rparr>"
  | g where "n' = n\<lparr>cloudTimestampGuard := g, cloudTimestampRegressions := cloudTimestampRegressions n + 1\<rparr>"
  | c m sec nanosec g a b where "cld = Some c" "convert e (pointcloudLayout n) c = Some (Inr m)"
      "stamp_of ts = Some (sec, nanosec)"
      "n' = push_cloud (m\<lparr>out_stamp_sec := sec, out_stamp_nanosec := nat nanosec\<rparr>)
         (n\<lparr>cloudTimestampGuard := g, cloudConversionTotalNs := a, cloudConversionMaxNs := b\<rparr>)"
proof -
  obtain a b where rd: "recordDuration (fst t) (snd t) (cloudConversionTotalNs n, cloudConversionMaxNs n) = (a, b)"
    by (cases "recordDuration (fst t) (snd t) (cloudConversionTotalNs n, cloudConversionMaxNs n)")
  obtain dec g where g: "ts_observe (cloudTimestampGuard n) ts = (dec, g)"
    by (cases "ts_observe (cloudTimestampGuard n) ts")
  show ?thesis
  proof (cases "cld = None \<or> (\<exists>c. cld = Some c \<and> cld_points c = [])")
    case True
    with assms show ?thesis by (intro that(1)) (auto simp: publish_points_def)
  next
    case ne: False
    then obtain c where c: "cld = Some c" "cld_points c \<noteq> []" by auto
    show ?thesis
    proof (cases "ts_accepted dec")
      case False
      with assms c g show ?thesis by (intro that(2) [of g]) (simp add: publish_points_def)
    next
      case True
      with assms c g obtain msg where "convert e (pointcloudLayout n) c = Some (Inr msg)"
        by (auto simp: publish_points_def Let_def split: option.splits sum.splits)
      with True assms c g rd show ?thesis
        by (auto simp: publish_points_def bind_eq_Some_conv Let_def intro: that(3))
    qed
  qed
qed

definition waits :: "node \<Rightarrow> bool" where
  "waits n \<longleftrightarrow> \<not> mb_stopped (box (mbx n))"

lemma push_cloud_counts:
  "waits n \<Longrightarrow> cloudsEnqueued (push_cloud msg n) = cloudsEnqueued n + 1 \<and>
     nd_emptyCloudDrops (push_cloud msg n) = nd_emptyCloudDrops n \<and>
     cloudTimestampRegressions (push_cloud msg n) = cloudTimestampRegressions n \<and> waits (push_cloud msg n)"
  by (auto simp: waits_def push_cloud_def mb_push_def Let_def)

lemma push_cloud_type [simp]: "publishType (push_cloud msg n) = publishType n"
  by (simp add: push_cloud_def Let_def split: option.splits)

definition handled :: "node \<Rightarrow> u64" where
  "handled n = nd_emptyCloudDrops n + cloudTimestampRegressions n + cloudsEnqueued n"

lemma publish_points_inv:
  assumes "node_inv n k" and "publish_points e cld ts t n = Some (Inr n')"
  shows "node_inv n' k \<and> publishType n' = publishType n \<and> (waits n \<longrightarrow> waits n' \<and> handled n' = handled n + 1)"
  using assms(2)
proof (cases rule: publish_points_cases)
  case (3 c m sec nanosec g a b)
  let ?msg = "m\<lparr>out_stamp_sec := sec, out_stamp_nanosec := nat nanosec\<rparr>"
  let ?n = "n\<lparr>cloudTimestampGuard := g, cloudConversionTotalNs := a, cloudConversionMaxNs := b\<rparr>"
  have "node_inv ?n k" using assms(1) by (simp add: node_inv_def in_hand_def)
  moreover have "waits ?n = waits n" by (simp add: waits_def)
  ultimately show ?thesis
    using 3(4) push_cloud_inv push_cloud_counts [of ?n ?msg] by (auto simp: handled_def)
qed (use assms(1) in \<open>auto simp: node_inv_def in_hand_def waits_def handled_def\<close>)

lemma callback_inv:
  assumes "node_inv n k" and "lidarCallback e a n = Some (Inr n')"
  shows "node_inv n' k \<and> publishType n' = publishType n \<and>
    (waits n \<longrightarrow> waits n' \<and> handled n' = handled n + (if wants_points n then 1 else 0))"
proof -
  obtain n1 where n1: "(if wants_points n then publish_points e (cb_cloud a) (cb_timestamp a) (cb_conversion a) n
      else Some (Inr n)) = Some (Inr n1)"
    and fin: "(if wants_raw n1 then publish_raw (cb_scan a) (cb_raw_ok a) (cb_raw_times a) n1 else Inr n1) = Inr n'"
    using assms(2) by (auto simp: lidarCallback_def split: option.splits sum.splits)
  have i1: "node_inv n1 k \<and> publishType n1 = publishType n \<and>
      (waits n \<longrightarrow> waits n1 \<and> handled n1 = handled n + (if wants_points n then 1 else 0))"
    using n1 assms(1) publish_points_inv [OF assms(1)] by (auto split: if_splits)
  then have "node_inv n' k \<and> publishType n' = publishType n1 \<and> waits n' = waits n1 \<and> handled n' = handled n1"
    using fin by (auto simp: publish_raw_def node_inv_def in_hand_def waits_def handled_def Let_def
        split: if_splits prod.splits)
  with i1 show ?thesis by simp
qed

text \<open>The publishing thread.\<close>

lemma mb_enter_delivered:
  assumes "mb_inv m"
  shows "(delivered (mb_enter m) = delivered m \<and> stored (mb_enter m) = stored m \<and> overwritten (mb_enter m) = overwritten m) \<or>
    (\<exists>v. delivered (mb_enter m) = delivered m @ [v] \<and> waiter (mb_enter m) = WOut \<and> stored (mb_enter m) = stored m \<and>
      overwritten (mb_enter m) = overwritten m)"
  by (auto simp: mb_enter_def split: option.splits prod.splits)

lemma take_cloud_inv:
  assumes inv: "node_inv n k" and st: "take_cloud ev n = Some n'" and ev: "ev \<in> {ECall, EWake}"
  shows "node_inv n' k"
proof -
  obtain m where m: "mb_step ev (mbx n) = Some m" and none: "nd_output n = None"
    and n': "n' = (if length (delivered m) = length (delivered (mbx n)) then n\<lparr>cloudPublishMailbox := m\<rparr>
      else n\<lparr>cloudPublishMailbox := m, nd_output := Some (last (delivered m))\<rparr>)"
    using st by (auto simp: take_cloud_def Let_def split: option.splits if_splits)
  have e: "m = mb_enter (mbx n)" using m ev by (auto split: if_splits)
  have r: "mb_reach m" using inv m by (rule node_reach)
  have "mb_inv (mbx n)" using inv mb_reach_inv by (auto simp: node_inv_def)
  from mb_enter_delivered [OF this] show ?thesis
  proof (elim disjE exE)
    assume "delivered (mb_enter (mbx n)) = delivered (mbx n) \<and> stored (mb_enter (mbx n)) = stored (mbx n) \<and>
      overwritten (mb_enter (mbx n)) = overwritten (mbx n)"
    with e n' r none inv show ?thesis by (simp add: node_inv_def in_hand_def)
  next
    fix v
    assume d: "delivered (mb_enter (mbx n)) = delivered (mbx n) @ [v] \<and> waiter (mb_enter (mbx n)) = WOut \<and>
      stored (mb_enter (mbx n)) = stored (mbx n) \<and> overwritten (mb_enter (mbx n)) = overwritten (mbx n)"
    have "subseq (nd_published n @ [v]) (delivered (mbx n) @ [v])"
      using inv none by (simp add: node_inv_def in_hand_def)
    with d e n' r none inv show ?thesis by (simp add: node_inv_def in_hand_def)
  qed
qed

lemma publish_output_inv:
  assumes inv: "node_inv n k" and st: "publish_output ok t n = Some n'"
  shows "\<exists>k'. node_inv n' k'"
proof -
  obtain msg where msg: "nd_output n = Some msg" using st by (auto simp: publish_output_def split: option.splits)
  have sub: "subseq (nd_published n @ [msg]) (delivered (mbx n))" using inv msg by (simp add: node_inv_def in_hand_def)
  moreover have "subseq (nd_published n) (nd_published n @ [msg])" by (rule subseq_rev_drop_many) simp
  ultimately have "subseq (nd_published n) (delivered (mbx n))" using subseq_order.order_trans by blast
  with sub have "node_inv n' (if ok then k else Suc k)"
    using inv msg st by (auto simp: publish_output_def node_inv_def in_hand_def Let_def split: prod.splits)
  then show ?thesis by blast
qed

text \<open>A whole execution.\<close>

definition is_callback :: "node_event \<Rightarrow> bool" where
  "is_callback ev \<longleftrightarrow> (case ev of NCallback a \<Rightarrow> True | _ \<Rightarrow> False)"

lemma take_cloud_rest:
  assumes "take_cloud ev n = Some n'" and "ev \<in> {ECall, EWake}"
  shows "publishType n' = publishType n \<and> waits n' = waits n \<and> handled n' = handled n"
  using assms
  by (auto simp: take_cloud_def waits_def handled_def mb_enter_def mb_wait_pop_def mb_take_def Let_def
      split: option.splits if_splits)

lemma node_step_inv:
  assumes inv: "node_inv n k" and st: "node_step e ev n = Some n'"
  shows "(\<exists>k'. node_inv n' k') \<and> publishType n' = publishType n \<and>
    (waits n \<and> ev \<noteq> NStop \<longrightarrow>
      waits n' \<and> handled n' = handled n + (if is_callback ev \<and> wants_points n then 1 else 0))"
proof (cases ev)
  case (NCallback a)
  with st have "lidarCallback e a n = Some (Inr n')" by (auto split: option.splits sum.splits)
  from callback_inv [OF inv this] NCallback show ?thesis by (auto simp: is_callback_def)
next
  case NWait
  with st take_cloud_inv [OF inv] take_cloud_rest show ?thesis by (fastforce simp: is_callback_def)
next
  case NWake
  with st take_cloud_inv [OF inv] take_cloud_rest show ?thesis by (fastforce simp: is_callback_def)
next
  case (NPublish ok t)
  with st have "publish_output ok t n = Some n'" by simp
  with publish_output_inv [OF inv this] NPublish show ?thesis
    by (cases ok) (auto simp: is_callback_def publish_output_def waits_def handled_def Let_def
        split: option.splits prod.splits)
next
  case (NControl msg)
  with st have "n' = n \<or> n' = n\<lparr>nd_running := False\<rparr>" by (auto simp: node_control_callback_def)
  with inv NControl show ?thesis
    by (auto simp: is_callback_def node_inv_def in_hand_def waits_def handled_def)
next
  case NStop
  with st obtain m where m: "mb_step EStop (mbx n) = Some m" "n' = n\<lparr>cloudPublishMailbox := m\<rparr>"
    by (auto simp del: mb_step.simps)
  have r: "mb_reach m" using inv m(1) by (rule node_reach)
  have "stored m = stored (mbx n)" "delivered m = delivered (mbx n)" "overwritten m = overwritten (mbx n)"
    "waiter (mbx n) = WOut \<longrightarrow> waiter m = WOut"
    using m(1) by auto
  with r m(2) inv NStop show ?thesis by (auto simp: node_inv_def in_hand_def)
qed

lemma node_run_inv:
  assumes "node_inv n k" and "node_run e evs n = Some n'"
  shows "(\<exists>k'. node_inv n' k') \<and> publishType n' = publishType n \<and>
    (waits n \<and> NStop \<notin> set evs \<and> wants_points n \<longrightarrow>
      handled n' = handled n + of_nat (length (filter is_callback evs)))"
  using assms
proof (induction evs arbitrary: n k)
  case (Cons ev evs)
  then obtain n1 where n1: "node_step e ev n = Some n1" "node_run e evs n1 = Some n'"
    by (auto simp: bind_eq_Some_conv simp del: node_step.simps)
  from node_step_inv [OF Cons.prems(1) n1(1)] obtain k1 where k1: "node_inv n1 k1" by blast
  have w: "wants_points n1 = wants_points n"
    using node_step_inv [OF Cons.prems(1) n1(1)] by (simp add: wants_points_def)
  show ?case
    using node_step_inv [OF Cons.prems(1) n1(1)] Cons.IH [OF k1 n1(2)] w by (auto simp: algebra_simps)
qed auto

section \<open>The stamp\<close>

text \<open>The fractional part of a \<^verbatim>\<open>double\<close> is again one, and it is not rounded up to 1.\<close>

lemma double_frac:
  assumes "rnd binary64 m = m" and "0 \<le> m"
  defines "f \<equiv> m - of_int \<lfloor>m\<rfloor>"
  shows "rnd binary64 f = f" and "0 \<le> f" and "f \<le> 1 - 1 / 2 ^ 53"
proof -
  have f01: "0 \<le> f" "f < 1" unfolding f_def by linarith+
  show "0 \<le> f" by (rule f01)
  have "rnd binary64 f = f \<and> f \<le> 1 - 1 / 2 ^ 53"
  proof (cases "m < 1 / 2")
    case True
    with assms(2) have "\<lfloor>m\<rfloor> = 0" by (simp add: floor_eq_iff)
    with True assms(1) show ?thesis by (simp add: f_def)
  next
    case False
    then have pos: "0 < m" by linarith
    have "pow2 (- 1) \<le> m" using False by (simp add: power_int_minus)
    then have "- 1 \<le> rat_expo m" using rat_expo_ge_iff [OF pos] by blast
    then have e: "- 53 \<le> ulp_expo binary64 \<bar>m\<bar>" using pos by (simp add: ulp_expo_def binary64_def)
    define u where "u = ulp_expo binary64 \<bar>m\<bar>"
    have m: "m = of_int (rne (m / pow2 u)) * pow2 u"
      using assms(1) pos by (simp add: rnd_def Let_def u_def)
    have "pow2 u = of_int (2 ^ nat (u + 53)) * pow2 (- 53)"
      using e pow2_add [of "u + 53" "- 53"] pow2_int [of "u + 53"] by (simp add: u_def)
    then have "of_int (rne (m / pow2 u)) * pow2 u =
        of_int (rne (m / pow2 u) * 2 ^ nat (u + 53)) * pow2 (- 53)" by simp
    with m have "m = of_int (rne (m / pow2 u) * 2 ^ nat (u + 53)) * pow2 (- 53)" by (rule trans)
    then obtain j where j: "m = of_int j * pow2 (- 53)" by blast
    define i where "i = j - \<lfloor>m\<rfloor> * 2 ^ 53"
    have p53: "pow2 (- 53) = 1 / of_int (2 ^ 53)" by (simp add: power_int_minus field_simps)
    have fi: "f = of_int i * pow2 (- 53)"
      using arg_cong [OF j, of "\<lambda>x. x - of_int \<lfloor>m\<rfloor>"]
      by (simp add: f_def i_def p53 diff_divide_distrib)
    then have "of_int i = f * of_int (2 ^ 53)" by (simp add: p53)
    then have "0 \<le> (of_int i :: rat)" "(of_int i :: rat) < of_int (2 ^ 53)" using f01 by simp_all
    then have i: "0 \<le> i" "i < 2 ^ 53" by (simp_all only: of_int_0_le_iff of_int_less_iff)
    have "rnd binary64 f = f" unfolding fi by (rule rnd_repr) (use i in \<open>simp_all add: binary64_def\<close>)
    moreover have "(of_int i :: rat) \<le> of_int (2 ^ 53 - 1)" using i by (simp only: of_int_le_iff)
    then have "f \<le> 1 - 1 / 2 ^ 53" using fi by (simp add: p53)
    ultimately show ?thesis by blast
  qed
  then show "rnd binary64 f = f" "f \<le> 1 - 1 / 2 ^ 53" by simp_all
qed

lemma billion_rounds_down: "rnd binary64 ((1 - 1 / 2 ^ 53) * 1000000000) < 1000000000"
  by code_simp

lemma trunc_nonneg:
  assumes "fp_of_fmt F a" "isfinite a" "0 \<le> fval a"
  shows "fp_trunc a = Some \<lfloor>fval a\<rfloor>"
  using assms by (cases a) auto

lemma nanoseconds:
  assumes "rnd binary64 f = f" and "0 \<le> f" and "f \<le> 1 - 1 / 2 ^ 53" and "isfinite d" and "fval d = f"
  shows "\<exists>ns. to_u32 (d_mul d (d_int 1000000000)) = Some ns \<and> 0 \<le> ns \<and> ns \<le> 999999999 \<and>
    \<bar>of_int ns - f * 1000000000\<bar> \<le> 1"
proof -
  let ?x = "f * 1000000000" and ?p = "d_mul d (d_int 1000000000)"
  define x where "x = f * 1000000000"
  have b: "fval (d_int 1000000000) = 1000000000" "isfinite (d_int 1000000000)" by simp_all
  have x: "0 \<le> x" "x \<le> (1 - 1 / 2 ^ 53) * 1000000000" "x < 1000000000"
    using assms(2,3) by (simp_all add: x_def)
  have "\<bar>x\<bar> \<le> pow2 30" using x by simp
  then have p: "isfinite ?p" "fval ?p = rnd binary64 x"
    using fp_mul_bounded [of binary64 d "d_int 1000000000" 30] assms(4,5) b
    by (simp_all add: binary64_def x_def)
  obtain z where "?p = fp_round binary64 z x" using fp_mul_finite [OF assms(4) b(2), of binary64] assms(5) b(1)
    by (auto simp: x_def)
  then have fmt: "fp_of_fmt binary64 ?p" using fp_round_of_fmt [of binary64 z x] by simp
  let ?K = "\<lfloor>x\<rfloor>"
  have K: "of_int ?K \<le> x" "x < of_int (?K + 1)" using floor_correct [of x] by blast+
  have "0 \<le> ?K" "?K < 1000000000" using x by (simp_all add: floor_less_iff)
  then have rb: "of_int ?K \<le> rnd binary64 x" "rnd binary64 x \<le> of_int (?K + 1)"
    using rnd_between [of binary64 ?K x "?K + 1"] K by (simp_all add: binary64_def)
  have lt: "rnd binary64 x < 1000000000"
    using r64.mono [OF x(2)] billion_rounds_down by linarith
  have nn: "0 \<le> rnd binary64 x" using x(1) by (rule r64.nonneg)
  let ?ns = "\<lfloor>rnd binary64 x\<rfloor>"
  have "fp_trunc ?p = Some ?ns" using trunc_nonneg [OF fmt p(1)] p(2) nn by simp
  moreover have ns: "0 \<le> ?ns" "?ns \<le> 999999999" using nn lt by (simp_all add: floor_le_iff)
  ultimately have "to_u32 ?p = Some ?ns" by (simp add: fp_to_int_def)
  moreover have "?K \<le> ?ns" "?ns \<le> ?K + 1" using rb by (simp_all add: le_floor_iff) (metis floor_mono floor_of_int of_int_1 of_int_add)
  then have "of_int ?K \<le> (of_int ?ns :: rat)" "(of_int ?ns :: rat) \<le> of_int ?K + 1" by linarith+
  then have "\<bar>of_int ?ns - x\<bar> \<le> 1" unfolding abs_le_iff using K by simp linarith
  ultimately show ?thesis using ns by (auto simp: x_def)
qed

lemma stamp_of_double:
  assumes fmt: "fp_of_fmt binary64 t" "isfinite t" and pos: "0 \<le> fval t" and lt: "fval t < 2 ^ 31"
  shows "\<exists>sec ns. stamp_of t = Some (sec, ns) \<and> sec = \<lfloor>fval t\<rfloor> \<and> 0 \<le> ns \<and> ns \<le> 999999999 \<and>
    \<bar>of_int sec + of_int ns / 1000000000 - fval t\<bar> \<le> 1 / 1000000000"
proof -
  define sec where "sec = \<lfloor>fval t\<rfloor>"
  define f where "f = fval t - of_int sec"
  have r: "rnd binary64 (fval t) = fval t"
    using fmt pos by (cases t) (auto simp: rnd_minus split: if_splits)
  note fr = double_frac [OF r pos, folded sec_def, folded f_def]
  have s: "0 \<le> sec" "sec \<le> 2147483647" using pos lt by (simp_all add: sec_def floor_le_iff)
  have to: "to_i32 t = Some sec"
    using trunc_nonneg [OF fmt pos] s by (simp add: fp_to_int_def sec_def)
  have ds: "isfinite (d_int sec)" "fval (d_int sec) = of_int sec" using s by simp_all
  obtain z where z: "d_sub t (d_int sec) = fp_round binary64 z f"
    using fp_sub_finite [OF fmt(2) ds(1), of binary64] ds(2) by (auto simp: f_def)
  have "\<bar>f\<bar> \<le> pow2 0" using fr(2,3) by simp
  then have d: "isfinite (d_sub t (d_int sec))" "fval (d_sub t (d_int sec)) = f"
    using fp_round_finite(1,2) [of binary64 f 0 z] z fr(1) by (simp_all add: binary64_def)
  from nanoseconds [OF fr d] obtain ns where ns: "to_u32 (d_mul (d_sub t (d_int sec)) (d_int 1000000000)) = Some ns"
    "0 \<le> ns" "ns \<le> 999999999" "\<bar>of_int ns - f * 1000000000\<bar> \<le> 1" by blast
  have "\<bar>of_int sec + of_int ns / 1000000000 - fval t\<bar> = \<bar>of_int ns - f * 1000000000\<bar> / 1000000000"
    by (simp add: f_def field_simps abs_div_pos [symmetric] del: abs_div_pos)
  also have "\<dots> \<le> 1 / 1000000000" using ns(4) by (simp add: divide_right_mono)
  finally show ?thesis using to ns by (simp add: stamp_of_def sec_def)
qed

section \<open>Properties\<close>

text \<open>
  C15. Every cloud is accounted for: in every execution of the callback and the publishing thread
  the enqueued clouds are the published ones, those whose publication failed, those that were
  overwritten or discarded at the stop, the one in the mailbox and the one being published; the
  published clouds are a subsequence of the enqueued ones; and before the stop, as long as clouds
  are wanted, every callback was dropped as empty, rejected by its timestamp, or enqueued. All
  counts are modulo \<open>2 ^ 64\<close>.
\<close>

theorem node_accounting:
  assumes "node_run e evs (new_node p) = Some n"
  shows "cloudsEnqueued n = cloudsPublished n + cloudPublishFailures n + cloudQueueOverwrites n +
      of_nat (discarded (cloudPublishMailbox n)) + of_nat (length (mb_held (box (cloudPublishMailbox n)))) +
      (if nd_output n = None then 0 else 1) \<and>
    subseq (nd_published n) (stored (cloudPublishMailbox n)) \<and>
    cloudsPublished n = of_nat (length (nd_published n)) \<and> rawScansPublished n = of_nat (length (nd_raw n)) \<and>
    (publish_type p \<in> {''both'', ''points''} \<and> NStop \<notin> set evs \<longrightarrow>
      of_nat (length (filter is_callback evs)) =
        nd_emptyCloudDrops n + cloudTimestampRegressions n + cloudsEnqueued n)"
proof -
  from node_run_inv [OF node_inv_new assms] obtain k where inv: "node_inv n k" by blast
  have h: "publish_type p \<in> {''both'', ''points''} \<and> NStop \<notin> set evs \<longrightarrow>
      of_nat (length (filter is_callback evs)) = handled n"
    using node_run_inv [OF node_inv_new assms]
    by (auto simp: waits_def wants_points_def new_node_def handled_def mb_init_def mb_new_def)
  have mb: "mb_inv (mbx n)" using inv mb_reach_inv by (auto simp: node_inv_def)
  then have "length (stored (mbx n)) = length (delivered (mbx n)) + overwritten (mbx n) +
      discarded (mbx n) + length (mb_held (box (mbx n)))" and "subseq (delivered (mbx n)) (stored (mbx n))"
    by (auto simp: mb_inv_def subseq_app)
  moreover have "subseq (nd_published n) (nd_published n @ in_hand n)" by (rule subseq_rev_drop_many) simp
  then have "subseq (nd_published n) (delivered (mbx n))"
    using inv subseq_order.order_trans by (auto simp: node_inv_def)
  ultimately show ?thesis
    using inv h subseq_order.order_trans
    by (auto simp: node_inv_def handled_def in_hand_def algebra_simps split: option.splits)
qed

definition demo_points :: PPointCloud where
  "demo_points = \<lparr>cld_frame_id = ''hesai_lidar'', cld_width = 1, cld_height = 1, cld_is_dense = True,
     cld_points = [\<lparr>px = 1, py = 2, pz = 3, pintensity = 4, ptimestamp = 5, pring = 6\<rparr>]\<rparr>"

definition demo_callback :: "rat \<Rightarrow> node_event" where
  "demo_callback t = NCallback \<lparr>cb_cloud = Some demo_points, cb_timestamp = Fin False t, cb_scan = [],
     cb_conversion = (0, 5), cb_raw_ok = True, cb_raw_times = (0, 7)\<rparr>"

definition demo_node_env :: node_env where
  "demo_node_env = \<lparr>big_endian = False, toROSMsg = (\<lambda>c. \<lparr>out_frame_id = [], out_stamp_sec = 0,
     out_stamp_nanosec = 0, out_height = 0, out_width = 0, out_fields = [], out_is_bigendian = False,
     out_point_step = 0, out_row_step = 0, out_data = [], out_is_dense = True\<rparr>)\<rparr>"

definition demo_params :: node_params where
  "demo_params = default_params\<lparr>publish_type := ''both'', pointcloud_layout := ''legacy_pcl''\<rparr>"

definition demo_schedule :: "node_event list" where
  "demo_schedule = [demo_callback 1, demo_callback 2, NWait, NPublish True (0, 9), demo_callback (1 / 2)]"

lemma demo_schedule_runs: "node_run demo_node_env demo_schedule (new_node demo_params) \<noteq> None"
  by code_simp

theorem node_accounting_witness:
  "\<exists>n. node_run demo_node_env demo_schedule (new_node demo_params) = Some n \<and>
     nd_emptyCloudDrops n + cloudTimestampRegressions n + cloudsEnqueued n = 3 \<and>
     subseq (nd_published n) (stored (cloudPublishMailbox n))"
proof -
  obtain n where n: "node_run demo_node_env demo_schedule (new_node demo_params) = Some n"
    using demo_schedule_runs by blast
  from node_accounting [OF n] n show ?thesis
    by (auto simp: demo_schedule_def demo_callback_def demo_params_def default_params_def is_callback_def)
qed

text \<open>
  C23. The stamp of a message: for a non-negative timestamp below \<open>2 ^ 31\<close> seconds both
  conversions are defined, the nanoseconds are less than a second in spite of the rounding of
  the product, and the stamp is the timestamp to within a nanosecond.
\<close>

theorem node_stamp_bounds:
  assumes "fp_of_fmt binary64 t" "isfinite t" and "0 \<le> fval t" and "fval t < 2 ^ 31"
  shows "\<exists>sec ns. stamp_of t = Some (sec, ns) \<and> sec = \<lfloor>fval t\<rfloor> \<and> 0 \<le> ns \<and> ns < 1000000000 \<and>
    \<bar>of_int sec + of_int ns / 1000000000 - fval t\<bar> \<le> 1 / 1000000000"
  using stamp_of_double [OF assms] by force

theorem node_stamp_bounds_witness:
  "\<exists>sec ns. stamp_of (Fin False (1700000000 + 1 / 4)) = Some (sec, ns) \<and> sec = 1700000000 \<and> ns < 1000000000"
proof -
  have "fp_of_fmt binary64 (Fin False (1700000000 + 1 / 4))" by code_simp
  moreover have "\<lfloor>1700000000 + 1 / 4 :: rat\<rfloor> = 1700000000" by (simp add: floor_eq_iff)
  ultimately show ?thesis using node_stamp_bounds [of "Fin False (1700000000 + 1 / 4)"] by auto
qed

text \<open>The publishing thread after the stop.\<close>

definition own_step :: "node_event \<Rightarrow> bool" where
  "own_step ev \<longleftrightarrow> (case ev of NWait \<Rightarrow> True | NWake \<Rightarrow> True | NPublish ok t \<Rightarrow> True | _ \<Rightarrow> False)"

lemma stopped_awake:
  assumes "node_inv n k" and "\<not> waits n"
  shows "waiter (mbx n) \<noteq> WBlocked" "mb_held (box (mbx n)) = []" "pub_work n \<le> 2"
    "pub_work n = 0 \<longleftrightarrow> waiter (mbx n) = WDone"
proof -
  have mb: "mb_inv (mbx n)" using assms(1) mb_reach_inv by (auto simp: node_inv_def)
  then show w: "waiter (mbx n) \<noteq> WBlocked" and h: "mb_held (box (mbx n)) = []"
    using assms(2) by (auto simp: mb_inv_def mb_ready_def waits_def mb_ok_def mb_held_def)
  show "pub_work n \<le> 2" by (simp add: pub_work_def h)
  have "waiter (mbx n) = WDone \<longrightarrow> nd_output n = None" using assms(1) by (auto simp: node_inv_def)
  then show "pub_work n = 0 \<longleftrightarrow> waiter (mbx n) = WDone" using w h by (cases "waiter (mbx n)") (auto simp: pub_work_def)
qed

lemma callback_stopped:
  assumes "lidarCallback e a n = Some (Inr n')" and "\<not> waits n"
  shows "mbx n' = mbx n \<and> nd_output n' = nd_output n"
proof -
  have push: "mbx (push_cloud m n1) = mbx n1 \<and> nd_output (push_cloud m n1) = nd_output n1" if "\<not> waits n1" for m n1
    using that by (simp add: push_cloud_def waits_def mb_push_def)
  obtain n1 where n1: "(if wants_points n then publish_points e (cb_cloud a) (cb_timestamp a) (cb_conversion a) n
      else Some (Inr n)) = Some (Inr n1)"
    and fin: "(if wants_raw n1 then publish_raw (cb_scan a) (cb_raw_ok a) (cb_raw_times a) n1 else Inr n1) = Inr n'"
    using assms(1) by (auto simp: lidarCallback_def split: option.splits sum.splits)
  have "mbx n1 = mbx n \<and> nd_output n1 = nd_output n"
  proof (cases "wants_points n")
    case True
    with n1 have "publish_points e (cb_cloud a) (cb_timestamp a) (cb_conversion a) n = Some (Inr n1)" by simp
    then show ?thesis
    proof (cases rule: publish_points_cases)
      case (3 c m sec nanosec g x y)
      let ?n = "n\<lparr>cloudTimestampGuard := g, cloudConversionTotalNs := x, cloudConversionMaxNs := y\<rparr>"
      have "\<not> waits ?n" using assms(2) by (simp add: waits_def)
      then show ?thesis unfolding 3(4) using push [of ?n] by simp
    qed simp_all
  qed (use n1 in simp)
  then show ?thesis using fin by (auto simp: publish_raw_def Let_def split: if_splits prod.splits)
qed

lemma stopped_step:
  assumes inv: "node_inv n k" and stop: "\<not> waits n" and st: "node_step e ev n = Some n'"
  shows "\<not> waits n' \<and> pub_work n' + (if own_step ev then 1 else 0) \<le> pub_work n"
proof (cases ev)
  case (NCallback a)
  with st have "lidarCallback e a n = Some (Inr n')" by (auto split: option.splits sum.splits)
  from callback_stopped [OF this stop] stop NCallback show ?thesis by (simp add: waits_def pub_work_def own_step_def)
next
  case NWait
  with st have "take_cloud ECall n = Some n'" by simp
  with take_cloud_work [OF this] take_cloud_rest [OF this] stopped_awake(1) [OF inv stop] stop NWait
  show ?thesis by (simp add: own_step_def)
next
  case NWake
  with st have "take_cloud EWake n = Some n'" by simp
  with take_cloud_work [OF this] take_cloud_rest [OF this] stopped_awake(1) [OF inv stop] stop NWake
  show ?thesis by (simp add: own_step_def)
next
  case (NPublish ok t)
  with st have p: "publish_output ok t n = Some n'" by simp
  then have "mbx n' = mbx n" by (cases ok) (auto simp: publish_output_def Let_def split: option.splits prod.splits)
  with publish_output_work [OF p] stop NPublish show ?thesis by (simp add: own_step_def waits_def)
next
  case (NControl msg)
  with st have "n' = n \<or> n' = n\<lparr>nd_running := False\<rparr>" by (auto simp: node_control_callback_def)
  with stop NControl show ?thesis by (auto simp: own_step_def waits_def pub_work_def)
next
  case NStop
  have "notify (waiter (mbx n)) = waiter (mbx n)" using stopped_awake(1) [OF inv stop] by (cases "waiter (mbx n)") auto
  moreover have "mb_held (mb_stop (box (mbx n))) = []" "mb_stopped (mb_stop (box (mbx n)))" using mb.stop_closes by blast+
  ultimately show ?thesis using st NStop stop by (auto simp: own_step_def waits_def pub_work_def)
qed

lemma stopped_run:
  assumes "node_inv n k" and "\<not> waits n" and "node_run e evs n = Some n'"
  shows "(\<exists>k'. node_inv n' k') \<and> \<not> waits n' \<and> pub_work n' + length (filter own_step evs) \<le> pub_work n"
  using assms
proof (induction evs arbitrary: n k)
  case (Cons ev evs)
  then obtain n1 where n1: "node_step e ev n = Some n1" "node_run e evs n1 = Some n'"
    by (auto simp: bind_eq_Some_conv simp del: node_step.simps)
  obtain k1 where "node_inv n1 k1" using node_step_inv [OF Cons.prems(1) n1(1)] by blast
  from Cons.IH [OF this _ n1(2)] stopped_step [OF Cons.prems(1,2) n1(1)] show ?case by auto
qed auto

lemma enter_stopped:
  assumes "node_inv n k" and "\<not> waits n"
  shows "mb_enter (mbx n) = (mbx n)\<lparr>waiter := WDone\<rparr>"
  using stopped_awake(2) [OF assms] assms(2)
  by (auto simp: waits_def mb_enter_def mb_wait_pop_def mb_ready_def mb_take_def mb_held_def split: option.splits)

lemma run_publisher_idle:
  assumes inv: "node_inv n k" and stop: "\<not> waits n" and none: "nd_output n = None"
  shows "run_publisher pub n = Done (n\<lparr>cloudPublishMailbox := (mbx n)\<lparr>waiter := WDone\<rparr>\<rparr>)"
proof -
  let ?n = "n\<lparr>cloudPublishMailbox := (mbx n)\<lparr>waiter := WDone\<rparr>\<rparr>"
  have fin: "run_publisher pub ?n = Done ?n" using none by (subst run_publisher.simps) simp
  show ?thesis
  proof (cases "waiter (mbx n) = WDone")
    case True
    then have "?n = n" by simp
    with fin show ?thesis by simp
  next
    case False
    then have w: "waiter (mbx n) = WOut \<or> waiter (mbx n) = WNotified"
      using stopped_awake(1) [OF inv stop] by (cases "waiter (mbx n)") auto
    then have "take_cloud (if waiter (mbx n) = WOut then ECall else EWake) n = Some ?n"
      using none enter_stopped [OF inv stop] by (auto simp: take_cloud_def)
    with w none fin show ?thesis by (subst run_publisher.simps) auto
  qed
qed

lemma run_publisher_stopped:
  assumes inv: "node_inv n k" and stop: "\<not> waits n"
  shows "\<exists>n'. run_publisher pub n = Done n' \<and> waiter (mbx n') = WDone \<and> box (mbx n') = box (mbx n) \<and>
    nd_published n' = nd_published n @ filter (fst \<circ> pub) (in_hand n)"
proof (cases "nd_output n")
  case None
  with run_publisher_idle [OF assms None, of pub] show ?thesis by (simp add: in_hand_def)
next
  case (Some msg)
  then obtain m where m: "publish_output (fst (pub msg)) (snd (pub msg)) n = Some m" "nd_output m = None" "mbx m = mbx n"
    "nd_published m = nd_published n @ filter (fst \<circ> pub) (in_hand n)"
    by (cases "fst (pub msg)") (auto simp: publish_output_def Let_def case_prod_unfold in_hand_def)
  obtain k' where k': "node_inv m k'" using publish_output_inv [OF inv m(1)] by blast
  have "\<not> waits m" using stop m(3) by (simp add: waits_def)
  from run_publisher_idle [OF k' this m(2), of pub] m Some show ?thesis by (subst run_publisher.simps) simp
qed

text \<open>
  C24. The publishing thread ends after the stop. In every state that an execution of the node
  reaches once the mailbox is stopped: the thread is never left asleep without a notification;
  however callbacks and control messages go on, it makes at most two more steps of its own and has
  left its loop if it makes both; and run by itself it does leave the loop, after
  publishing the message it had in hand and nothing else, so that the join in the destructor returns.
\<close>

theorem node_shutdown_ends:
  assumes "node_run e evs (new_node p) = Some n" and "mb_stopped (box (cloudPublishMailbox n))"
  shows "(\<forall>evs' n'. node_run e evs' n = Some n' \<longrightarrow>
      waiter (cloudPublishMailbox n') \<noteq> WBlocked \<and> length (filter own_step evs') \<le> 2 \<and>
      (length (filter own_step evs') = 2 \<longrightarrow> waiter (cloudPublishMailbox n') = WDone)) \<and>
    (\<exists>n'. run_publisher pub n = Done n' \<and> waiter (cloudPublishMailbox n') = WDone \<and>
      nd_published n' = nd_published n @ filter (fst \<circ> pub) (in_hand n))"
proof -
  from node_run_inv [OF node_inv_new assms(1)] obtain k where inv: "node_inv n k" by blast
  have stop: "\<not> waits n" using assms(2) by (simp add: waits_def)
  have "waiter (mbx n') \<noteq> WBlocked \<and> length (filter own_step evs') \<le> 2 \<and>
      (length (filter own_step evs') = 2 \<longrightarrow> waiter (mbx n') = WDone)" if r: "node_run e evs' n = Some n'" for evs' n'
  proof -
    obtain k' where "node_inv n' k'" "\<not> waits n'" "pub_work n' + length (filter own_step evs') \<le> pub_work n"
      using stopped_run [OF inv stop r] by blast
    with stopped_awake [of n' k'] stopped_awake(3) [OF inv stop] show ?thesis by linarith
  qed
  moreover have "\<exists>n'. run_publisher pub n = Done n' \<and> waiter (mbx n') = WDone \<and>
      nd_published n' = nd_published n @ filter (fst \<circ> pub) (in_hand n)"
    using run_publisher_stopped [OF inv stop] by blast
  ultimately show ?thesis by blast
qed

theorem node_shutdown_ends_witness:
  "\<exists>n n'. node_run demo_node_env [NWait, NStop] (new_node demo_params) = Some n \<and>
     run_publisher (\<lambda>msg. (True, 0, 1)) n = Done n' \<and> waiter (cloudPublishMailbox n') = WDone"
proof -
  have "\<exists>n. node_run demo_node_env [NWait, NStop] (new_node demo_params) = Some n \<and> mb_stopped (box (cloudPublishMailbox n))"
    by (simp add: new_node_def take_cloud_def mb_init_def mb_new_def mb_enter_def mb_wait_pop_def mb_ready_def mb_stop_def)
  then obtain n where n: "node_run demo_node_env [NWait, NStop] (new_node demo_params) = Some n"
    "mb_stopped (box (cloudPublishMailbox n))" by blast
  from node_shutdown_ends [OF n, of "\<lambda>msg. (True, 0, 1)"] n show ?thesis by blast
qed

end
