(* ===== verification/Node_Lifecycle.thy ===== *)
theory Node_Lifecycle
  imports Sdk Node_Props
begin

text \<open>
  The node as a whole (\<^verbatim>\<open>main_ros2.cc\<close>): \<^verbatim>\<open>initialize_sdk\<close>, which makes the driver from the
  parameters and starts it, the constructor and the destructor of the node, and the forwarding of
  a recorded scan. The operating system is the environment of theory \<open>Sdk\<close> with the answers of
  the UDP calls.
\<close>

section \<open>Construction\<close>

text \<open>
  The exception handler around \<^verbatim>\<open>initialize_sdk\<close> is for the failures of allocations and thread
  creations, which the model does not have.
\<close>

record node_os =
  no_env :: sdk_env
  no_udp :: udp_sys
  no_transform :: "vec3 \<Rightarrow> vec3"
  no_packet :: PandarPacket
  no_tcp :: tcp_os

text \<open>The constructor that the request names.\<close>

definition new_sdk :: "node_os \<Rightarrow> sdk_request \<Rightarrow> sdk run" where
  "new_sdk E rq =
     (let V = no_env E;
          d = new_driver (Init_tables (sv_sinf V) (sv_cosf V) (rq_lidar_type rq)) (no_transform E) True
                (rq_start_angle rq) 0 (rq_pcl_type rq) (rq_lidar_type rq) (rq_frame_id rq) (rq_timestamp_type rq)
                (rq_coordinate_correction rq) (rq_target_frame rq) (rq_fixed_frame rq);
          r = new_receiver (no_packet E)
      in case rq_source rq of
           FromPcap path \<Rightarrow> Done (new_file_sdk d r path (rq_lidar_type rq) (rq_correction_file rq) (no_tcp E))
         | FromBag \<Rightarrow> Done (new_file_sdk d r [] (rq_lidar_type rq) (rq_correction_file rq) (no_tcp E))
         | FromSensor ip port gps multicast \<Rightarrow>
             new_live_sdk V (no_udp E) d r ip port gps multicast (rq_correction_file rq) (no_tcp E))"

text \<open>With a capture the correction file is loaded first; the buffer it is read into has no terminator.\<close>

definition load_pcap_correction :: "sdk_env \<Rightarrow> sdk_request \<Rightarrow> sdk \<Rightarrow> sdk run" where
  "load_pcap_correction V rq s =
     (case rq_source rq of
        FromPcap path \<Rightarrow>
          (case sv_files V (rq_correction_file rq) of
             None \<Rightarrow> Done s
           | Some contents \<Rightarrow>
               (case string_of_buffer contents of
                  None \<Rightarrow> Undef
                | Some str \<Rightarrow>
                    (case LoadLidarCorrectionFile (sv_sinf V) (sv_cosf V) str s of
                       None \<Rightarrow> Undef
                     | Some (ret, s) \<Rightarrow> Done s)))
      | _ \<Rightarrow> Done s)"

definition initialize_sdk :: "node_os \<Rightarrow> node_params \<Rightarrow> sdk run" where
  "initialize_sdk E p =
     (case sdk_request_of p of
        None \<Rightarrow> Undef
      | Some rq \<Rightarrow>
          run_bind (new_sdk E rq) (\<lambda>s.
          run_bind (load_pcap_correction (no_env E) rq s) (sdk_Start (no_env E))))"

record client =
  cl_node :: node
  hsdk :: sdk

definition new_HesaiLidarClient :: "node_os \<Rightarrow> node_params \<Rightarrow> param_error + client run" where
  "new_HesaiLidarClient E p =
     (case pointcloud_qos p of
        Inl x \<Rightarrow> Inl x
      | Inr q \<Rightarrow> Inr (run_bind (initialize_sdk E p) (\<lambda>s. Done \<lparr>cl_node = new_node p, hsdk = s\<rparr>)))"

section \<open>Destruction and recorded scans\<close>

text \<open>
  The destructor: the driver is deleted first, so no callback can come after the mailbox is stopped;
  then the publishing thread is joined, which runs alone until it returns.
\<close>

definition delete_client :: "(PointCloud2 \<Rightarrow> bool \<times> int \<times> int) \<Rightarrow> client \<Rightarrow> (int list \<times> client) run" where
  "delete_client pub c =
     run_bind (delete_sdk (hsdk c)) (\<lambda>(fds, s).
       case mb_step EStop (cloudPublishMailbox (cl_node c)) of
         None \<Rightarrow> Undef
       | Some m \<Rightarrow>
           run_bind (run_publisher pub ((cl_node c)\<lparr>cloudPublishMailbox := m\<rparr>)) (\<lambda>n.
             Done (fds, \<lparr>cl_node = n, hsdk = s\<rparr>)))"

definition scanCallback :: "sdk_env \<Rightarrow> byte list \<Rightarrow> packet_msg list \<Rightarrow> client \<Rightarrow> client option" where
  "scanCallback V old ms c =
     map_option (\<lambda>s. c\<lparr>hsdk := s\<rparr>)
       (sdk_PushScanPacket (sv_sinf V) (sv_cosf V) (sv_files V (correction_file_path (hsdk c))) old ms (hsdk c))"

section \<open>A node with a sensor\<close>

text \<open>Parameters that are accepted and select the sensor, and the command client they give.\<close>

definition sensor_params :: "node_params \<Rightarrow> bool" where
  "sensor_params p \<longleftrightarrow> (\<exists>q. pointcloud_qos p = Inr q) \<and> pcap_file p = [] \<and> data_type p \<noteq> ''rosbag'' \<and>
     start_angle_of (start_angle p) \<noteq> None \<and> length (server_ip p) < 256"

definition sensor_client :: "node_params \<Rightarrow> TcpCommandClient" where
  "sensor_client p = \<lparr>cl_ip = server_ip p @ replicate (256 - length (server_ip p)) (CHR 0x00), cl_port = 9347\<rparr>"

definition driver_of :: "node_os \<Rightarrow> node_params \<Rightarrow> driver" where
  "driver_of E p = new_driver (Init_tables (sv_sinf (no_env E)) (sv_cosf (no_env E)) (lidar_type p)) (no_transform E) True
     (the (start_angle_of (start_angle p))) 0 (pcldata_type p) (lidar_type p) (frame_id_param p) (timestamp_type p)
     (coordinate_correction_flag p) (target_frame p) (fixed_frame p)"

definition input_of :: "node_os \<Rightarrow> node_params \<Rightarrow> Input" where
  "input_of E p = new_Input (no_udp E) (server_ip p) (of_int (lidar_recv_port p)) (of_int (gps_port p)) (multicast_ip p)"

text \<open>The heap with the command client's block on it.\<close>

definition client_block :: "nat \<Rightarrow> tcp_os \<Rightarrow> tcp_os" where
  "client_block sz s = s\<lparr>os_heap := (os_heap s)(os_next s := Some (replicate sz 0)), os_next := Suc (os_next s), os_locked := False\<rparr>"

lemma client_block_simps [simp]:
  "os_heap (client_block sz s) = (os_heap s)(os_next s := Some (replicate sz 0))"
  "os_fds (client_block sz s) = os_fds s" "\<not> os_locked (client_block sz s)"
  "replies f pl (client_block sz s) = replies f pl s" "partial_reply (client_block sz s) = partial_reply s"
  by (simp_all add: client_block_def replies_def partial_reply_def)

lemma client_block_connected [simp]: "connected N cl (client_block sz s) = connected N cl s"
  by (cases "c_string (cl_ip cl)") (simp_all add: client_block_def connected_def)

lemma client_block_setting [intro]: "setting cl N mal s \<Longrightarrow> setting cl N mal (client_block sz s)"
  by (auto simp: setting_def heap_ok_def client_block_def)

abbreviation node_tcp :: "node_os \<Rightarrow> tcp_os" where
  "node_tcp E \<equiv> client_block (sv_client_size (no_env E)) (no_tcp E)"

lemma client_made:
  assumes "sensor_params p" and "alloc_ok mal" and "mal sz \<noteq> None"
  shows "TcpCommandClientNew mal sz (Some (server_ip p)) PANDARGENERALSDK_TCP_COMMAND_PORT s =
    Done (Some (sensor_client p), client_block sz s)"
proof -
  obtain b where b: "mal sz = Some b" "length b = sz" using assms(2,3) by (auto simp: alloc_ok_def)
  have ip: "length (server_ip p) < 256" using assms(1) by (auto simp: sensor_params_def)
  show ?thesis
    using b ip
    by (cases "sz = 0") (auto simp: TcpCommandClientNew_def sensor_client_def PANDARGENERALSDK_TCP_COMMAND_PORT_def
        malloc_def store_def overwrite_def client_block_def unlock_def)
qed

lemma started:
  assumes "sensor_params p" and "alloc_ok (sv_malloc (no_env E))" and "\<And>n. sv_malloc (no_env E) n \<noteq> None"
  shows "\<exists>c. new_HesaiLidarClient E p = Inr (Done c) \<and> cl_node c = new_node p \<and>
    lidar_recv_thr (pandarGeneral (hsdk c)) \<and> lidar_process_thr (pandarGeneral (hsdk c)) \<and>
    \<not> parse_thr (pandarGeneral (hsdk c)) \<and> pcap_reader (pandarGeneral (hsdk c)) = None \<and>
    in_input (pandarGeneral (hsdk c)) = Some (input_of E p) \<and>
    approximate_size PACKET_BUFFER_STORAGE_SIZE (packetsBuffer (in_receiver (pandarGeneral (hsdk c)))) = 0 \<and>
    get_calibration_thr (hsdk c) = Some (GetCalibrationFromDevice (no_env E) (Some (sensor_client p)) (lidar_correction_file p)
      \<lparr>cal_tables = d_tbl (driver_of E p), cal_flag = False, cal_content = [], cal_os = node_tcp E\<rparr>)"
proof -
  obtain q a where p: "pointcloud_qos p = Inr q" "pcap_file p = []" "data_type p \<noteq> ''rosbag''"
    "start_angle_of (start_angle p) = Some a"
    using assms(1) by (auto simp: sensor_params_def)
  show ?thesis
    using p not_sym [OF p(3)]
    by (simp add: new_HesaiLidarClient_def initialize_sdk_def sdk_request_of_def new_sdk_def Let_def new_live_sdk_def
        client_made [OF assms] load_pcap_correction_def sdk_Start_def sdk_Stop_def running_def stopped_def new_internal_def
        Start_state_def Stop_state_def spsc_reset_def approximate_size_def spsc_distance_def calibration_of_def
        driver_of_def input_of_def)
qed

lemma sdk_Stop_joins:
  assumes "get_calibration_thr s = Some t"
  shows "sdk_Stop s = run_bind t (\<lambda>c. Done ((with_calibration c (s\<lparr>pandarGeneral := stopped (pandarGeneral s),
    enable_get_calibration_thr := False\<rparr>))\<lparr>get_calibration_thr := Some (Done c)\<rparr>))"
  using assms by (simp add: sdk_Stop_def)

definition no_threads :: "internal \<Rightarrow> bool" where
  "no_threads i \<longleftrightarrow> \<not> lidar_recv_thr i \<and> \<not> lidar_process_thr i \<and> \<not> parse_thr i"

text \<open>Once the calibration thread has returned, so does the destructor, whatever the publishing thread was doing.\<close>

lemma delete_client_returns:
  assumes "get_calibration_thr (hsdk c) = Some (Done k)" and "\<not> parse_thr (pandarGeneral (hsdk c))"
    and "pcap_reader (pandarGeneral (hsdk c)) = None"
    and "in_input (pandarGeneral (hsdk c)) = Some inp" "delete_Input inp = Some fds"
    and "node_inv (cl_node c) j"
  shows "\<exists>c'. delete_client pub c = Done (fds, c') \<and> mb_stopped (box (cloudPublishMailbox (cl_node c'))) \<and>
    waiter (cloudPublishMailbox (cl_node c')) = WDone \<and>
    nd_published (cl_node c') = nd_published (cl_node c) @ filter (fst \<circ> pub) (in_hand (cl_node c)) \<and>
    no_threads (pandarGeneral (hsdk c')) \<and> d_tbl (in_driver (pandarGeneral (hsdk c'))) = cal_tables k \<and>
    got_lidar_correction_flag (pandarGeneral (hsdk c')) = cal_flag k \<and>
    GetLidarCalibration (hsdk c') = cal_content k \<and> sdk_os (hsdk c') = cal_os k"
proof -
  define n where "n = cl_node c"
  obtain m where m: "mb_step EStop (mbx n) = Some m" "mb_stopped (box m)" by (simp add: mb_stop_def)
  let ?n = "n\<lparr>cloudPublishMailbox := m\<rparr>"
  have "node_step e NStop n = Some ?n" for e using m(1) by simp
  then obtain j' where inv: "node_inv ?n j'" using node_step_inv [OF assms(6) [folded n_def]] by blast
  have "\<not> waits ?n" using m(2) by (simp add: waits_def)
  from run_publisher_stopped [OF inv this, of pub] obtain n' where n': "run_publisher pub ?n = Done n'" "waiter (mbx n') = WDone"
    "box (mbx n') = box m" "nd_published n' = nd_published n @ filter (fst \<circ> pub) (in_hand n)"
    by (auto simp: in_hand_def)
  obtain s where s: "delete_sdk (hsdk c) = Done (fds, s)" "no_threads (pandarGeneral s)" "d_tbl (in_driver (pandarGeneral s)) = cal_tables k"
    "got_lidar_correction_flag (pandarGeneral s) = cal_flag k" "GetLidarCalibration s = cal_content k" "sdk_os s = cal_os k"
    using assms(1-5)
    by (simp add: delete_sdk_def delete_internal_def sdk_Stop_joins [OF assms(1)] no_threads_def with_calibration_def
        stopped_def Let_def case_prod_unfold Stop_state_def GetLidarCalibration_def)
  have "delete_client pub c = Done (fds, \<lparr>cl_node = n', hsdk = s\<rparr>)"
    using s(1) m(1) n'(1) by (simp add: delete_client_def n_def [symmetric] del: mb_step.simps)
  with n' m(2) s show ?thesis by (auto simp: n_def)
qed

definition sockets_open :: "udp_sys \<Rightarrow> bool" where
  "sockets_open S \<longleftrightarrow> (\<forall>gps. 0 < us_socket S gps) \<and> (\<forall>fd port. us_bind S fd port = 0) \<and> (\<forall>fd. 0 \<le> us_nonblock S fd)"

lemma delete_opened:
  assumes "sockets_open S" and "port \<noteq> gps"
  shows "delete_Input (new_Input S ip port gps mc) = Some [us_socket S True, us_socket S False]"
proof -
  have pos: "0 < us_socket S g" "\<not> us_nonblock S fd < 0" "us_bind S fd pt \<noteq> -1" for g fd pt
    using assms(1) by (simp_all add: sockets_open_def not_less)
  moreover have "us_socket S g \<noteq> -1" for g using pos(1) [of g] by simp
  ultimately show ?thesis
    using assms(2) by (simp add: new_Input_def open_gps_def finish_input_def delete_Input_def Let_def)
qed

section \<open>Properties\<close>


text \<open>
  C26. The life of a node whose sensor does not send its calibration. When the connection is open
  but the reply does not arrive in full, the constructor returns and the destructor never does:
  the calibration thread waits without a timeout and is joined. When the connection is refused,
  the text is taken from the file, which is read into a buffer without room for a terminator: the
  read past it is undefined behaviour for every file without a zero byte.
\<close>

theorem node_without_calibration:
  assumes "sensor_params p" and "setting (sensor_client p) (sv_net (no_env E)) (sv_malloc (no_env E)) (no_tcp E)"
    and "\<And>n. sv_malloc (no_env E) n \<noteq> None"
  shows "\<exists>c. new_HesaiLidarClient E p = Inr (Done c) \<and>
    (connected (sv_net (no_env E)) (sensor_client p) (no_tcp E) \<and> partial_reply (no_tcp E) \<longrightarrow>
      delete_client pub c = Blocked) \<and>
    ((\<forall>v6 ip port. net_connect (sv_net (no_env E)) v6 ip port = -1) \<and>
      (\<exists>contents. sv_files (no_env E) (lidar_correction_file p) = Some contents \<and> 0 \<notin> set contents) \<longrightarrow>
      delete_client pub c = Undef)"
proof -
  let ?V = "no_env E" and ?path = "lidar_correction_file p"
  let ?c = "\<lparr>cal_tables = d_tbl (driver_of E p), cal_flag = False, cal_content = [], cal_os = node_tcp E\<rparr>"
  have al: "alloc_ok (sv_malloc (no_env E))" and ok: "client_ok (sensor_client p)" using assms(2) by (simp_all add: setting_def)
  obtain c where c: "new_HesaiLidarClient E p = Inr (Done c)"
    "get_calibration_thr (hsdk c) = Some (GetCalibrationFromDevice ?V (Some (sensor_client p)) ?path ?c)"
    using started [OF assms(1) al assms(3)] by blast
  have "GetCalibrationFromDevice ?V (Some (sensor_client p)) ?path ?c = Blocked"
    if "connected (sv_net ?V) (sensor_client p) (no_tcp E)" "partial_reply (no_tcp E)"
    using lidar.silent [OF client_block_setting [OF assms(2)] assms(3)] that by (simp add: GetCalibrationFromDevice_def)
  moreover have "GetCalibrationFromDevice ?V (Some (sensor_client p)) ?path ?c = Undef"
    if "\<forall>v6 ip port. net_connect (sv_net ?V) v6 ip port = -1" "sv_files ?V ?path = Some contents" "0 \<notin> set contents"
    for contents
    using calibration_from_file [of ?c "sensor_client p" ?V ?path contents] that ok by auto
  ultimately show ?thesis
    using c sdk_Stop_joins [OF c(2)] by (auto simp: delete_client_def delete_sdk_def)
qed

section \<open>Concrete instances\<close>

definition demo_sensor :: node_params where
  "demo_sensor = default_params\<lparr>server_ip := ''192.168.1.201'', lidar_type := ''PandarXT-16'', lidar_correction_file := ''XT.csv''\<rparr>"

definition demo_node_os :: "int \<Rightarrow> tcp_os \<Rightarrow> node_os" where
  "demo_node_os con os = \<lparr>no_env = \<lparr>sv_net = demo_net\<lparr>net_connect := (\<lambda>v6 ip port. con)\<rparr>, sv_malloc = demo_mal, sv_client_size = 328, sv_stack = [],
     sv_files = (\<lambda>path. Some (map of_char ''Laser id,Elevation,Azimuth'')), sv_sinf = (\<lambda>x. x), sv_cosf = (\<lambda>x. x)\<rparr>,
     no_udp = demo_sys, no_transform = (\<lambda>x. x), no_packet = demo_packet, no_tcp = os\<rparr>"

lemma demo_sensor_params: "sensor_params demo_sensor" "sensor_client demo_sensor = demo_client"
proof -
  have "start_angle_of (d_int 0) \<noteq> None" by code_simp
  moreover have "pointcloud_qos demo_sensor = Inr (1000, True)"
    by (simp add: demo_sensor_def default_params_def pointcloud_qos_def)
  ultimately show "sensor_params demo_sensor"
    by (auto simp: sensor_params_def demo_sensor_def default_params_def)
  show "sensor_client demo_sensor = demo_client"
    by (simp add: sensor_client_def demo_client_def demo_sensor_def default_params_def)
qed

lemma demo_node_setting:
  "setting demo_client (sv_net (no_env (demo_node_os con os))) (sv_malloc (no_env (demo_node_os con os))) (demo_os rs)"
  "connected (sv_net (no_env (demo_node_os 0 os))) demo_client (demo_os rs)" "sv_malloc (no_env (demo_node_os con os)) n \<noteq> None"
  using demo_setting [of rs] demo_connected [of rs]
  by (simp_all add: demo_node_os_def setting_def net_ok_def demo_net_def demo_mal_def)

lemma demo_no_tcp [simp]: "no_tcp (demo_node_os con os) = os"
  by (simp add: demo_node_os_def)

definition demo_text :: string where
  "demo_text = file_text (base demo_env) [(d_int 0, d_int 0)]"

lemma length_demo_text: "length demo_text = 33"
  by (simp add: demo_text_def file_text_def text_line_def demo_env_def show_nat.simps [of "Suc 0"])

definition demo_reply :: tcp_os where
  "demo_reply = demo_os [Seg (TcpCommand_buildHeader (zero_command\<lparr>h_cmd := 5, h_len := 33\<rparr>)), Seg (map of_char demo_text)]"

lemma demo_replies: "replies (zero_command\<lparr>h_cmd := 5, h_len := 33\<rparr>) (map of_char demo_text) demo_reply"
  by (simp add: replies_def length_demo_text demo_reply_def demo_os_def)


theorem node_without_calibration_witness:
  "(\<exists>c. new_HesaiLidarClient (demo_node_os 0 (demo_os [Seg [0x47, 0x74], RxIntr])) demo_sensor = Inr (Done c) \<and>
     delete_client (\<lambda>msg. (True, 0, 1)) c = Blocked) \<and>
   (\<exists>c. new_HesaiLidarClient (demo_node_os (-1) (demo_os [])) demo_sensor = Inr (Done c) \<and> delete_client (\<lambda>msg. (True, 0, 1)) c = Undef)"
proof
  let ?os = "demo_os [Seg [0x47, 0x74], RxIntr]"
  let ?E = "demo_node_os 0 ?os"
  have silent: "partial_reply ?os"
    unfolding partial_reply_def by (intro conjI exI [of _ zero_command] exI [of _ "[]"] exI [of _ 2])
      (simp_all add: demo_os_def TcpCommand_buildHeader_def zero_command_def)
  have "setting (sensor_client demo_sensor) (sv_net (no_env ?E)) (sv_malloc (no_env ?E)) (no_tcp ?E)"
    "connected (sv_net (no_env ?E)) (sensor_client demo_sensor) (no_tcp ?E)"
    using demo_node_setting demo_sensor_params by simp_all
  with node_without_calibration [OF demo_sensor_params(1) this(1) demo_node_setting(3)] silent
  show "\<exists>c. new_HesaiLidarClient ?E demo_sensor = Inr (Done c) \<and> delete_client (\<lambda>msg. (True, 0, 1)) c = Blocked" by auto
next
  let ?E = "demo_node_os (-1) (demo_os [])"
  have "setting (sensor_client demo_sensor) (sv_net (no_env ?E)) (sv_malloc (no_env ?E)) (no_tcp ?E)"
    using demo_node_setting demo_sensor_params by simp
  from node_without_calibration [OF demo_sensor_params(1) this demo_node_setting(3)]
  show "\<exists>c. new_HesaiLidarClient ?E demo_sensor = Inr (Done c) \<and> delete_client (\<lambda>msg. (True, 0, 1)) c = Undef"
    by (auto simp: demo_node_os_def of_char_zero)
qed

end
