(* ===== verification/Float_Bits.thy ===== *)
theory Float_Bits
  imports Ieee_Floats
begin

text \<open>
  The object representation of \<^verbatim>\<open>float\<close> and \<^verbatim>\<open>double\<close>: the bit pattern of a value as a
  number, and the value of a pattern. The processing thread computes with values, the published
  message carries patterns; the two functions join them. A NaN has many patterns; which one an
  operation produces is left to the argument \<open>nan\<close>.
\<close>

section \<open>Encoding and decoding\<close>

text \<open>
  A positive finite value is a multiple \<open>k\<close> of its unit in the last place. With the units counted
  from the smallest, the biased exponent and the fraction are the digits of one number, for normal
  and subnormal values alike.
\<close>

definition frac_size :: "fmt \<Rightarrow> int" where
  "frac_size F = 2 ^ nat (prec F - 1)"

definition top_expo :: "fmt \<Rightarrow> int" where
  "top_expo F = emax F - prec F - emin F + 2"

definition sign_bit :: "fmt \<Rightarrow> int" where
  "sign_bit F = (top_expo F + 1) * frac_size F"

definition magnitude_bits :: "fmt \<Rightarrow> rat \<Rightarrow> int" where
  "magnitude_bits F m =
     (if m = 0 then 0
      else (ulp_expo F m - emin F) * frac_size F + \<lfloor>m / pow2 (ulp_expo F m)\<rfloor>)"

fun fp_bits :: "fmt \<Rightarrow> int \<Rightarrow> fp \<Rightarrow> int" where
  "fp_bits F nan NaN = nan"
| "fp_bits F nan (Inf s) = (if s then sign_bit F else 0) + top_expo F * frac_size F"
| "fp_bits F nan (Fin s m) = (if s then sign_bit F else 0) + magnitude_bits F m"

definition fp_of_bits :: "fmt \<Rightarrow> int \<Rightarrow> fp" where
  "fp_of_bits F b =
     (let s = (sign_bit F \<le> b);
          r = (if s then b - sign_bit F else b);
          ex = r div frac_size F;
          k = r mod frac_size F
      in if ex = top_expo F then (if k = 0 then Inf s else NaN)
         else if ex = 0 then Fin s (of_int k * pow2 (emin F))
         else Fin s (of_int (k + frac_size F) * pow2 (emin F + ex - 1)))"

definition nan_pattern :: "fmt \<Rightarrow> int \<Rightarrow> bool" where
  "nan_pattern F n \<longleftrightarrow> 0 \<le> n \<and> n < 2 * sign_bit F \<and> fp_of_bits F n = NaN"

section \<open>Decoding inverts encoding\<close>

definition fmt_ok :: "fmt \<Rightarrow> bool" where
  "fmt_ok F \<longleftrightarrow> 2 \<le> prec F \<and> emin F \<le> emax F - prec F"

lemma fmt_ok_binary [simp]: "fmt_ok binary32" "fmt_ok binary64"
  by (simp_all add: fmt_ok_def binary32_def binary64_def)

lemma frac_size_pos [simp]: "0 < frac_size F" "frac_size F \<noteq> 0"
  by (simp_all add: frac_size_def)

lemma pow2_prec:
  assumes "fmt_ok F"
  shows "pow2 (prec F) = of_int (2 * frac_size F)" "pow2 (prec F - 1) = of_int (frac_size F)"
proof -
  show 1: "pow2 (prec F - 1) = of_int (frac_size F)"
    using assms by (simp add: frac_size_def pow2_int fmt_ok_def)
  show "pow2 (prec F) = of_int (2 * frac_size F)"
    using 1 pow2_add [of "prec F - 1" 1] by simp
qed

lemma sign_bit_bounds:
  assumes "fmt_ok F"
  shows "0 < top_expo F" "0 \<le> top_expo F * frac_size F" "top_expo F * frac_size F < sign_bit F" "0 < sign_bit F"
proof -
  show t: "0 < top_expo F" using assms by (simp add: fmt_ok_def top_expo_def)
  then show "0 \<le> top_expo F * frac_size F" by (simp add: less_imp_le)
  then show "top_expo F * frac_size F < sign_bit F" "0 < sign_bit F"
    by (simp_all add: sign_bit_def distrib_right add_nonneg_pos)
qed

text \<open>The decomposition of a representable value.\<close>

lemma representable:
  assumes F: "fmt_ok F" and m: "0 < m" "rnd F m = m" "rat_expo m < emax F"
  defines "u \<equiv> ulp_expo F m" and "k \<equiv> \<lfloor>m / pow2 (ulp_expo F m)\<rfloor>"
  shows "m = of_int k * pow2 u" "0 < k" "k < 2 * frac_size F" "emin F \<le> u" "u \<le> emax F - prec F"
    "frac_size F \<le> k \<or> u = emin F"
proof -
  have "m / pow2 u = of_int (rne (m / pow2 u))"
    using m by (simp add: rnd_def Let_def u_def field_simps)
  then have kk: "of_int k = m / pow2 u" unfolding k_def u_def by (metis floor_of_int)
  show mk: "m = of_int k * pow2 u" using kk by simp
  show "0 < k" using m(1) mk pow2_pos [of u] by (auto simp: zero_less_mult_iff simp del: pow2_pos)
  show "emin F \<le> u" by (simp add: u_def ulp_expo_def)
  show "u \<le> emax F - prec F" using m(3) F by (simp add: u_def ulp_expo_def fmt_ok_def)
  have "rat_expo m + 1 \<le> u + prec F" by (simp add: u_def ulp_expo_def)
  then have "m < pow2 (u + prec F)"
    using rat_expo_bounds(2) [OF m(1)] pow2_mono less_le_trans by blast
  then have "of_int k < pow2 (prec F)" unfolding kk by (simp add: pow2_add field_simps)
  then show "k < 2 * frac_size F" unfolding pow2_prec(1) [OF F] by (simp only: of_int_less_iff)
  show "frac_size F \<le> k \<or> u = emin F"
  proof (cases "u = emin F")
    case False
    then have "rat_expo m = u + (prec F - 1)" by (simp add: u_def ulp_expo_def)
    then have "pow2 u * pow2 (prec F - 1) \<le> m" using rat_expo_bounds(1) [OF m(1)] by (simp only: pow2_add)
    then have "pow2 (prec F - 1) \<le> of_int k" unfolding kk by (simp add: field_simps)
    then have "frac_size F \<le> k" unfolding pow2_prec(2) [OF F] by (simp only: of_int_le_iff)
    then show ?thesis ..
  qed simp
qed

lemma digits: "0 \<le> r \<Longrightarrow> r < h \<Longrightarrow> (r + q * h) div h = q \<and> (r + q * h) mod h = (r :: int)"
  by simp

lemma magnitude_decodes:
  assumes F: "fmt_ok F" and m: "0 \<le> m" "rnd F m = m" "m = 0 \<or> rat_expo m < emax F"
  defines "b \<equiv> magnitude_bits F m"
  shows "0 \<le> b" "b < top_expo F * frac_size F"
    "(if b div frac_size F = 0 then of_int (b mod frac_size F) * pow2 (emin F)
      else of_int (b mod frac_size F + frac_size F) * pow2 (emin F + b div frac_size F - 1)) = m"
proof -
  let ?h = "frac_size F"
  have t: "1 \<le> top_expo F" using F by (simp add: fmt_ok_def top_expo_def)
  have "0 \<le> b \<and> b < top_expo F * ?h \<and>
    (if b div ?h = 0 then of_int (b mod ?h) * pow2 (emin F)
      else of_int (b mod ?h + ?h) * pow2 (emin F + b div ?h - 1)) = m"
  proof (cases "m = 0")
    case True
    then show ?thesis using t by (simp add: b_def magnitude_bits_def)
  next
    case False
    define u where "u = ulp_expo F m"
    define k where "k = \<lfloor>m / pow2 (ulp_expo F m)\<rfloor>"
    have r: "m = of_int k * pow2 u" "0 < k" "k < 2 * ?h" "emin F \<le> u" "u \<le> emax F - prec F" "?h \<le> k \<or> u = emin F"
      using representable [OF F _ m(2)] m(1,3) False by (auto simp: u_def k_def)
    have b: "b = (u - emin F) * ?h + k" using False by (simp add: b_def magnitude_bits_def u_def k_def)
    show ?thesis
    proof (cases "?h \<le> k")
      case True
      have b': "b = (k - ?h) + (u - emin F + 1) * ?h" by (simp add: b algebra_simps)
      have q: "b div ?h = u - emin F + 1" "b mod ?h = k - ?h"
        using digits [of "k - ?h" ?h "u - emin F + 1"] True r(3) unfolding b' by simp_all
      have "b < (u - emin F + 2) * ?h" using r(3) by (simp add: b algebra_simps)
      also have "\<dots> \<le> top_expo F * ?h" using r(5) by (intro mult_right_mono) (simp_all add: top_expo_def less_imp_le)
      finally have "b < top_expo F * ?h" .
      moreover have "0 \<le> (u - emin F) * ?h" using r(4) by (intro mult_nonneg_nonneg) (simp_all add: less_imp_le)
      ultimately show ?thesis using q r(1,2,4) by (simp add: b)
    next
      case False
      then have u: "u = emin F" using r(6) by simp
      have "1 * ?h \<le> top_expo F * ?h" using t by (intro mult_right_mono) (simp_all add: less_imp_le)
      then have "k < top_expo F * ?h" using False by linarith
      then show ?thesis using r(1,2) False u by (simp add: b)
    qed
  qed
  then show "0 \<le> b" "b < top_expo F * ?h"
    "(if b div ?h = 0 then of_int (b mod ?h) * pow2 (emin F)
      else of_int (b mod ?h + ?h) * pow2 (emin F + b div ?h - 1)) = m" by blast+
qed

lemma fp_bits_range:
  assumes "fmt_ok F" "fp_of_fmt F x" "nan_pattern F nan"
  shows "0 \<le> fp_bits F nan x \<and> fp_bits F nan x < 2 * sign_bit F"
proof -
  note s = sign_bit_bounds [OF assms(1)]
  show ?thesis
  proof (cases x)
    case (Fin t m)
    then have "0 \<le> magnitude_bits F m" "magnitude_bits F m < top_expo F * frac_size F"
      using magnitude_decodes [OF assms(1), of m] assms(2) by auto
    then show ?thesis using Fin s by auto
  qed (use assms(3) s in \<open>auto simp: nan_pattern_def\<close>)
qed

lemma fp_of_bits_signed:
  assumes "0 \<le> r" "r < sign_bit F"
  shows "fp_of_bits F ((if s then sign_bit F else 0) + r) =
    (if r div frac_size F = top_expo F then (if r mod frac_size F = 0 then Inf s else NaN)
     else if r div frac_size F = 0 then Fin s (of_int (r mod frac_size F) * pow2 (emin F))
     else Fin s (of_int (r mod frac_size F + frac_size F) * pow2 (emin F + r div frac_size F - 1)))"
  using assms by (simp add: fp_of_bits_def Let_def)

theorem fp_of_bits_bits:
  assumes "fmt_ok F" "fp_of_fmt F x" "nan_pattern F nan"
  shows "fp_of_bits F (fp_bits F nan x) = x"
proof -
  note s = sign_bit_bounds [OF assms(1)]
  show ?thesis
  proof (cases x)
    case (Inf t)
    then show ?thesis using fp_of_bits_signed [OF s(2,3), of t] by simp
  next
    case (Fin t m)
    note d = magnitude_decodes [OF assms(1), of m]
    have b: "0 \<le> magnitude_bits F m" "magnitude_bits F m < top_expo F * frac_size F"
      using d(1,2) assms(2) Fin by auto
    then have "magnitude_bits F m div frac_size F < top_expo F"
      using zdiv_mono1 [of "magnitude_bits F m" "top_expo F * frac_size F - 1" "frac_size F"]
      by (smt (verit) div_mult_self_is_m frac_size_pos(1) mult_less_cancel_right pos_mod_sign div_mult_mod_eq)
    then show ?thesis
      using fp_of_bits_signed [of "magnitude_bits F m" F t] b s(3) d(3) assms(2) Fin
      by (auto split: if_splits)
  qed (use assms(3) in \<open>simp add: nan_pattern_def\<close>)
qed

section \<open>Operations stay in their format\<close>

lemma fp_round_fmt [simp]: "fmt_ok F \<Longrightarrow> fp_of_fmt F (fp_round F z x)"
  by (rule fp_round_of_fmt) (simp add: fmt_ok_def)

lemma fp_ops_fmt [simp]:
  assumes "fmt_ok F"
  shows "fp_of_fmt F (fp_add F a b)" "fp_of_fmt F (fp_sub F a b)" "fp_of_fmt F (fp_mul F a b)"
    "fp_of_fmt F (fp_div F a b)" "fp_of_fmt F (fp_cast F a)" "fp_of_fmt F (fp_of_int F n)"
proof -
  have add: "fp_of_fmt F (fp_add F a b)" for a b
    using assms by (induction F a b rule: fp_add.induct) simp_all
  show "fp_of_fmt F (fp_add F a b)" "fp_of_fmt F (fp_sub F a b)" using add by (simp_all add: fp_sub_def)
  show "fp_of_fmt F (fp_mul F a b)" using assms by (induction F a b rule: fp_mul.induct) simp_all
  show "fp_of_fmt F (fp_div F a b)" using assms by (induction F a b rule: fp_div.induct) simp_all
  show "fp_of_fmt F (fp_cast F a)" using assms by (cases a) simp_all
  show "fp_of_fmt F (fp_of_int F n)" using assms by (simp add: fp_of_int_def)
qed

end
