(* ===== verification/Cloud_View.thy ===== *)
theory Cloud_View
  imports Driver_Props Compact_PointCloud2 Float_Bits
begin

text \<open>
  A cloud on its way out: the points the processing thread computed (values), the object
  representation that the conversion copies (bit patterns), and what a subscriber that knows
  only the message finds in it (values again).
\<close>

section \<open>Object representation of a cloud\<close>

text \<open>The bit patterns that stand for NaN.\<close>

record nans =
  nan32 :: int
  nan64 :: int

definition nans_ok :: "nans \<Rightarrow> bool" where
  "nans_ok N \<longleftrightarrow> nan_pattern binary32 (nan32 N) \<and> nan_pattern binary64 (nan64 N)"

definition ppoint_of :: "nans \<Rightarrow> point \<Rightarrow> PPoint" where
  "ppoint_of N p =
     \<lparr>px = of_int (fp_bits binary32 (nan32 N) (pt_x p)), py = of_int (fp_bits binary32 (nan32 N) (pt_y p)),
      pz = of_int (fp_bits binary32 (nan32 N) (pt_z p)),
      pintensity = of_int (fp_bits binary32 (nan32 N) (pt_intensity p)),
      ptimestamp = of_int (fp_bits binary64 (nan64 N) (pt_timestamp p)), pring = pt_ring p\<rparr>"

text \<open>The driver never touches \<^verbatim>\<open>is_dense\<close>, which a new cloud has set.\<close>

definition ppcloud_of :: "nans \<Rightarrow> cloud \<Rightarrow> PPointCloud" where
  "ppcloud_of N c =
     \<lparr>cld_frame_id = cl_frame_id c, cld_width = of_nat (cl_width c), cld_height = of_nat (cl_height c),
      cld_is_dense = True, cld_points = map (ppoint_of N) (cl_points c)\<rparr>"

section \<open>What a subscriber reads\<close>

definition read_point :: "PointCloud2 \<Rightarrow> nat \<Rightarrow> point option" where
  "read_point m i = do {
     x \<leftarrow> read_field m i ''x'';
     y \<leftarrow> read_field m i ''y'';
     z \<leftarrow> read_field m i ''z'';
     inten \<leftarrow> read_field m i ''intensity'';
     t \<leftarrow> read_field m i ''timestamp'';
     r \<leftarrow> read_field m i ''ring'';
     Some \<lparr>pt_x = fp_of_bits binary32 (int x), pt_y = fp_of_bits binary32 (int y), pt_z = fp_of_bits binary32 (int z),
           pt_intensity = fp_of_bits binary32 (int inten), pt_timestamp = fp_of_bits binary64 (int t),
           pt_ring = of_nat r\<rparr>
   }"

definition read_cloud :: "PointCloud2 \<Rightarrow> point list option" where
  "read_cloud m = those (map (read_point m) [0..<unat (out_height m) * unat (out_width m)])"

text \<open>Every field of a point is a value of its C++ type.\<close>

definition point_ok :: "point \<Rightarrow> bool" where
  "point_ok p \<longleftrightarrow> fp_of_fmt binary32 (pt_x p) \<and> fp_of_fmt binary32 (pt_y p) \<and> fp_of_fmt binary32 (pt_z p) \<and>
     fp_of_fmt binary32 (pt_intensity p) \<and> fp_of_fmt binary64 (pt_timestamp p)"

lemma sign_bit_binary: "2 * sign_bit binary32 = 2 ^ 32" "2 * sign_bit binary64 = 2 ^ 64"
  by (simp_all add: sign_bit_def top_expo_def frac_size_def binary32_def binary64_def)

lemma word_bits:
  assumes "2 * sign_bit F = 2 ^ LENGTH('a::len)" and "fmt_ok F" "fp_of_fmt F x" "nan_pattern F nan"
  shows "fp_of_bits F (uint (of_int (fp_bits F nan x) :: 'a word)) = x"
proof -
  have "uint (of_int (fp_bits F nan x) :: 'a word) = fp_bits F nan x"
    using fp_bits_range [OF assms(2-4)] assms(1) by (simp add: uint_word_of_int take_bit_eq_mod)
  then show ?thesis using fp_of_bits_bits [OF assms(2-4)] by simp
qed

lemmas word_bits32 = word_bits [where 'a = 32 and F = binary32, simplified, OF sign_bit_binary(1) [simplified]]
  and word_bits64 = word_bits [where 'a = 64 and F = binary64, simplified, OF sign_bit_binary(2) [simplified]]

lemma those_map_Some: "(\<And>x. x \<in> set xs \<Longrightarrow> f x = Some (g x)) \<Longrightarrow> those (map f xs) = Some (map g xs)"
  by (induction xs) auto

lemma read_cloud_compact:
  assumes "compact_of big (ppcloud_of N c) m" and "nans_ok N" and "\<forall>p \<in> set (cl_points c). point_ok p"
  shows "read_cloud m = Some (cl_points c)"
proof -
  have pt: "read_point m i = Some (cl_points c ! i)" if i: "i < length (cl_points c)" for i
  proof -
    have n: "nan_pattern binary32 (nan32 N)" "nan_pattern binary64 (nan64 N)"
      using assms(2) by (simp_all add: nans_ok_def)
    have ok: "point_ok (cl_points c ! i)" using assms(3) i by simp
    have q: "cld_points (ppcloud_of N c) ! i = ppoint_of N (cl_points c ! i)" "i < length (cld_points (ppcloud_of N c))"
      using i by (simp_all add: ppcloud_of_def)
    show ?thesis
      using ok n by (simp add: read_point_def compact_of_read [OF assms(1) q(2)] q(1) ppoint_of_def point_ok_def
          word_bits32 word_bits64)
  qed
  have len: "unat (out_height m) * unat (out_width m) = length (cl_points c)"
    using assms(1) by (simp add: compact_of_def ppcloud_of_def)
  have "read_cloud m = those (map (read_point m) [0..<length (cl_points c)])" by (simp add: read_cloud_def len)
  also have "\<dots> = Some (map ((!) (cl_points c)) [0..<length (cl_points c)])" by (rule those_map_Some) (simp add: pt)
  finally show ?thesis by (simp add: map_nth)
qed

section \<open>The points the driver computes are values of their types\<close>

definition untransformed :: "calc_ctx \<Rightarrow> bool" where
  "untransformed c \<longleftrightarrow> fixedFrame (cc_cfg c) = [] \<and> cc_targetFrame c = []"

definition floats3 :: "vec3 \<Rightarrow> bool" where
  "floats3 v \<longleftrightarrow> (case v of (x, y, z) \<Rightarrow> fp_of_fmt binary32 x \<and> fp_of_fmt binary32 y \<and> fp_of_fmt binary32 z)"

lemma mk_point_ok:
  assumes "untransformed c" "floats3 v" "fp_of_fmt binary32 inten" "fp_of_fmt binary64 t"
  shows "point_ok (mk_point c v inten t i)"
  using assms by (auto simp: mk_point_def transformPoint_def untransformed_def floats3_def point_ok_def)

lemma plain_xyz_floats: "plain_xyz tb d i az = Some v \<Longrightarrow> floats3 v"
  by (auto simp: plain_xyz_def floats3_def bind_eq_Some_conv Let_def)

lemma xt_xyz_floats: "xt_xyz tb off d i az = Some v \<Longrightarrow> floats3 v"
  by (auto simp: xt_xyz_def floats3_def bind_eq_Some_conv Let_def)

lemma qt_branches_floats:
  "floats3 (qt_elevated e d se ce sa ca)" "floats3 (qt_level e d se ce sa ca)" "floats3 (qt_sideways e d se ce sa ca)"
  by (simp_all add: qt_elevated_def qt_level_def qt_sideways_def qt_from_z_def qt_root_def floats3_def Let_def)

lemma qt_xyz_floats: "qt_xyz e tb d i az = Some v \<Longrightarrow> floats3 v"
  using qt_branches_floats by (auto simp: qt_xyz_def bind_eq_Some_conv)

lemma times_fmt:
  assumes "fp_of_fmt binary64 (cc_pktTimestamp c)"
  shows "time_40p c k40 b i = Some t \<Longrightarrow> fp_of_fmt binary64 t"
    "time_l64 c k64 b i = Some t \<Longrightarrow> fp_of_fmt binary64 t"
    "time_l20 c k20 b i = Some t \<Longrightarrow> fp_of_fmt binary64 t"
    "time_qt c kqt b i = Some t \<Longrightarrow> fp_of_fmt binary64 t"
    "time_xt c kxt b i = Some t \<Longrightarrow> fp_of_fmt binary64 t"
  using assms
  by (auto simp: time_40p_def time_l64_def time_l20_def time_qt_def time_xt_def sensor_time_def Let_def
      bind_eq_Some_conv split: if_splits)

lemma units_ok:
  assumes "fp_of_fmt binary64 (cc_pktTimestamp c)" and "untransformed c"
  shows "calc_40p_unit c k40 b i = Some (Some p) \<Longrightarrow> point_ok p"
    "calc_l64_unit c k64 b i = Some (Some p) \<Longrightarrow> point_ok p"
    "calc_l20_unit c k20 b i = Some (Some p) \<Longrightarrow> point_ok p"
    "calc_qt_unit e c kqt b i = Some (Some p) \<Longrightarrow> point_ok p"
    "calc_xt_unit c kxt b i = Some (Some p) \<Longrightarrow> point_ok p"
  using times_fmt [OF assms(1)]
  by (auto simp: calc_40p_unit_def calc_l64_unit_def calc_l20_unit_def calc_qt_unit_def calc_xt_unit_def
      bind_eq_Some_conv split: if_splits
      intro!: mk_point_ok [OF assms(2)] intro: plain_xyz_floats xt_xyz_floats qt_xyz_floats)

lemma unit_points_ok:
  assumes "\<And>i p. g i = Some (Some p) \<Longrightarrow> point_ok p"
  shows "\<forall>p \<in> set (unit_points g is). point_ok p"
  using assms by (induction "is") (auto split: option.splits)

lemma decoded_points_ok:
  assumes "fp_of_fmt binary64 (cc_pktTimestamp c)" and "untransformed c"
  shows "\<forall>p \<in> set (decoded_points e c k). point_ok p"
proof (cases k)
  case (D40 k)
  then show ?thesis using unit_points_ok units_ok(1) [OF assms] by auto blast
next
  case (D64 k)
  then show ?thesis using unit_points_ok units_ok(2) [OF assms] by (auto simp: block_points_def) blast
next
  case (D20 k)
  then show ?thesis using unit_points_ok units_ok(3) [OF assms] by (auto simp: block_points_def) blast
next
  case (DQT k)
  then show ?thesis using unit_points_ok units_ok(4) [OF assms] by (auto simp: block_points_def) blast
next
  case (DXT k)
  then show ?thesis using unit_points_ok units_ok(5) [OF assms] by (auto simp: block_points_def) blast
qed

abbreviation points_of :: "collector \<Rightarrow> point list" where
  "points_of s \<equiv> snd (snd s)"

lemma collect_ok:
  assumes "untransformed c" and "fp_of_fmt binary64 (pp_stamp p)" and "\<forall>q \<in> set (points_of s). point_ok q"
  shows "\<forall>q \<in> set (points_of (collect e c p s)). point_ok q"
proof -
  let ?c = "c\<lparr>cc_pktTimestamp := pp_stamp p\<rparr>"
  have "untransformed ?c" using assms(1) by (simp add: untransformed_def)
  then have k: "\<forall>q \<in> set (kept (base e) ?c t st k). point_ok q" for t st k
    using decoded_points_ok [of ?c] assms(2) by (cases k) (auto simp: kept_def)
  obtain g t pts where s: "s = (g, t, pts)" by (cases s)
  obtain dec g' where o: "ts_observe g (pp_stamp p) = (dec, g')" by fastforce
  show ?thesis using assms(3) k by (cases "ts_accepted dec") (auto simp: s o collect_def Let_def)
qed

lemma fold_collect_ok:
  assumes "untransformed c" and "\<forall>p \<in> set ps. fp_of_fmt binary64 (pp_stamp p)" and "\<forall>q \<in> set (points_of s). point_ok q"
  shows "\<forall>q \<in> set (points_of (fold (collect e c) ps s)). point_ok q"
  using assms(2,3)
proof (induction ps arbitrary: s)
  case (Cons p ps)
  have "\<forall>q \<in> set (points_of (collect e c p s)). point_ok q" using Cons.prems by (intro collect_ok [OF assms(1)]) auto
  then show ?case using Cons.IH Cons.prems(1) by (metis fold_simps(2) list.set_intros(2))
qed simp

end
