(* ===== verification/System.thy ===== *)
theory System
  imports Pipeline Udp_Input Node_Props Cloud_View
begin

text \<open>
  The threads of the running node together: the receiving thread (\<^verbatim>\<open>RecvTask\<close> on
  \<^verbatim>\<open>Input::getPacket\<close>), the processing thread (\<^verbatim>\<open>ProcessLiarPacket\<close> with the callback
  \<^verbatim>\<open>lidarCallback\<close> that it calls), the publishing thread (\<^verbatim>\<open>publishPointClouds\<close>) and the
  control topic. They share the packet queue and the mailbox only. An execution is an interleaving of
  their turns: a list of events, each with the answers that its system calls and clocks give.
\<close>

section \<open>State and events\<close>

text \<open>
  The clouds that a packet completes are handed over in the call of \<^verbatim>\<open>EmitBackMessege\<close>; the
  callback touches the node only, the rest of the packet the driver only. So the callbacks are
  turns of their own, in order, all of them before the thread's next packet. \<open>called\<close> counts them.
\<close>

record system =
  pipe :: pipeline
  ros :: node
  called :: nat

record sys_env =
  drive :: drv_env
  publishing :: node_env
  tz_second :: int
  has_gps_callback :: bool
  udp :: Input
  nan_bits :: nans

record datagram_io =
  io_poll :: poll_result
  io_recvfrom :: "int \<Rightarrow> recv_result"
  io_time :: fp
  io_packet :: PandarPacket
  io_gps :: PandarGPS

datatype sys_event =
  Receive datagram_io
| Process
| Callback "int \<times> int" bool "int \<times> int"
| Publisher node_event

definition callback_for :: "nans \<Rightarrow> emission \<Rightarrow> int \<times> int \<Rightarrow> bool \<Rightarrow> int \<times> int \<Rightarrow> callback_args" where
  "callback_for N m tc ok tr =
     \<lparr>cb_cloud = Some (ppcloud_of N (em_cloud m)), cb_timestamp = em_timestamp m, cb_scan = em_scan m,
      cb_conversion = tc, cb_raw_ok = ok, cb_raw_times = tr\<rparr>"

text \<open>
  \<^const>\<open>Blocked\<close> is an event that its thread cannot take now. The times of GPS messages go to
  \<^verbatim>\<open>gpsCallback\<close>.
\<close>

definition receive_step :: "sys_env \<Rightarrow> datagram_io \<Rightarrow> system \<Rightarrow> system run" where
  "receive_step E io s =
     (case getPacket (io_poll io) (io_recvfrom io) (io_time io) (io_packet io) (udp E) of
        None \<Rightarrow> Undef
      | Some pk \<Rightarrow>
          (case RecvTask_turn (base (drive E)) (tz_second E) (has_gps_callback E) (io_gps io) pk (recv (pipe s)) of
             None \<Rightarrow> Undef
           | Some r \<Rightarrow>
               if list_all (\<lambda>t. gpsCallback t \<noteq> None) (drop (length (gpsTimes (recv (pipe s)))) (gpsTimes r))
               then Done (s\<lparr>pipe := (pipe s)\<lparr>recv := r\<rparr>\<rparr>) else Undef))"

definition process_step :: "sys_env \<Rightarrow> system \<Rightarrow> system run" where
  "process_step E s =
     (if \<not> alive (pipe s) \<or> called s \<noteq> length (emitted (drv (pipe s))) then Blocked
      else (case pipe_step (drive E) TProcess (pipe s) of None \<Rightarrow> Undef | Some q \<Rightarrow> Done (s\<lparr>pipe := q\<rparr>)))"

text \<open>An exception of the callback leaves the thread function.\<close>

definition callback_step :: "sys_env \<Rightarrow> int \<times> int \<Rightarrow> bool \<Rightarrow> int \<times> int \<Rightarrow> system \<Rightarrow> system run" where
  "callback_step E tc ok tr s =
     (if length (emitted (drv (pipe s))) \<le> called s then Blocked
      else
        (case lidarCallback (publishing E)
                (callback_for (nan_bits E) (emitted (drv (pipe s)) ! called s) tc ok tr) (ros s) of
           None \<Rightarrow> Undef
         | Some (Inl x) \<Rightarrow> Done (s\<lparr>pipe := (pipe s)\<lparr>alive := False\<rparr>\<rparr>)
         | Some (Inr n) \<Rightarrow> Done (s\<lparr>ros := n, called := called s + 1\<rparr>)))"

definition publisher_event :: "node_event \<Rightarrow> bool" where
  "publisher_event ev \<longleftrightarrow> (case ev of NCallback a \<Rightarrow> False | NStop \<Rightarrow> False | _ \<Rightarrow> True)"

definition publisher_step :: "sys_env \<Rightarrow> node_event \<Rightarrow> system \<Rightarrow> system run" where
  "publisher_step E ev s =
     (if \<not> publisher_event ev then Blocked
      else (case node_step (publishing E) ev (ros s) of None \<Rightarrow> Blocked | Some n \<Rightarrow> Done (s\<lparr>ros := n\<rparr>)))"

fun sys_step :: "sys_env \<Rightarrow> sys_event \<Rightarrow> system \<Rightarrow> system run" where
  "sys_step E (Receive io) s = receive_step E io s"
| "sys_step E Process s = process_step E s"
| "sys_step E (Callback tc ok tr) s = callback_step E tc ok tr s"
| "sys_step E (Publisher ev) s = publisher_step E ev s"

fun sys_run :: "sys_env \<Rightarrow> sys_event list \<Rightarrow> system \<Rightarrow> system run" where
  "sys_run E [] s = Done s"
| "sys_run E (ev # evs) s = (case sys_step E ev s of Done s' \<Rightarrow> sys_run E evs s' | Blocked \<Rightarrow> Blocked | Undef \<Rightarrow> Undef)"

text \<open>A node whose threads have just been started.\<close>

definition fresh_system :: "system \<Rightarrow> bool" where
  "fresh_system s \<longleftrightarrow> alive (pipe s) \<and> called s = 0 \<and> (\<exists>p. ros s = new_node p) \<and>
     queue_ok (packetsBuffer (recv (pipe s))) \<and> queued (recv (pipe s)) = [] \<and>
     emitted (drv (pipe s)) = [] \<and> pointIndex (drv (pipe s)) = 0 \<and> outMsg (drv (pipe s)) = empty_cloud"

section \<open>What arrives\<close>

definition datagram :: "Input \<Rightarrow> datagram_io \<Rightarrow> (fp \<times> byte list) list" where
  "datagram i io =
     (case (pollfds i, io_poll io) of
        (Some fds, PollReady revs) \<Rightarrow>
          (case first_in 0 revs of
             Some k \<Rightarrow>
               (case io_recvfrom io (fds ! k) of Datagram bs \<Rightarrow> [(io_time io, take ETHERNET_MTU bs)] | _ \<Rightarrow> [])
           | None \<Rightarrow> [])
      | _ \<Rightarrow> [])"

fun arrivals :: "Input \<Rightarrow> sys_event list \<Rightarrow> (fp \<times> byte list) list" where
  "arrivals i [] = []"
| "arrivals i (Receive io # evs) = datagram i io @ arrivals i evs"
| "arrivals i (_ # evs) = arrivals i evs"

definition contents :: "PandarPacket \<Rightarrow> fp \<times> byte list" where
  "contents p = (pp_stamp p, take (pp_size p) (pp_data p))"

text \<open>
  What the environment does: the packet object has its declared size, the clock gives
  \<^verbatim>\<open>double\<close>s, and a datagram that the poll announced is there.
\<close>

definition io_ok :: "Input \<Rightarrow> datagram_io \<Rightarrow> bool" where
  "io_ok i io \<longleftrightarrow> length (pp_data (io_packet io)) = ETHERNET_MTU \<and> fp_of_fmt binary64 (io_time io) \<and>
     (case pollfds i of Some fds \<Rightarrow> list_all (\<lambda>fd. io_recvfrom io fd \<noteq> WouldBlock) fds | None \<Rightarrow> True)"

definition event_ok :: "Input \<Rightarrow> sys_event \<Rightarrow> bool" where
  "event_ok i ev \<longleftrightarrow> (case ev of Receive io \<Rightarrow> io_ok i io | _ \<Rightarrow> True)"

lemma getPacket_contents:
  assumes "getPacket (io_poll io) (io_recvfrom io) (io_time io) (io_packet io) i = Some (Some p)" and "io_ok i io"
  shows "datagram i io = [contents p] \<and> fp_of_fmt binary64 (pp_stamp p)"
proof -
  obtain fds revs k where k: "pollfds i = Some fds" "io_poll io = PollReady revs" "length revs = length fds" "first_in 0 revs = Some k"
    using assms(1) by (auto simp: getPacket_def split: if_splits poll_result.splits option.splits)
  have "io_recvfrom io (fds ! k) \<noteq> WouldBlock"
    using assms(2) k first_in_less [OF k(4)] by (auto simp: io_ok_def list_all_iff)
  then show ?thesis
    using assms k
    by (auto simp: getPacket_def datagram_def contents_def io_ok_def Let_def min_def split: if_splits recv_result.splits)
qed

section \<open>The receiving thread\<close>

lemma PushLiDARData_gps [simp]: "gpsTimes (PushLiDARData p r) = gpsTimes r"
  by (simp add: PushLiDARData_def split: prod.splits)

lemma history_gps: "history e s0 ps kp n s \<Longrightarrow> history e s0 ps kp n (s\<lparr>recv := (recv s)\<lparr>gpsTimes := g\<rparr>\<rparr>)"
  by (simp add: history_def queued_def)

lemma receive_history:
  assumes h: "history e s0 ps kp n (pipe s)" and run: "receive_step E io s = Done s'" and ok: "io_ok (udp E) io"
  shows "\<exists>kp' n'. history e s0 ps (kp @ kp') n' (pipe s') \<and> subseq (map contents kp') (datagram (udp E) io) \<and>
    (\<forall>p \<in> set kp'. fp_of_fmt binary64 (pp_stamp p)) \<and> ros s' = ros s \<and> called s' = called s \<and>
    drv (pipe s') = drv (pipe s) \<and> alive (pipe s') = alive (pipe s)"
proof -
  obtain pk r where pk: "getPacket (io_poll io) (io_recvfrom io) (io_time io) (io_packet io) (udp E) = Some pk"
    "RecvTask_turn (base (drive E)) (tz_second E) (has_gps_callback E) (io_gps io) pk (recv (pipe s)) = Some r"
    "s' = s\<lparr>pipe := (pipe s)\<lparr>recv := r\<rparr>\<rparr>"
    using run by (auto simp: receive_step_def split: option.splits if_splits)
  have rest: "ros s' = ros s" "called s' = called s" "drv (pipe s') = drv (pipe s)" "alive (pipe s') = alive (pipe s)"
    by (simp_all add: pk(3))
  consider "r = recv (pipe s)" | g where "r = (recv (pipe s))\<lparr>gpsTimes := g\<rparr>"
    | p where "pk = Some p" "r = PushLiDARData p (recv (pipe s))"
    using pk(2) by (auto simp: RecvTask_turn_def bind_eq_Some_conv split: option.splits if_splits)
  then show ?thesis
  proof cases
    case 1
    then have "history e s0 ps (kp @ []) n (pipe s')" using h by (simp add: pk(3))
    then show ?thesis using rest by (intro exI [of _ "[]"] exI [of _ n]) simp
  next
    case 2
    then have "history e s0 ps (kp @ []) n (pipe s')" using history_gps [OF h] by (simp add: pk(3))
    then show ?thesis using rest by (intro exI [of _ "[]"] exI [of _ n]) simp
  next
    case 3
    note c = getPacket_contents [OF pk(1) [unfolded 3(1)] ok]
    from push_history [OF h, of p] obtain kp1 n1 where 1: "history e s0 ps kp1 n1 (pipe s')" "kp1 = kp @ [p] \<or> kp1 = kp @ []"
      using 3(2) by (auto simp: pk(3))
    from 1(2) show ?thesis
    proof
      assume "kp1 = kp @ [p]"
      then show ?thesis using 1(1) c rest by (intro exI [of _ "[p]"] exI [of _ n1]) simp
    next
      assume "kp1 = kp @ []"
      then show ?thesis using 1(1) rest by (intro exI [of _ "[]"] exI [of _ n1]) simp
    qed
  qed
qed

section \<open>The processing thread\<close>

definition out_ok :: "driver \<Rightarrow> bool" where
  "out_ok d \<longleftrightarrow> cl_width (outMsg d) = length (cl_points (outMsg d)) \<and>
     (cl_points (outMsg d) \<noteq> [] \<longrightarrow> cl_height (outMsg d) = 1) \<and> (\<forall>m \<in> set (emitted d). emission_ok m)"

lemma process_packet_out:
  assumes "out_ok d" and "process_packet e p d = Some (r, d')"
  shows "out_ok d' \<and> (\<exists>ms. emitted d' = emitted d @ ms)"
proof -
  have "em_inv (d_cfg d) (cl_frame_id (outMsg d)) (emitted d) d" using assms(1) by (simp add: em_inv_def out_ok_def)
  from process_packet_em [OF this assms(2)]
  have dn: "em_done (d_cfg d) (cl_frame_id (outMsg d)) (emitted d) d'" .
  obtain ms where ms: "emitted d' = emitted d @ ms" "\<forall>m \<in> set ms. emission_ok m" using em_done_new [OF dn] by blast
  obtain f where "em_inv (d_cfg d) f (emitted d') d'" using dn by (auto simp: em_done_def)
  then show ?thesis using ms assms(1) by (auto simp: out_ok_def em_inv_def)
qed

lemma process_step_facts:
  assumes "history e s0 ps kp n (pipe s)" and "process_step E s = Done s'" and "alive (pipe s')"
    and "out_ok (drv (pipe s))" and "e = drive E"
  shows "\<exists>ps'. history e s0 ps' kp n (pipe s') \<and> out_ok (drv (pipe s')) \<and> ros s' = ros s \<and> called s' = called s \<and>
    (\<exists>ms. emitted (drv (pipe s')) = emitted (drv (pipe s)) @ ms)"
proof -
  obtain q where q: "pipe_step e TProcess (pipe s) = Some q" "s' = s\<lparr>pipe := q\<rparr>"
    using assms(2,5) by (auto simp: process_step_def simp del: pipe_step.simps split: if_splits option.splits)
  have al: "alive q" using assms(3) q(2) by simp
  obtain ps' where ps': "history e s0 ps' kp n q" using process_history [OF assms(1) q(1) al] by blast
  have "drv q = drv (pipe s) \<or> (\<exists>p. process_packet e p (drv (pipe s)) = Some (Next, drv q))"
    using q(1) al by (auto simp: bind_eq_Some_conv split: if_splits prod.splits option.splits)
  then have "out_ok (drv q) \<and> (\<exists>ms. emitted (drv q) = emitted (drv (pipe s)) @ ms)"
    using process_packet_out assms(4) by auto
  then show ?thesis using ps' q(2) by auto
qed

section \<open>The callback and the publishing thread\<close>

text \<open>\<open>m\<close> is the message made of the cloud of the callback \<open>em\<close>.\<close>

definition carries :: "sys_env \<Rightarrow> PointCloud2 \<Rightarrow> emission \<Rightarrow> bool" where
  "carries E m em \<longleftrightarrow> compact_of (big_endian (publishing E)) (ppcloud_of (nan_bits E) (em_cloud em)) m \<and>
     stamp_of (em_timestamp em) = Some (out_stamp_sec m, int (out_stamp_nanosec m))"

lemma push_cloud_stored:
  "pointcloudLayout (push_cloud msg n) = pointcloudLayout n \<and>
   (stored (mbx (push_cloud msg n)) = stored (mbx n) \<or> stored (mbx (push_cloud msg n)) = stored (mbx n) @ [msg])"
  by (cases "mb_push msg (box (mbx n))") (auto simp: push_cloud_def Let_def split: LatestValuePushResult.splits)

lemma stamp_of_nonneg: "stamp_of t = Some (sec, ns) \<Longrightarrow> 0 \<le> ns"
  by (auto simp: stamp_of_def fp_to_int_def bind_eq_Some_conv split: option.splits if_splits)

lemma compact_of_stamp [simp]:
  "compact_of big c (m\<lparr>out_stamp_sec := a, out_stamp_nanosec := b\<rparr>) = compact_of big c m"
  by (simp add: compact_of_def)

lemma callback_stored:
  assumes run: "lidarCallback (publishing E) (callback_for (nan_bits E) em tc ok tr) n = Some (Inr n')"
    and lay: "pointcloudLayout n = ''compact''"
  shows "pointcloudLayout n' = ''compact'' \<and>
    (stored (mbx n') = stored (mbx n) \<or> (\<exists>m. carries E m em \<and> stored (mbx n') = stored (mbx n) @ [m]))"
proof -
  let ?a = "callback_for (nan_bits E) em tc ok tr"
  let ?P = "\<lambda>n'. pointcloudLayout n' = ''compact'' \<and>
    (stored (mbx n') = stored (mbx n) \<or> (\<exists>m. carries E m em \<and> stored (mbx n') = stored (mbx n) @ [m]))"
  obtain n1 where n1: "if wants_points n
      then publish_points (publishing E) (cb_cloud ?a) (cb_timestamp ?a) (cb_conversion ?a) n = Some (Inr n1) else n1 = n"
    and fin: "(if wants_raw n1 then publish_raw (cb_scan ?a) (cb_raw_ok ?a) (cb_raw_times ?a) n1 else Inr n1) = Inr n'"
    using run by (auto simp: lidarCallback_def split: option.splits sum.splits if_splits)
  have "?P n1"
  proof (cases "wants_points n")
    case True
    with n1 have "publish_points (publishing E) (cb_cloud ?a) (cb_timestamp ?a) (cb_conversion ?a) n = Some (Inr n1)" by simp
    then show ?thesis
    proof (cases rule: publish_points_cases)
      case (3 c m sec ns g a b)
      let ?m = "m\<lparr>out_stamp_sec := sec, out_stamp_nanosec := nat ns\<rparr>"
      have "makeCompactPointCloud2 (big_endian (publishing E)) (ppcloud_of (nan_bits E) (em_cloud em)) = Some (Inr m)"
        using 3(1,2) lay by (simp add: convert_def callback_for_def)
      then have "carries E ?m em"
        using makeCompactPointCloud2_compact 3(3) stamp_of_nonneg by (fastforce simp: carries_def callback_for_def)
      then show ?thesis using push_cloud_stored [of ?m "n\<lparr>cloudTimestampGuard := g, cloudConversionTotalNs := a, cloudConversionMaxNs := b\<rparr>"] lay
        by (auto simp: 3(4))
    qed (use lay in auto)
  qed (use n1 lay in simp)
  then show ?thesis
    using fin by (auto simp: publish_raw_def Let_def split: if_splits prod.splits)
qed

lemma publisher_stored:
  assumes "publisher_step E ev s = Done s'"
  shows "stored (mbx (ros s')) = stored (mbx (ros s)) \<and> pointcloudLayout (ros s') = pointcloudLayout (ros s) \<and>
    pipe s' = pipe s \<and> called s' = called s \<and> node_step (publishing E) ev (ros s) = Some (ros s')"
proof -
  obtain n where n: "node_step (publishing E) ev (ros s) = Some n" "s' = s\<lparr>ros := n\<rparr>" "publisher_event ev"
    using assms by (auto simp: publisher_step_def split: if_splits option.splits)
  have t: "stored (mbx n) = stored (mbx (ros s)) \<and> pointcloudLayout n = pointcloudLayout (ros s)"
    if "take_cloud c (ros s) = Some n" "c \<in> {ECall, EWake}" for c
    using that by (auto simp: take_cloud_def mb_enter_def Let_def split: option.splits if_splits prod.splits)
  have "stored (mbx n) = stored (mbx (ros s)) \<and> pointcloudLayout n = pointcloudLayout (ros s)"
    using n t by (cases ev) (auto simp: publisher_event_def publish_output_def node_control_callback_def Let_def
        split: option.splits prod.splits if_splits)
  then show ?thesis using n by simp
qed

section \<open>Invariant of the system\<close>

definition sys_inv :: "sys_env \<Rightarrow> pipeline \<Rightarrow> PandarPacket list \<Rightarrow> PandarPacket list \<Rightarrow> system \<Rightarrow> bool" where
  "sys_inv E s0 ps kp s \<longleftrightarrow> (\<exists>n. history (drive E) s0 ps kp n (pipe s)) \<and> out_ok (drv (pipe s)) \<and>
     (\<exists>k. node_inv (ros s) k) \<and> pointcloudLayout (ros s) = ''compact'' \<and>
     called s \<le> length (emitted (drv (pipe s))) \<and>
     (\<exists>ems. list_all2 (carries E) (stored (mbx (ros s))) ems \<and> subseq ems (take (called s) (emitted (drv (pipe s)))))"

lemma subseq_list_all2:
  assumes "subseq xs ys" and "list_all2 R ys zs"
  shows "\<exists>ws. list_all2 R xs ws \<and> subseq ws zs"
  using assms
proof (induction arbitrary: zs rule: list_emb.induct)
  case (list_emb_Cons xs ys y)
  then obtain z zs' where z: "zs = z # zs'" "list_all2 R ys zs'" by (cases zs) auto
  then show ?case using list_emb_Cons.IH by (meson list_emb.list_emb_Cons)
next
  case (list_emb_Cons2 x y xs ys)
  then obtain z zs' where z: "zs = z # zs'" "R y z" "list_all2 R ys zs'" by (cases zs) auto
  then obtain ws where "list_all2 R xs ws" "subseq ws zs'" using list_emb_Cons2.IH by blast
  then show ?case using z list_emb_Cons2.hyps(1) by (intro exI [of _ "z # ws"]) auto
qed (auto intro: exI [of _ "[]"])

lemma callback_inv_sys:
  assumes inv: "sys_inv E s0 ps kp s" and run: "callback_step E tc ok tr s = Done s'" and al: "alive (pipe s')"
  shows "sys_inv E s0 ps kp s'"
proof -
  let ?es = "emitted (drv (pipe s))"
  define em where "em = ?es ! called s"
  obtain n where c: "called s < length ?es" "s' = s\<lparr>ros := n, called := called s + 1\<rparr>"
    "lidarCallback (publishing E) (callback_for (nan_bits E) em tc ok tr) (ros s) = Some (Inr n)"
    using run al by (auto simp: callback_step_def em_def split: if_splits option.splits sum.splits)
  obtain k where "node_inv (ros s) k" using inv by (auto simp: sys_inv_def)
  then have k: "node_inv n k" using callback_inv c(3) by blast
  have tk: "take (Suc (called s)) ?es = take (called s) ?es @ [em]" using c(1) by (simp add: em_def take_Suc_conv_app_nth)
  obtain ems where ems: "list_all2 (carries E) (stored (mbx (ros s))) ems" "subseq ems (take (called s) ?es)"
    using inv by (auto simp: sys_inv_def)
  note st = callback_stored [OF c(3)]
  have "\<exists>ems. list_all2 (carries E) (stored (mbx n)) ems \<and> subseq ems (take (Suc (called s)) ?es)"
  proof (cases "stored (mbx n) = stored (mbx (ros s))")
    case True
    then show ?thesis using ems by (auto simp: tk intro: subseq_app)
  next
    case False
    then obtain m where m: "carries E m em" "stored (mbx n) = stored (mbx (ros s)) @ [m]"
      using st inv by (auto simp: sys_inv_def)
    have "list_all2 (carries E) (stored (mbx n)) (ems @ [em])" using m ems(1) by (simp add: list_all2_appendI)
    moreover have "subseq (ems @ [em]) (take (Suc (called s)) ?es)" using ems(2) by (simp add: tk)
    ultimately show ?thesis by blast
  qed
  then show ?thesis using inv k c(1) st by (auto simp: sys_inv_def c(2))
qed

lemma sys_step_inv:
  assumes inv: "sys_inv E s0 ps kp s" and run: "sys_step E ev s = Done s'" and al: "alive (pipe s')" and ok: "event_ok (udp E) ev"
  shows "\<exists>ps' kp'. sys_inv E s0 ps' (kp @ kp') s' \<and> subseq (map contents kp') (arrivals (udp E) [ev]) \<and>
    (\<forall>p \<in> set kp'. fp_of_fmt binary64 (pp_stamp p))"
proof (cases ev)
  case (Receive io)
  obtain n where "history (drive E) s0 ps kp n (pipe s)" using inv by (auto simp: sys_inv_def)
  from receive_history [OF this, of E io s'] Receive run ok inv show ?thesis
    by (fastforce simp: sys_inv_def event_ok_def)
next
  case Process
  obtain n where "history (drive E) s0 ps kp n (pipe s)" using inv by (auto simp: sys_inv_def)
  from process_step_facts [OF this, of E s'] Process run al inv obtain ps' ms where
    "history (drive E) s0 ps' kp n (pipe s')" "out_ok (drv (pipe s'))" "ros s' = ros s" "called s' = called s"
    "emitted (drv (pipe s')) = emitted (drv (pipe s)) @ ms" by (auto simp: sys_inv_def)
  then have "sys_inv E s0 ps' (kp @ []) s'" using inv by (auto simp: sys_inv_def)
  then show ?thesis by (intro exI [of _ ps'] exI [of _ "[]"]) simp
next
  case (Callback tc b tr)
  then have "sys_inv E s0 ps (kp @ []) s'" using callback_inv_sys [OF inv _ al] run by simp
  then show ?thesis by (intro exI [of _ ps] exI [of _ "[]"]) simp
next
  case (Publisher nev)
  note st = publisher_stored [of E nev s s']
  obtain k where "node_inv (ros s) k" using inv by (auto simp: sys_inv_def)
  then have "\<exists>k. node_inv (ros s') k" using node_step_inv st run Publisher by (metis sys_step.simps(4))
  then have "sys_inv E s0 ps (kp @ []) s'" using inv st run Publisher by (simp add: sys_inv_def)
  then show ?thesis by (intro exI [of _ ps] exI [of _ "[]"]) simp
qed

lemma alive_before: "sys_step E ev s = Done s' \<Longrightarrow> alive (pipe s') \<Longrightarrow> alive (pipe s)"
  by (cases ev) (auto simp: receive_step_def process_step_def callback_step_def publisher_step_def
      simp del: pipe_step.simps node_step.simps dest: alive_back split: option.splits sum.splits if_splits)

lemma alive_before_run: "sys_run E evs s = Done s' \<Longrightarrow> alive (pipe s') \<Longrightarrow> alive (pipe s)"
  by (induction evs arbitrary: s) (auto dest: alive_before split: run.splits simp del: sys_step.simps)

lemma arrivals_Cons: "arrivals i (ev # evs) = arrivals i [ev] @ arrivals i evs"
  by (cases ev) simp_all

lemma sys_run_inv:
  assumes "sys_inv E s0 ps kp s" and "sys_run E evs s = Done s'" and "alive (pipe s')" and "list_all (event_ok (udp E)) evs"
  shows "\<exists>ps' kp'. sys_inv E s0 ps' (kp @ kp') s' \<and> subseq (map contents kp') (arrivals (udp E) evs) \<and>
    (\<forall>p \<in> set kp'. fp_of_fmt binary64 (pp_stamp p))"
  using assms
proof (induction evs arbitrary: s ps kp)
  case Nil
  then have "sys_inv E s0 ps (kp @ []) s'" by simp
  then show ?case by (intro exI [of _ ps] exI [of _ "[]"]) simp
next
  case (Cons ev evs)
  then obtain s1 where s1: "sys_step E ev s = Done s1" "sys_run E evs s1 = Done s'"
    by (auto split: run.splits simp del: sys_step.simps)
  have al: "alive (pipe s1)" using alive_before_run [OF s1(2) Cons.prems(3)] .
  have ok: "event_ok (udp E) ev" "list_all (event_ok (udp E)) evs" using Cons.prems(4) by simp_all
  from sys_step_inv [OF Cons.prems(1) s1(1) al ok(1)] obtain ps1 k1 where
    1: "sys_inv E s0 ps1 (kp @ k1) s1" "subseq (map contents k1) (arrivals (udp E) [ev])"
      "\<forall>p \<in> set k1. fp_of_fmt binary64 (pp_stamp p)" by blast
  from Cons.IH [OF 1(1) s1(2) Cons.prems(3) ok(2)] obtain ps2 k2 where
    2: "sys_inv E s0 ps2 ((kp @ k1) @ k2) s'" "subseq (map contents k2) (arrivals (udp E) evs)"
      "\<forall>p \<in> set k2. fp_of_fmt binary64 (pp_stamp p)" by blast
  have "subseq (map contents (k1 @ k2)) (arrivals (udp E) (ev # evs))"
    unfolding arrivals_Cons [of "udp E" ev evs] map_append using 1(2) 2(2) by (rule list_emb_append_mono)
  then show ?case using 1(3) 2(1,3) by (intro exI [of _ ps2] exI [of _ "k1 @ k2"]) auto
qed

section \<open>End to end\<close>

type_synonym view = "(int \<times> int) option \<times> string \<times> point list option"

text \<open>What a subscriber finds in a message, and what it should find of a cloud.\<close>

definition view :: "PointCloud2 \<Rightarrow> view" where
  "view m = (Some (out_stamp_sec m, int (out_stamp_nanosec m)), out_frame_id m, read_cloud m)"

definition view_of_cloud :: "cloud \<Rightarrow> view" where
  "view_of_cloud c = (stamp_of (pt_timestamp (hd (cl_points c))), cl_frame_id c, Some (cl_points c))"

lemma carries_view:
  assumes "carries E m em" and "nans_ok (nan_bits E)" and "emission_ok em" and "\<forall>p \<in> set (cl_points (em_cloud em)). point_ok p"
  shows "view m = view_of_cloud (em_cloud em)"
  using assms read_cloud_compact [OF _ assms(2,4)]
  by (auto simp: view_def view_of_cloud_def carries_def emission_ok_def compact_of_def ppcloud_of_def)

lemma published_stored:
  assumes "node_inv n k"
  shows "subseq (nd_published n) (stored (mbx n))"
proof -
  have "subseq (nd_published n) (nd_published n @ in_hand n)" by (rule subseq_rev_drop_many) simp
  moreover have "subseq (nd_published n @ in_hand n) (Latest_Value_Mailbox.delivered (mbx n))"
    using assms by (simp add: node_inv_def)
  moreover have "mb_inv (mbx n)" using assms mb_reach_inv by (auto simp: node_inv_def)
  then obtain xs where "stored (mbx n) = xs @ mb_held (box (mbx n))" "subseq (Latest_Value_Mailbox.delivered (mbx n)) xs"
    by (auto simp: mb_inv_def)
  then have "subseq (Latest_Value_Mailbox.delivered (mbx n)) (stored (mbx n))" by (simp add: subseq_app)
  ultimately show ?thesis using subseq_order.order_trans by blast
qed

lemma published_views:
  assumes inv: "sys_inv E s0 ps kp s" and nan: "nans_ok (nan_bits E)" and pts: "\<forall>q \<in> set (all_points (drv (pipe s))). point_ok q"
  shows "subseq (map view (nd_published (ros s))) (map (view_of_cloud \<circ> em_cloud) (emitted (drv (pipe s))))"
proof -
  let ?es = "emitted (drv (pipe s))"
  obtain k ems where 1: "node_inv (ros s) k" "list_all2 (carries E) (stored (mbx (ros s))) ems" "subseq ems (take (called s) ?es)"
    using inv by (auto simp: sys_inv_def)
  obtain ws where ws: "list_all2 (carries E) (nd_published (ros s)) ws" "subseq ws ems"
    using subseq_list_all2 [OF published_stored [OF 1(1)] 1(2)] by blast
  have "prefix (take (called s) ?es) ?es" by (rule take_is_prefix)
  then have sub: "subseq ws ?es" using ws(2) 1(3) by (meson prefix_imp_subseq subseq_order.order_trans)
  have ok: "emission_ok em \<and> (\<forall>q \<in> set (cl_points (em_cloud em)). point_ok q)" if "em \<in> set ?es" for em
    using that inv pts by (auto simp: sys_inv_def out_ok_def all_points_def Driver_Props.delivered_def)
  have "\<forall>em \<in> set ws. em \<in> set ?es" using list_emb_set [OF sub] by blast
  with ws(1) have "map view (nd_published (ros s)) = map (view_of_cloud \<circ> em_cloud) ws"
  proof (induction rule: list_all2_induct)
    case (Cons m ms em es)
    have "em \<in> set ?es" using Cons.prems by simp
    then have "view m = view_of_cloud (em_cloud em)" using carries_view [OF Cons.hyps(1) nan] ok by blast
    then show ?case using Cons.IH Cons.prems by simp
  qed simp
  then show ?thesis using subseq_map [OF sub] by simp
qed

lemma fresh_points:
  "fresh_system s \<Longrightarrow> all_points (drv (pipe s)) = []" "fresh_system s \<Longrightarrow> out_ok (drv (pipe s))"
  by (simp_all add: fresh_system_def all_points_def Driver_Props.delivered_def Driver_Props.pending_def out_ok_def empty_cloud_def)

lemma fresh_sys_inv:
  assumes "fresh_system s" and "plain (drv (pipe s))" and "pointcloudLayout (ros s) = ''compact''"
  shows "sys_inv E (pipe s) [] [] s"
proof -
  obtain p where p: "ros s = new_node p" using assms(1) by (auto simp: fresh_system_def)
  have "history (drive E) (pipe s) [] [] 0 (pipe s)" using assms(1,2) by (simp add: history_def fresh_system_def)
  moreover have "node_inv (ros s) 0" "stored (mbx (ros s)) = []"
    using node_inv_new [of p] by (simp_all add: p new_node_def mb_init_def)
  ultimately show ?thesis using assms fresh_points(2) [OF assms(1)] unfolding sys_inv_def fresh_system_def by auto
qed

lemma system_end_to_end:
  assumes fr: "fresh_system s0" and run: "sys_run E evs s0 = Done s" and al: "alive (pipe s)"
    and cfg: "plain (drv (pipe s0))" "pointcloudLayout (ros s0) = ''compact''"
    and io: "list_all (event_ok (udp E)) evs" and nan: "nans_ok (nan_bits E)"
  defines "d0 \<equiv> drv (pipe s0)"
  shows "\<exists>kp ps. subseq (map contents kp) (arrivals (udp E) evs) \<and> kp = ps @ queued (recv (pipe s)) \<and>
    concat (map (cl_points \<circ> em_cloud) (emitted (drv (pipe s)))) @ Driver_Props.pending (drv (pipe s)) =
      points_of (fold (collect (drive E) (ctx_of d0)) ps (tsGuard d0, seqTracker d0, [])) \<and>
    subseq (map view (nd_published (ros s))) (map (view_of_cloud \<circ> em_cloud) (emitted (drv (pipe s))))"
proof -
  from sys_run_inv [OF fresh_sys_inv [OF fr cfg] run al io] obtain ps kp where
    1: "sys_inv E (pipe s0) ps kp s" "subseq (map contents kp) (arrivals (udp E) evs)"
      "\<forall>p \<in> set kp. fp_of_fmt binary64 (pp_stamp p)" by auto
  then obtain n where h: "history (drive E) (pipe s0) ps kp n (pipe s)" by (auto simp: sys_inv_def)
  have c0: "collected d0 = (tsGuard d0, seqTracker d0, [])" using fresh_points(1) [OF fr] by (simp add: collected_def d0_def)
  have kp: "kp = ps @ queued (recv (pipe s))" using h fr by (simp add: history_def fresh_system_def)
  have "collected (drv (pipe s)) = fold (collect (drive E) (ctx_of d0)) ps (collected d0)"
    using h al by (simp add: history_def d0_def)
  then have col: "collected (drv (pipe s)) = fold (collect (drive E) (ctx_of d0)) ps (tsGuard d0, seqTracker d0, [])"
    unfolding c0 .
  have pts: "all_points (drv (pipe s)) = points_of (fold (collect (drive E) (ctx_of d0)) ps (tsGuard d0, seqTracker d0, []))"
    unfolding col [symmetric] by (simp add: collected_def)
  have "untransformed (ctx_of d0)" using cfg(1) by (simp add: untransformed_def ctx_of_def plain_def d0_def)
  then have "\<forall>q \<in> set (all_points (drv (pipe s))). point_ok q"
    unfolding pts by (rule fold_collect_ok) (use 1(3) kp in auto)
  note view = published_views [OF 1(1) nan this]
  show ?thesis
    using 1(2) kp pts view unfolding all_points_def Driver_Props.delivered_def by blast
qed

end
