(* ===== verification/System_Safety.thy ===== *)
theory System_Safety
  imports System
begin

text \<open>
  Undefined behaviour of the running node with an XT sensor, reception times, compact clouds and no
  transforms. As long as its tables are complete, what is left that an execution can trip over is in
  the definitions \<open>event_safe\<close> and \<open>room\<close>: datagrams that are empty or have another product's size, a
  datagram that is gone after the poll, a clock outside 1970 to 2038, a GPS message dated after 2038,
  and a point buffer that overflows because no frame ends.
\<close>

section \<open>Times\<close>

definition time_ok :: "fp \<Rightarrow> bool" where
  "time_ok t \<longleftrightarrow> fp_of_fmt binary64 t \<and> isfinite t \<and> 0 \<le> fval t \<and> fval t < 2 ^ 31"

lemma time_ok_stamp: "time_ok t \<Longrightarrow> stamp_of t \<noteq> None"
  using stamp_of_double [of t] by (auto simp: time_ok_def)

text \<open>With reception times every point has the time of its packet.\<close>

lemma mk_point_time [simp]: "pt_timestamp (mk_point c v inten t i) = t"
  by (simp add: mk_point_def split: prod.splits)

lemma units_time:
  assumes "realtime c"
  shows "calc_40p_unit c k40 b i = Some (Some p) \<Longrightarrow> pt_timestamp p = cc_pktTimestamp c"
    "calc_l64_unit c k64 b i = Some (Some p) \<Longrightarrow> pt_timestamp p = cc_pktTimestamp c"
    "calc_l20_unit c k20 b i = Some (Some p) \<Longrightarrow> pt_timestamp p = cc_pktTimestamp c"
    "calc_qt_unit e c kqt b i = Some (Some p) \<Longrightarrow> pt_timestamp p = cc_pktTimestamp c"
    "calc_xt_unit c kxt b i = Some (Some p) \<Longrightarrow> pt_timestamp p = cc_pktTimestamp c"
  using assms
  by (auto simp: calc_40p_unit_def calc_l64_unit_def calc_l20_unit_def calc_qt_unit_def calc_xt_unit_def
      time_40p_def time_l64_def time_l20_def time_qt_def time_xt_def bind_eq_Some_conv split: if_splits)

lemma unit_points_all: "(\<And>i p. g i = Some (Some p) \<Longrightarrow> P p) \<Longrightarrow> \<forall>p \<in> set (unit_points g is). P p"
  by (induction "is") (auto split: option.splits)

lemma decoded_points_time:
  assumes "realtime c"
  shows "\<forall>p \<in> set (decoded_points e c k). pt_timestamp p = cc_pktTimestamp c"
proof (cases k)
  case (D40 k)
  then show ?thesis
    using unit_points_all [of "calc_40p_unit c k b" "\<lambda>p. pt_timestamp p = cc_pktTimestamp c" for b] units_time(1) [OF assms] by auto
next
  case (D64 k)
  then show ?thesis
    using unit_points_all [of "calc_l64_unit c k b" "\<lambda>p. pt_timestamp p = cc_pktTimestamp c" for b] units_time(2) [OF assms]
    by (auto simp: block_points_def)
next
  case (D20 k)
  then show ?thesis
    using unit_points_all [of "calc_l20_unit c k b" "\<lambda>p. pt_timestamp p = cc_pktTimestamp c" for b] units_time(3) [OF assms]
    by (auto simp: block_points_def)
next
  case (DQT k)
  then show ?thesis
    using unit_points_all [of "calc_qt_unit e c k b" "\<lambda>p. pt_timestamp p = cc_pktTimestamp c" for b] units_time(4) [OF assms]
    by (auto simp: block_points_def)
next
  case (DXT k)
  then show ?thesis
    using unit_points_all [of "calc_xt_unit c k b" "\<lambda>p. pt_timestamp p = cc_pktTimestamp c" for b] units_time(5) [OF assms]
    by (auto simp: block_points_def)
qed

lemma ts_accepted_finite: "ts_accepted (fst (ts_observe g t)) \<Longrightarrow> isfinite t"
  by (auto simp: ts_observe_def ts_accepted_def split: if_splits)

definition packet_time_ok :: "PandarPacket \<Rightarrow> bool" where
  "packet_time_ok p \<longleftrightarrow> fp_of_fmt binary64 (pp_stamp p) \<and> stamp_ok (pp_stamp p)"

lemma packet_time: "packet_time_ok p \<Longrightarrow> isfinite (pp_stamp p) \<Longrightarrow> time_ok (pp_stamp p)"
  by (cases "pp_stamp p") (auto simp: packet_time_ok_def time_ok_def)

definition times_ok :: "point list \<Rightarrow> bool" where
  "times_ok ps \<longleftrightarrow> (\<forall>q \<in> set ps. time_ok (pt_timestamp q))"

lemma collect_times:
  assumes "realtime c" and "packet_time_ok p" and "times_ok (points_of s)"
  shows "times_ok (points_of (collect e c p s))"
proof -
  let ?c = "c\<lparr>cc_pktTimestamp := pp_stamp p\<rparr>"
  have "realtime ?c" using assms(1) by (simp add: realtime_def)
  then have k: "\<forall>q \<in> set (kept (base e) ?c t st k). pt_timestamp q = pp_stamp p" for t st k
    using decoded_points_time [of ?c] by (cases k) (auto simp: kept_def)
  obtain g t pts where s: "s = (g, t, pts)" by (cases s)
  obtain dec g' where o: "ts_observe g (pp_stamp p) = (dec, g')" by fastforce
  show ?thesis
  proof (cases "ts_accepted dec")
    case True
    then have "time_ok (pp_stamp p)" using packet_time [OF assms(2)] ts_accepted_finite [of g "pp_stamp p"] o by simp
    then show ?thesis using assms(3) k True by (auto simp: s o collect_def Let_def times_ok_def)
  qed (use assms(3) in \<open>simp add: s o collect_def times_ok_def\<close>)
qed

section \<open>Safe states\<close>

text \<open>A driver of an XT sensor with complete tables and reception times, as in the launch file.\<close>

definition xt_driver :: "driver \<Rightarrow> bool" where
  "xt_driver d \<longleftrightarrow> plain d \<and> timestampType (d_cfg d) = ''realtime'' \<and>
     lidarType (d_cfg d) \<in> {''PandarXT-32'', ''PandarXT-16'', ''PandarXTM''} \<and>
     xt_tables (lidarType (d_cfg d)) (d_tbl d) \<and> length (pointCloudList d) = MAX_LASER_NUM"

definition packet_safe :: "PandarPacket \<Rightarrow> bool" where
  "packet_safe p \<longleftrightarrow> \<not> other_format (pp_size p) \<and> 0 < pp_size p \<and> pp_size p \<le> length (pp_data p) \<and> packet_time_ok p"

definition room :: "driver \<Rightarrow> bool" where
  "room d \<longleftrightarrow> pointIndex d + 256 \<le> MAX_POINT_CLOUD_NUM"

lemma process_packet_safe:
  assumes d: "xt_driver d" and r: "room d" and p: "packet_safe p" and t: "times_ok (all_points d)"
    and ros: "ros_time_ok e"
  shows "\<exists>d'. process_packet e p d = Some (Next, d') \<and> xt_driver d' \<and> times_ok (all_points d') \<and>
    d_cfg d' = d_cfg d"
proof -
  obtain d' where d': "process_packet e p d = Some (Next, d')" "length (pointCloudList d') = MAX_LASER_NUM"
    using xt_packet_fits [of "lidarType (d_cfg d)" d p e] d r p ros
    by (auto simp: xt_driver_def room_def packet_safe_def packet_time_ok_def)
  have pl: "plain d" using d by (simp add: xt_driver_def)
  note n = process_packet_plain [OF pl d'(1)]
  have c: "d_cfg d' = d_cfg d" "d_tbl d' = d_tbl d"
    using n [of undefined] by (simp_all add: ctx_of_def)
  have "times_ok (points_of (collect e (ctx_of d) p (collected d)))"
    using d p t by (intro collect_times) (simp_all add: realtime_def ctx_of_def xt_driver_def packet_safe_def collected_def)
  then have "times_ok (points_of (collected d'))" using n by simp
  then show ?thesis using d' d n c by (auto simp: xt_driver_def collected_def)
qed

section \<open>Safe events\<close>

text \<open>
  What an execution is given: sockets that were opened, a poll that reports on them and found input,
  an announced datagram that is still there, datagrams that are neither empty nor of a size that
  belongs to another product, a clock between 1970 and 2038, and GPS messages dated before 2038.
\<close>

definition sys_env_ok :: "sys_env \<Rightarrow> bool" where
  "sys_env_ok E \<longleftrightarrow> pollfds (udp E) \<noteq> None \<and>
     ros_time_ok (drive E)"

definition gps_time_ok :: "sys_env \<Rightarrow> datagram_io \<Rightarrow> byte list \<Rightarrow> bool" where
  "gps_time_ok E io bs \<longleftrightarrow> has_gps_callback E \<and> length bs = GPS_PACKET_SIZE \<longrightarrow>
     (case ParseGPS (io_gps io) (bs @ drop (length bs) (pp_data (io_packet io))) (length bs) of
        None \<Rightarrow> False
      | Some (ret, g) \<Rightarrow> gpsCallback (ProcessGps (mktime_fn (base (drive E))) (tz_second E) g) \<noteq> None)"

definition io_safe :: "sys_env \<Rightarrow> datagram_io \<Rightarrow> bool" where
  "io_safe E io \<longleftrightarrow> io_ok (udp E) io \<and> stamp_ok (io_time io) \<and>
     (case (pollfds (udp E), io_poll io) of
        (Some fds, PollReady revs) \<Rightarrow> length revs = length fds \<and> list_ex rv_in revs
      | _ \<Rightarrow> True) \<and>
     list_all (\<lambda>(t, bs). bs \<noteq> [] \<and> \<not> other_format (length bs) \<and> gps_time_ok E io bs) (datagram (udp E) io)"

definition event_safe :: "sys_env \<Rightarrow> sys_event \<Rightarrow> bool" where
  "event_safe E ev \<longleftrightarrow> (case ev of Receive io \<Rightarrow> io_safe E io | _ \<Rightarrow> True)"

definition safe_state :: "system \<Rightarrow> bool" where
  "safe_state s \<longleftrightarrow> xt_driver (drv (pipe s)) \<and> out_ok (drv (pipe s)) \<and>
     times_ok (all_points (drv (pipe s))) \<and> queue_ok (packetsBuffer (recv (pipe s))) \<and>
     (\<forall>p \<in> set (queued (recv (pipe s))). packet_safe p)"

lemma getPacket_cases:
  assumes "sys_env_ok E" and "io_safe E io"
  shows "getPacket (io_poll io) (io_recvfrom io) (io_time io) (io_packet io) (udp E) = Some None \<or>
    (\<exists>bs. datagram (udp E) io = [(io_time io, bs)] \<and> length bs \<le> ETHERNET_MTU \<and>
      getPacket (io_poll io) (io_recvfrom io) (io_time io) (io_packet io) (udp E) =
        Some (Some ((io_packet io)\<lparr>pp_data := bs @ drop (length bs) (pp_data (io_packet io)), pp_size := length bs,
          pp_stamp := io_time io\<rparr>)))"
proof -
  obtain fds where fds: "pollfds (udp E) = Some fds" using assms(1) by (auto simp: sys_env_ok_def)
  show ?thesis
  proof (cases "io_poll io")
    case (PollReady revs)
    have revs: "length revs = length fds" "list_ex rv_in revs"
      using assms(2) PollReady fds by (simp_all add: io_safe_def)
    then obtain r where "r \<in> set revs" "rv_in r" by (auto simp: list_ex_iff)
    then obtain k where k: "first_in 0 revs = Some k" using first_in_ready by fastforce
    have "io_recvfrom io (fds ! k) \<noteq> WouldBlock"
      using assms(2) revs(1) fds first_in_less [OF k] by (auto simp: io_safe_def io_ok_def list_all_iff)
    then show ?thesis
      using fds revs(1) k PollReady
      by (cases "io_recvfrom io (fds ! k)") (auto simp: getPacket_def datagram_def Let_def)
  qed (use fds in \<open>auto simp: getPacket_def\<close>)
qed

lemma ParseGPS_defined:
  assumes "GPS_PACKET_SIZE \<le> length buf"
  shows "\<exists>g. ParseGPS g0 buf GPS_PACKET_SIZE = Some (0, g)"
  using assms by (auto simp: ParseGPS_def rd_gps_item_def rd_le16_def rd_le32_def layout_defs Let_def rd_def)

lemma receive_safe:
  assumes E: "sys_env_ok E" and io: "io_safe E io" and s: "safe_state s"
  shows "\<exists>s'. receive_step E io s = Done s' \<and> safe_state s' \<and> d_cfg (drv (pipe s')) = d_cfg (drv (pipe s))"
  using getPacket_cases [OF E io]
proof (elim disjE exE conjE)
  assume "getPacket (io_poll io) (io_recvfrom io) (io_time io) (io_packet io) (udp E) = Some None"
  then show ?thesis using s by (simp add: receive_step_def RecvTask_turn_def safe_state_def)
next
  fix bs
  let ?p = "(io_packet io)\<lparr>pp_data := bs @ drop (length bs) (pp_data (io_packet io)), pp_size := length bs, pp_stamp := io_time io\<rparr>"
  assume d: "datagram (udp E) io = [(io_time io, bs)]" "length bs \<le> ETHERNET_MTU"
    and g: "getPacket (io_poll io) (io_recvfrom io) (io_time io) (io_packet io) (udp E) = Some (Some ?p)"
  have bs: "bs \<noteq> []" "\<not> other_format (length bs)" "gps_time_ok E io bs" "fp_of_fmt binary64 (io_time io)" "stamp_ok (io_time io)"
    and len: "length (pp_data (io_packet io)) = ETHERNET_MTU"
    using io d(1) by (simp_all add: io_safe_def io_ok_def)
  have p: "packet_safe ?p" using bs d(2) len by (simp add: packet_safe_def packet_time_ok_def)
  show ?thesis
  proof (cases "length bs = GPS_PACKET_SIZE")
    case True
    then obtain m where m: "ParseGPS (io_gps io) (bs @ drop (length bs) (pp_data (io_packet io))) (length bs) = Some (0, m)"
      using ParseGPS_defined [of "bs @ drop (length bs) (pp_data (io_packet io))" "io_gps io"] by auto
    show ?thesis
      using True m g bs(3) s
      by (cases "has_gps_callback E") (auto simp: receive_step_def RecvTask_turn_def gps_time_ok_def safe_state_def queued_def)
  next
    case False
    have q: "queue_ok (packetsBuffer (recv (pipe s)))" using s by (simp add: safe_state_def)
    have "set (queued (PushLiDARData ?p (recv (pipe s)))) \<subseteq> insert ?p (set (queued (recv (pipe s))))"
      "queue_ok (packetsBuffer (PushLiDARData ?p (recv (pipe s))))"
      using PushLiDARData_ok [OF q, of ?p] by (auto split: if_splits)
    then show ?thesis using False g s p by (auto simp: receive_step_def RecvTask_turn_def safe_state_def)
  qed
qed

lemma process_safe:
  assumes E: "sys_env_ok E" and r: "room (drv (pipe s))" and s: "safe_state s"
  shows "process_step E s = Blocked \<or> (\<exists>s'. process_step E s = Done s' \<and> safe_state s' \<and> d_cfg (drv (pipe s')) = d_cfg (drv (pipe s)))"
proof (cases "alive (pipe s) \<and> called s = length (emitted (drv (pipe s)))")
  case True
  have q: "queue_ok (packetsBuffer (recv (pipe s)))" using s by (simp add: safe_state_def)
  obtain v b where pop: "try_pop PACKET_BUFFER_STORAGE_SIZE (packetsBuffer (recv (pipe s))) = (v, b)" by fastforce
  note pk = pop_ok [OF q pop]
  show ?thesis
  proof (cases v)
    case None
    then show ?thesis using True pop pk s by (auto simp: process_step_def safe_state_def)
  next
    case (Some p)
    have p: "packet_safe p" using pk Some s by (auto simp: safe_state_def)
    have "ros_time_ok (drive E)" using E by (simp add: sys_env_ok_def)
    then obtain d' where d': "process_packet (drive E) p (drv (pipe s)) = Some (Next, d')" "xt_driver d'" "times_ok (all_points d')"
      "d_cfg d' = d_cfg (drv (pipe s))"
      using process_packet_safe [of "drv (pipe s)" p "drive E"] r s p by (auto simp: safe_state_def)
    have "out_ok d'" using process_packet_out [OF _ d'(1)] s by (simp add: safe_state_def)
    then show ?thesis using True pop pk Some s d' by (auto simp: process_step_def safe_state_def)
  qed
qed (auto simp: process_step_def)

lemma makeCompactPointCloud2_defined: "makeCompactPointCloud2 big c \<noteq> None"
proof (cases "length (cld_points c) \<le> uint32_max")
  case True
  obtain h w where "out_dims c = (h, w)" by force
  then show ?thesis using makeCompactPointCloud2_cases [OF True] by simp
qed (simp add: makeCompactPointCloud2_width_range not_le)

lemma callback_defined:
  assumes "stamp_of (cb_timestamp a) \<noteq> None"
  shows "lidarCallback e a n \<noteq> None"
proof -
  have "convert e l c \<noteq> None" for l c using makeCompactPointCloud2_defined by (simp add: convert_def)
  then have "publish_points e (cb_cloud a) (cb_timestamp a) (cb_conversion a) n \<noteq> None"
    using assms
    by (auto simp: publish_points_def Let_def case_prod_unfold split: option.splits sum.splits)
      (metis option.simps(3))
  then show ?thesis by (auto simp: lidarCallback_def split: option.splits sum.splits)
qed

lemma callback_safe:
  assumes s: "safe_state s"
  shows "callback_step E tc ok tr s = Blocked \<or> (\<exists>s'. callback_step E tc ok tr s = Done s' \<and> safe_state s' \<and> d_cfg (drv (pipe s')) = d_cfg (drv (pipe s)))"
proof (cases "length (emitted (drv (pipe s))) \<le> called s")
  case False
  define em where "em = emitted (drv (pipe s)) ! called s"
  have em: "em \<in> set (emitted (drv (pipe s)))" using False by (simp add: em_def)
  then have "emission_ok em" using s by (simp add: safe_state_def out_ok_def)
  then have h: "em_timestamp em = pt_timestamp (hd (cl_points (em_cloud em)))" "hd (cl_points (em_cloud em)) \<in> set (cl_points (em_cloud em))"
    by (simp_all add: emission_ok_def)
  have "hd (cl_points (em_cloud em)) \<in> set (all_points (drv (pipe s)))"
    using em h(2) by (auto simp: all_points_def Driver_Props.delivered_def)
  then have "time_ok (em_timestamp em)" using s h(1) by (simp add: safe_state_def times_ok_def)
  then have "lidarCallback (publishing E) (callback_for (nan_bits E) em tc ok tr) (ros s) \<noteq> None"
    using time_ok_stamp by (intro callback_defined) (simp add: callback_for_def)
  then show ?thesis
    using False s by (auto simp: callback_step_def em_def [symmetric] safe_state_def split: sum.splits)
qed (simp add: callback_step_def)

section \<open>Executions\<close>

text \<open>Every packet that is processed finds room for its points.\<close>

fun rooms :: "sys_env \<Rightarrow> sys_event list \<Rightarrow> system \<Rightarrow> bool" where
  "rooms E [] s \<longleftrightarrow> True"
| "rooms E (ev # evs) s \<longleftrightarrow>
     (case ev of Process \<Rightarrow> room (drv (pipe s)) | _ \<Rightarrow> True) \<and>
     (case sys_step E ev s of Done s' \<Rightarrow> rooms E evs s' | _ \<Rightarrow> True)"

lemma sys_step_safe:
  assumes "sys_env_ok E" and "event_safe E ev" and "safe_state s"
    and "case ev of Process \<Rightarrow> room (drv (pipe s)) | _ \<Rightarrow> True"
  shows "sys_step E ev s = Blocked \<or> (\<exists>s'. sys_step E ev s = Done s' \<and> safe_state s' \<and> d_cfg (drv (pipe s')) = d_cfg (drv (pipe s)))"
proof (cases ev)
  case (Receive io)
  then show ?thesis using receive_safe [OF assms(1) _ assms(3)] assms(2) by (simp add: event_safe_def)
next
  case Process
  then show ?thesis using process_safe [OF assms(1) _ assms(3)] assms(4) by simp
next
  case (Callback tc ok tr)
  then show ?thesis using callback_safe [OF assms(3)] by simp
next
  case (Publisher nev)
  then show ?thesis using assms(3) by (auto simp: publisher_step_def safe_state_def split: option.splits)
qed

lemma sys_run_safe:
  assumes "sys_env_ok E" and "list_all (event_safe E) evs" and "safe_state s" and "rooms E evs s"
  shows "case sys_run E evs s of
      Undef \<Rightarrow> False
    | Blocked \<Rightarrow> True
    | Done s' \<Rightarrow> safe_state s' \<and> d_cfg (drv (pipe s')) = d_cfg (drv (pipe s))"
  using assms(2-4)
proof (induction evs arbitrary: s)
  case (Cons ev evs)
  have step: "sys_step E ev s = Blocked \<or>
      (\<exists>s'. sys_step E ev s = Done s' \<and> safe_state s' \<and> d_cfg (drv (pipe s')) = d_cfg (drv (pipe s)))"
    using Cons.prems by (intro sys_step_safe [OF assms(1)]) auto
  show ?case
  proof (cases "sys_step E ev s")
    case (Done s1)
    then have s1: "safe_state s1" "d_cfg (drv (pipe s1)) = d_cfg (drv (pipe s))" using step by auto
    have "list_all (event_safe E) evs" "rooms E evs s1" using Cons.prems Done by (auto simp del: sys_step.simps)
    from Cons.IH [OF this(1) s1(1) this(2)] show ?thesis
      using Done s1(2) by (auto simp del: sys_step.simps split: run.splits)
  qed (use step in \<open>auto simp del: sys_step.simps\<close>)
qed simp

lemma fresh_safe: "fresh_system s \<Longrightarrow> xt_driver (drv (pipe s)) \<Longrightarrow> safe_state s"
  using fresh_points [of s] by (simp add: safe_state_def times_ok_def fresh_system_def)

section \<open>GPS messages\<close>

lemma gpsCallback_int:
  assumes "\<bar>n\<bar> \<le> 2 ^ 53"
  shows "gpsCallback (d_int n) = None \<longleftrightarrow> n < - 2147483648 \<or> 2147483647 < n"
proof -
  have "isfinite (d_int n)" "fval (d_int n) = of_int n" using assms by simp_all
  moreover obtain z m where "d_int n = Fin z m" using calculation(1) by (auto simp: isfinite_iff)
  moreover have "m = of_int (if z then - n else n)" using calculation(2,3) by (auto simp: minus_equation_iff)
  ultimately have "fp_trunc (d_int n) = Some n" by simp
  then show ?thesis by (auto simp: gpsCallback_def fp_to_int_def)
qed

end
