(* ===== verification/Node_System.thy ===== *)
theory Node_System
  imports Node_Lifecycle System_Safety
begin

text \<open>
  From the parameters to the subscriber: the node that its constructor returns (theory
  \<open>Node_Lifecycle\<close>) is the starting point of the threads (theory \<open>System\<close>), and the results on
  their interleavings hold of it.
\<close>

section \<open>The threads of a constructed node\<close>

text \<open>
  \<^verbatim>\<open>Start\<close> has created the threads; the processing thread begins with its local variables and the
  first transform, and returns when that fails. The calibration thread is not part of this state: what
  it does to the tables comes below.
\<close>

definition launch :: "drv_env \<Rightarrow> client \<Rightarrow> system" where
  "launch e c =
     (let i = pandarGeneral (hsdk c)
      in case computeTransformToTarget e (clock_now e) ((in_driver i)\<lparr>outMsg := empty_cloud, scan := []\<rparr>) of (r, d) \<Rightarrow>
           \<lparr>pipe = \<lparr>recv = in_receiver i, drv = d, alive = (r = Next)\<rparr>, ros = cl_node c, called = 0\<rparr>)"

text \<open>Parameters for a sensor, compact clouds in firing order and no transforms, as in the launch file.\<close>

definition launch_params :: "node_params \<Rightarrow> bool" where
  "launch_params p \<longleftrightarrow> sensor_params p \<and> pcldata_type p = 0 \<and> target_frame p = [] \<and> fixed_frame p = [] \<and>
     pointcloud_layout p = ''compact''"

definition xt_params :: "node_params \<Rightarrow> bool" where
  "xt_params p \<longleftrightarrow> launch_params p \<and> timestamp_type p = ''realtime'' \<and>
     lidar_type p \<in> {''PandarXT-32'', ''PandarXT-16'', ''PandarXTM''}"

lemma new_receiver_queue: "queue_ok (packetsBuffer (new_receiver p0))"
  using spsc_new_inv [of MAX_PACKET_BACKLOG PACKET_BUFFER_STORAGE_SIZE p0]
  by (simp add: new_receiver_def MAX_PACKET_BACKLOG_def PACKET_BUFFER_STORAGE_SIZE_def)

lemma constructed:
  assumes "sensor_params p" and "new_HesaiLidarClient N p = Inr (Done c)"
  defines "d \<equiv> in_driver (pandarGeneral (hsdk c))"
  shows "cl_node c = new_node p" "ctx_of d = ctx_of (driver_of N p)" "emitted d = []" "pointIndex d = 0"
    "length (pointCloudList d) = MAX_LASER_NUM"
    "tsGuard d = newTimestampGuard kTimestampRegressionToleranceSec" "seqTracker d = newXtSequenceTracker kXtSequenceRestartIdleSec"
    "packetsBuffer (in_receiver (pandarGeneral (hsdk c))) = spsc_reset (packetsBuffer (new_receiver (no_packet N)))"
proof -
  obtain q a where p: "pointcloud_qos p = Inr q" "pcap_file p = []" "data_type p \<noteq> ''rosbag''"
    "start_angle_of (start_angle p) = Some a" "length (server_ip p) < 256"
    using assms(1) by (auto simp: sensor_params_def)
  have c: "c = \<lparr>cl_node = new_node p, hsdk = hsdk c\<rparr> \<and>
      pandarGeneral (hsdk c) = running (stopped
        (new_internal (driver_of N p) (new_receiver (no_packet N)) (Some (input_of N p)) None))"
    using assms(2) p not_sym [OF p(3)]
    by (cases "TcpCommandClientNew (sv_malloc (no_env N)) (sv_client_size (no_env N)) (Some (server_ip p))
          PANDARGENERALSDK_TCP_COMMAND_PORT (no_tcp N)")
      (auto simp: new_HesaiLidarClient_def initialize_sdk_def sdk_request_of_def new_sdk_def Let_def new_live_sdk_def
        load_pcap_correction_def sdk_Start_def sdk_Stop_def driver_of_def input_of_def)
  then show "cl_node c = new_node p" by (metis client.select_convs(1))
  note start = running_def stopped_def new_internal_def Start_state_def Stop_state_def
  show "packetsBuffer (in_receiver (pandarGeneral (hsdk c))) = spsc_reset (packetsBuffer (new_receiver (no_packet N)))"
    using c by (simp add: start Let_def spsc_reset_def)
  show "ctx_of d = ctx_of (driver_of N p)" using c by (simp add: d_def start Let_def ctx_of_def)
  show "emitted d = []" "pointIndex d = 0" "length (pointCloudList d) = MAX_LASER_NUM"
    "tsGuard d = newTimestampGuard kTimestampRegressionToleranceSec" "seqTracker d = newXtSequenceTracker kXtSequenceRestartIdleSec"
    using c by (simp_all add: d_def start Let_def driver_of_def new_driver_def
        ts_reset_def newTimestampGuard_def seq_reset_def newXtSequenceTracker_def)
qed

lemma launched:
  fixes e
  assumes "launch_params p" and "new_HesaiLidarClient N p = Inr (Done c)"
  defines "s \<equiv> launch e c"
  shows "fresh_system s" "plain (drv (pipe s))" "pointcloudLayout (ros s) = ''compact''"
    "ctx_of (drv (pipe s)) = ctx_of (driver_of N p)" "length (pointCloudList (drv (pipe s))) = MAX_LASER_NUM"
    "tsGuard (drv (pipe s)) = newTimestampGuard kTimestampRegressionToleranceSec"
    "seqTracker (drv (pipe s)) = newXtSequenceTracker kXtSequenceRestartIdleSec"
proof -
  have p: "sensor_params p" "pcldata_type p = 0" "target_frame p = []" "fixed_frame p = []" "pointcloud_layout p = ''compact''"
    using assms(1) by (simp_all add: launch_params_def)
  note c = constructed [OF p(1) assms(2)]
  have q: "queue_ok (packetsBuffer (in_receiver (pandarGeneral (hsdk c)))) \<and> queued (in_receiver (pandarGeneral (hsdk c))) = []"
    unfolding queued_def c(8) using spsc_reset_ok [OF new_receiver_queue] by blast
  define d where "d = (in_driver (pandarGeneral (hsdk c)))\<lparr>outMsg := empty_cloud, scan := []\<rparr>"
  have d: "ctx_of d = ctx_of (driver_of N p)" "emitted d = []" "pointIndex d = 0" "outMsg d = empty_cloud"
    "length (pointCloudList d) = MAX_LASER_NUM"
    "tsGuard d = newTimestampGuard kTimestampRegressionToleranceSec" "seqTracker d = newXtSequenceTracker kXtSequenceRestartIdleSec"
    using c by (simp_all add: d_def)
  have "plain (driver_of N p)" using p by (simp add: driver_of_def new_driver_def plain_def)
  then have pl: "plain d" using d(1) by (simp add: plain_def ctx_of_def)
  then have s: "s = \<lparr>pipe = \<lparr>recv = in_receiver (pandarGeneral (hsdk c)), drv = d, alive = True\<rparr>, ros = new_node p, called = 0\<rparr>"
    by (simp add: s_def launch_def Let_def c(1) plain_def computeTransformToTarget_def d_def)
  show "fresh_system s" using d q by (auto simp: fresh_system_def s)
  show "pointcloudLayout (ros s) = ''compact''" using p(5) by (simp add: s new_node_def)
  show "plain (drv (pipe s))" "ctx_of (drv (pipe s)) = ctx_of (driver_of N p)" "length (pointCloudList (drv (pipe s))) = MAX_LASER_NUM"
    "tsGuard (drv (pipe s)) = newTimestampGuard kTimestampRegressionToleranceSec"
    "seqTracker (drv (pipe s)) = newXtSequenceTracker kXtSequenceRestartIdleSec"
    using d pl by (simp_all add: s)
qed

section \<open>The calibration\<close>

text \<open>
  The calibration thread, whose outcome \<open>t\<close> the facade holds, replaces the tables at some point of the
  execution, here between two turns of the other threads: \<open>evs\<close> come before it and \<open>evs'\<close> after.
\<close>

definition calibrate :: "tables \<Rightarrow> system \<Rightarrow> system" where
  "calibrate tb s = s\<lparr>pipe := (pipe s)\<lparr>drv := (drv (pipe s))\<lparr>d_tbl := tb\<rparr>\<rparr>\<rparr>"

definition calibrated_run :: "sys_env \<Rightarrow> sys_event list \<Rightarrow> calibration run \<Rightarrow> sys_event list \<Rightarrow> system \<Rightarrow> system run" where
  "calibrated_run E evs t evs' s =
     run_bind (sys_run E evs s) (\<lambda>s. run_bind t (\<lambda>k. sys_run E evs' (calibrate (cal_tables k) s)))"

definition calibrated_rooms :: "sys_env \<Rightarrow> sys_event list \<Rightarrow> calibration run \<Rightarrow> sys_event list \<Rightarrow> system \<Rightarrow> bool" where
  "calibrated_rooms E evs t evs' s \<longleftrightarrow> rooms E evs s \<and>
     (case (sys_run E evs s, t) of
        (Done s, Done k) \<Rightarrow> rooms E evs' (calibrate (cal_tables k) s)
      | _ \<Rightarrow> True)"

text \<open>A sensor that answers with a line for every laser and offsets of at most 6 degrees gives complete tables.\<close>

lemma calibration_completes:
  assumes "sensor_params p" and "lidar_type p \<in> {''PandarXT-32'', ''PandarXT-16'', ''PandarXTM''}"
    and "new_HesaiLidarClient N p = Inr (Done c)" and "get_calibration_thr (hsdk c) = Some t"
    and "setting (sensor_client p) (sv_net (no_env N)) (sv_malloc (no_env N)) (no_tcp N)"
    and "connected (sv_net (no_env N)) (sensor_client p) (no_tcp N)" and "\<And>n. sv_malloc (no_env N) n \<noteq> None"
    and "replies f (map of_char (file_text e as)) (no_tcp N)" and "h_ret_code f = 0"
    and "\<And>x. prints_ok e x" and "xt_lasers (lidar_type p) \<le> length as" "length as \<le> HS_LIDAR_L64_UNIT_NUM"
    and "list_all (\<lambda>a. fbetween (- 6) 6 (to_float (reread e (snd a)))) as"
  shows "\<exists>k. t = Done k \<and> xt_tables (lidar_type p) (cal_tables k)"
proof -
  let ?c = "\<lparr>cal_tables = d_tbl (driver_of N p), cal_flag = False, cal_content = [], cal_os = node_tcp N\<rparr>"
  have "alloc_ok (sv_malloc (no_env N))" using assms(5) by (simp add: setting_def)
  from started [OF assms(1) this assms(7)] assms(3,4)
  have t: "t = GetCalibrationFromDevice (no_env N) (Some (sensor_client p)) (lidar_correction_file p) ?c" by auto
  obtain tb os' where k: "LoadCorrectionFile (sv_sinf (no_env N)) (sv_cosf (no_env N)) (file_text e as) (d_tbl (driver_of N p)) = Some (0, tb)"
    "t = Done \<lparr>cal_tables = tb, cal_flag = True, cal_content = file_text e as, cal_os = os'\<rparr>"
    using calibration_from_reply [where c = ?c and path = "lidar_correction_file p" and cl = "sensor_client p",
        OF _ _ _ assms(7,9,10,12)] assms(6,8) client_block_setting [OF assms(5)] by (auto simp: t)
  have "xt_tables (lidar_type p) (d_tbl (driver_of N p))"
    using Init_xt_tables [OF assms(2)] by (simp add: driver_of_def new_driver_def)
  from calibrated_xt_tables [OF this assms(10,11,12,13) k(1)] show ?thesis by (simp add: k(2))
qed

section \<open>The program\<close>

text \<open>
  \<^verbatim>\<open>main\<close>: the node is constructed, \<^verbatim>\<open>spin\<close> lets its threads run until the shutdown is
  requested, and the node is destroyed.
\<close>

definition client_after :: "system \<Rightarrow> client \<Rightarrow> client" where
  "client_after s c =
     c\<lparr>cl_node := ros s,
       hsdk := (hsdk c)\<lparr>pandarGeneral := (pandarGeneral (hsdk c))\<lparr>in_driver := drv (pipe s), in_receiver := recv (pipe s)\<rparr>\<rparr>\<rparr>"

definition node_main :: "sys_env \<Rightarrow> (PointCloud2 \<Rightarrow> bool \<times> int \<times> int) \<Rightarrow> node_os \<Rightarrow> node_params \<Rightarrow> sys_event list \<Rightarrow> param_error + int run" where
  "node_main E pub N p evs =
     (case new_HesaiLidarClient N p of
        Inl x \<Rightarrow> Inl x
      | Inr r \<Rightarrow>
          Inr (run_bind r (\<lambda>c. run_bind (sys_run E evs (launch (drive E) c)) (\<lambda>s.
            run_bind (delete_client pub (client_after s c)) (\<lambda>_. Done 0)))))"

lemma sys_step_node:
  assumes "node_inv (ros s) k" and "sys_step E ev s = Done s'"
  shows "\<exists>k'. node_inv (ros s') k'"
proof (cases ev)
  case (Receive io)
  then show ?thesis using assms by (auto simp: receive_step_def split: option.splits if_splits)
next
  case Process
  then show ?thesis using assms by (auto simp: process_step_def split: option.splits if_splits)
next
  case (Callback tc ok tr)
  then show ?thesis
    using assms callback_inv [OF assms(1)] by (fastforce simp: callback_step_def split: option.splits sum.splits if_splits)
next
  case (Publisher nev)
  then show ?thesis
    using assms node_step_inv [OF assms(1)] by (auto simp: publisher_step_def simp del: node_step.simps split: option.splits if_splits)
qed

lemma sys_run_node: "node_inv (ros s) k \<Longrightarrow> sys_run E evs s = Done s' \<Longrightarrow> \<exists>k'. node_inv (ros s') k'"
proof (induction evs arbitrary: s k)
  case (Cons ev evs)
  then obtain s1 where s1: "sys_step E ev s = Done s1" "sys_run E evs s1 = Done s'"
    by (auto split: run.splits simp del: sys_step.simps)
  from sys_step_node [OF Cons.prems(1) s1(1)] s1(2) Cons.IH show ?case by blast
qed auto

text \<open>With a sensor that answers, the program ends whenever its threads have been stopped.\<close>

lemma node_main_returns:
  assumes "sensor_params p" and "sockets_open (no_udp N)"
    and "(of_int (lidar_recv_port p) :: u16) \<noteq> of_int (gps_port p)"
    and "setting (sensor_client p) (sv_net (no_env N)) (sv_malloc (no_env N)) (no_tcp N)"
    and "connected (sv_net (no_env N)) (sensor_client p) (no_tcp N)" and "\<And>n. sv_malloc (no_env N) n \<noteq> None"
    and "replies f (map of_char (file_text e as)) (no_tcp N)" and "h_ret_code f = 0"
    and "\<And>x. prints_ok e x" and "length as \<le> HS_LIDAR_L64_UNIT_NUM"
    and run: "\<And>c. new_HesaiLidarClient N p = Inr (Done c) \<Longrightarrow> \<exists>s. sys_run E evs (launch (drive E) c) = Done s"
  shows "node_main E pub N p evs = Inr (Done 0)"
proof -
  let ?c = "\<lparr>cal_tables = d_tbl (driver_of N p), cal_flag = False, cal_content = [], cal_os = node_tcp N\<rparr>"
  have al: "alloc_ok (sv_malloc (no_env N))" using assms(4) by (simp add: setting_def)
  obtain c where c: "new_HesaiLidarClient N p = Inr (Done c)" "cl_node c = new_node p"
    "\<not> parse_thr (pandarGeneral (hsdk c))" "pcap_reader (pandarGeneral (hsdk c)) = None"
    "in_input (pandarGeneral (hsdk c)) = Some (input_of N p)"
    "get_calibration_thr (hsdk c) = Some (GetCalibrationFromDevice (no_env N) (Some (sensor_client p)) (lidar_correction_file p) ?c)"
    using started [OF assms(1) al assms(6)] by blast
  obtain k where k: "GetCalibrationFromDevice (no_env N) (Some (sensor_client p)) (lidar_correction_file p) ?c = Done k"
    using calibration_from_reply [where c = ?c and path = "lidar_correction_file p" and cl = "sensor_client p",
        OF _ _ _ assms(6,8,9,10)] assms(5,7) client_block_setting [OF assms(4)] by auto
  obtain s where s: "sys_run E evs (launch (drive E) c) = Done s" using run [OF c(1)] by blast
  have "node_inv (ros (launch (drive E) c)) 0" using node_inv_new by (simp add: launch_def c(2) Let_def split: prod.splits)
  from sys_run_node [OF this s] obtain j where j: "node_inv (ros s) j" by blast
  have del: "delete_Input (input_of N p) = Some [us_socket (no_udp N) True, us_socket (no_udp N) False]"
    using delete_opened [OF assms(2,3)] by (simp add: input_of_def)
  have "get_calibration_thr (hsdk (client_after s c)) = Some (Done k)" using c(6) k by (simp add: client_after_def)
  from delete_client_returns [OF this _ _ _ del, of j pub]
  have "\<exists>c'. delete_client pub (client_after s c) = Done ([us_socket (no_udp N) True, us_socket (no_udp N) False], c')"
    using c(3-5) j by (auto simp: client_after_def)
  then show ?thesis using c(1) s by (auto simp: node_main_def)
qed

section \<open>Properties\<close>

text \<open>
  C1. The whole node, from the wire to the subscriber. Take a node as its constructor returns it, with
  the parameters of the launch file (a sensor, compact clouds, one cloud per frame, no transforms). In every
  interleaving of the receiving, the processing and the publishing thread in which the processing
  thread stays alive: the packets that entered the queue are datagrams that arrived, in order and
  unchanged; those processed are all of them but the ones still queued; the clouds completed so
  far and the points of the unfinished one are exactly the points that the accepted packets contain;
  and what subscribers read from the published messages (coordinates, intensities, times, rings,
  stamp and frame) is a subsequence of these clouds, value for value, on a host of either byte
  order.
\<close>

theorem node_end_to_end:
  assumes "launch_params p" and "new_HesaiLidarClient N p = Inr (Done c)"
    and "sys_run E evs (launch (drive E) c) = Done s" and "alive (pipe s)"
    and "list_all (event_ok (udp E)) evs" and "nans_ok (nan_bits E)"
  shows "\<exists>kp ps. subseq (map contents kp) (arrivals (udp E) evs) \<and> kp = ps @ queued (recv (pipe s)) \<and>
    concat (map (cl_points \<circ> em_cloud) (emitted (drv (pipe s)))) @ Driver_Props.pending (drv (pipe s)) =
      points_of (fold (collect (drive E) (ctx_of (driver_of N p))) ps
        (newTimestampGuard kTimestampRegressionToleranceSec, newXtSequenceTracker kXtSequenceRestartIdleSec, [])) \<and>
    subseq (map view (nd_published (ros s))) (map (view_of_cloud \<circ> em_cloud) (emitted (drv (pipe s))))"
proof -
  note l = launched [OF assms(1,2), of "drive E"]
  show ?thesis using system_end_to_end [OF l(1) assms(3,4) l(2,3) assms(5,6)] unfolding l(4,6,7) .
qed


text \<open>
  C33. The time of a GPS message goes through an \<^verbatim>\<open>int\<close>. For a message with two digits per item,
  the receiving thread delivers the time that \<^verbatim>\<open>mktime\<close> gives for the date, or, exactly when that
  time does not fit 32 bits, has undefined behaviour: a message dated after 19 January 2038, which
  anyone can send to the GPS port, is enough.
\<close>

theorem gps_callback_range:
  assumes "getPacket (io_poll io) (io_recvfrom io) (io_time io) (io_packet io) (udp E) = Some (Some p)"
    and "pp_size p = GPS_PACKET_SIZE" and "pp_data p = encode_gps flag [y, mo, d, se, mi, h] fine rest"
    and "list_all (\<lambda>n. n < 100) [y, mo, d, se, mi, h]" and "has_gps_callback E"
    and "n = fst (mktime_fn (base (drive E)) \<lparr>tm_year = int y + 100, tm_mon = int mo - 1, tm_mday = int d, tm_hour = int h,
        tm_min = int mi, tm_sec = int se, tm_isdst = 0\<rparr>) + tz_second E" and "\<bar>n\<bar> \<le> 2 ^ 53"
  shows "receive_step E io s =
    (if - 2147483648 \<le> n \<and> n \<le> 2147483647
     then Done (s\<lparr>pipe := (pipe s)\<lparr>recv := (recv (pipe s))\<lparr>gpsTimes := gpsTimes (recv (pipe s)) @ [d_int n]\<rparr>\<rparr>\<rparr>)
     else Undef)"
proof -
  have u: "uint (of_nat k :: u16) = int k" if "k < 100" for k
    using that by (simp add: uint_nat unat_of_nat_small)
  note parsed = ParseGPS_encoded [OF assms(4), of "io_gps io" flag fine rest]
  have t: "ProcessGps (mktime_fn (base (drive E))) (tz_second E)
      \<lparr>gps_flag = flag, gps_year = of_nat y, gps_month = of_nat mo, gps_day = of_nat d,
       gps_second = of_nat se, gps_minute = of_nat mi, gps_hour = of_nat h, gps_fineTime = fine\<rparr> = d_int n"
    using assms(4) by (simp add: ProcessGps_def u assms(6))
  have "RecvTask_turn (base (drive E)) (tz_second E) (has_gps_callback E) (io_gps io) (Some p) (recv (pipe s)) =
      Some ((recv (pipe s))\<lparr>gpsTimes := gpsTimes (recv (pipe s)) @ [d_int n]\<rparr>)"
    using assms(2,3,5) parsed t by (simp add: RecvTask_turn_def)
  then show ?thesis using assms(1) gpsCallback_int [OF assms(7)] by (auto simp: receive_step_def)
qed

section \<open>A concrete execution\<close>

definition demo_launch :: node_params where
  "demo_launch = demo_sensor\<lparr>timestamp_type := ''realtime'', publish_type := ''both''\<rparr>"

text \<open>The sensor answers with a line for each of its 16 lasers.\<close>

definition demo_lasers :: "(fp \<times> fp) list" where
  "demo_lasers = replicate 16 (d_int 0, d_int 0)"

definition demo_header :: TC_Command where
  "demo_header = zero_command\<lparr>h_cmd := 5, h_len := of_nat (length (file_text (base demo_env) demo_lasers))\<rparr>"

definition demo_os_node :: node_os where
  "demo_os_node = demo_node_os 0 (demo_os [Seg (TcpCommand_buildHeader demo_header),
     Seg (map of_char (file_text (base demo_env) demo_lasers))])"

definition demo_sys_env :: sys_env where
  "demo_sys_env = \<lparr>drive = demo_env, publishing = demo_node_env, tz_second = 0, has_gps_callback = True,
     udp = input_of demo_os_node demo_launch, nan_bits = \<lparr>nan32 = 0x7FC00000, nan64 = 0x7FF8000000000000\<rparr>\<rparr>"

definition demo_io :: datagram_io where
  "demo_io = \<lparr>io_poll = PollReady [\<lparr>rv_in = True, rv_err = False\<rparr>, \<lparr>rv_in = False, rv_err = False\<rparr>],
     io_recvfrom = (\<lambda>k. Datagram (encode_xt demo_msg)), io_time = Fin False 1,
     io_packet = \<lparr>pp_stamp = NaN, pp_data = replicate 1500 0, pp_size = 0\<rparr>,
     io_gps = \<lparr>gps_flag = 0, gps_year = 0, gps_month = 0, gps_day = 0, gps_second = 0, gps_minute = 0,
       gps_hour = 0, gps_fineTime = 0\<rparr>\<rparr>"

definition demo_events :: "sys_event list" where
  "demo_events = [Receive demo_io, Publisher NWait, Process]"

lemma demo_params_ok: "xt_params demo_launch" "launch_params demo_launch"
proof -
  have "pointcloud_qos demo_launch = pointcloud_qos demo_sensor" by (simp add: pointcloud_qos_def demo_launch_def)
  then have "sensor_params demo_launch"
    using demo_sensor_params(1) by (simp add: sensor_params_def) (simp add: demo_launch_def)
  then show "xt_params demo_launch"
    by (simp add: xt_params_def launch_params_def demo_launch_def demo_sensor_def default_params_def)
  then show "launch_params demo_launch" by (simp add: xt_params_def)
qed

lemma demo_constructed: "\<exists>c. new_HesaiLidarClient demo_os_node demo_launch = Inr (Done c)"
  using started [of demo_launch demo_os_node] demo_params_ok(2)
  by (auto simp: launch_params_def demo_os_node_def demo_node_os_def demo_mal_def alloc_ok_def)

lemma length_demo_lasers: "length (file_text (base demo_env) demo_lasers) = 130"
  by code_simp

lemma demo_replies_all: "replies demo_header (map of_char (file_text (base demo_env) demo_lasers)) (no_tcp demo_os_node)"
  by (simp add: replies_def length_demo_lasers demo_os_node_def demo_header_def demo_os_def)

lemma demo_calibrated:
  assumes "new_HesaiLidarClient demo_os_node demo_launch = Inr (Done c)"
  shows "\<exists>k. get_calibration_thr (hsdk c) = Some (Done k) \<and> xt_tables (lidar_type demo_launch) (cal_tables k)"
proof -
  have p: "sensor_params demo_launch" "lidar_type demo_launch \<in> {''PandarXT-32'', ''PandarXT-16'', ''PandarXTM''}"
    using demo_params_ok by (simp_all add: launch_params_def xt_params_def)
  have cl: "sensor_client demo_launch = demo_client"
    using demo_sensor_params(2) by (simp add: sensor_client_def demo_launch_def)
  have n: "setting (sensor_client demo_launch) (sv_net (no_env demo_os_node)) (sv_malloc (no_env demo_os_node)) (no_tcp demo_os_node)"
    "connected (sv_net (no_env demo_os_node)) (sensor_client demo_launch) (no_tcp demo_os_node)"
    using demo_node_setting by (simp_all add: cl demo_os_node_def)
  have al: "sv_malloc (no_env demo_os_node) n \<noteq> None" for n unfolding demo_os_node_def by (rule demo_node_setting)
  have t: "xt_lasers (lidar_type demo_launch) \<le> length demo_lasers" "length demo_lasers \<le> HS_LIDAR_L64_UNIT_NUM"
    "h_ret_code demo_header = 0"
    by (simp_all add: demo_launch_def demo_sensor_def xt_lasers_def demo_lasers_def HS_LIDAR_L64_UNIT_NUM_def
        HS_LIDAR_XT16_UNIT_NUM_def demo_header_def zero_command_def)
  have z: "list_all (\<lambda>a. fbetween (- 6) 6 (to_float (reread (base demo_env) (snd a)))) demo_lasers"
    by code_simp
  from started [OF p(1) _ al] n(1) assms obtain t where "get_calibration_thr (hsdk c) = Some t"
    by (auto simp: setting_def)
  from calibration_completes [OF p assms this n al demo_replies_all t(3) demo_prints t(1,2) z] this show ?thesis by auto
qed

lemma demo_nans: "nans_ok (nan_bits demo_sys_env)"
  by (simp add: nans_ok_def demo_sys_env_def nan_pattern_def fp_of_bits_def sign_bit_def top_expo_def frac_size_def
      binary32_def binary64_def)

lemma demo_length: "length (encode_xt demo_msg) = 568"
  by code_simp

lemma demo_sockets: "pollfds (udp demo_sys_env) = Some [5, 4]"
  by (simp add: demo_sys_env_def input_of_def demo_os_node_def demo_node_os_def demo_launch_def demo_sensor_def
      default_params_def constructed_sockets demo_opens) (simp add: demo_sys_def)

lemma demo_events_safe: "list_all (event_safe demo_sys_env) demo_events" "list_all (event_ok (udp demo_sys_env)) demo_events"
proof -
  have t: "fp_of_fmt binary64 (Fin False 1)" by code_simp
  have f: "\<not> other_format 568" by (simp add: other_format_def is_40p_size_def is_l64_size_def is_qt_size_def layout_defs)
  have "encode_xt demo_msg \<noteq> []" using demo_length by auto
  then have "io_safe demo_sys_env demo_io"
    using t f by (simp add: io_safe_def io_ok_def demo_sockets demo_io_def datagram_def demo_length gps_time_ok_def
        ETHERNET_MTU_def GPS_PACKET_SIZE_def upt_rec)
  then show "list_all (event_safe demo_sys_env) demo_events" "list_all (event_ok (udp demo_sys_env)) demo_events"
    by (simp_all add: demo_events_def event_safe_def event_ok_def io_safe_def)
qed

lemma demo_ros_time: "ros_time_ok demo_env"
  by (simp add: ros_time_ok_def demo_env_def)

lemma demo_execution:
  assumes c: "new_HesaiLidarClient demo_os_node demo_launch = Inr (Done c)"
  shows "\<exists>s. sys_run demo_sys_env demo_events (launch (drive demo_sys_env) c) = Done s \<and> alive (pipe s)"
    and "\<exists>s. sys_run demo_sys_env [Receive demo_io, Publisher NWait] (launch (drive demo_sys_env) c) = Done s \<and>
      drv (pipe s) = drv (pipe (launch (drive demo_sys_env) c))"
    and "room (drv (pipe (launch (drive demo_sys_env) c)))"
proof -
  define s where "s = launch (drive demo_sys_env) c"
  define p where "p = \<lparr>pp_stamp = Fin False 1, pp_data = encode_xt demo_msg @ replicate 932 0, pp_size = 568\<rparr>"
  note l = launched [OF demo_params_ok(2) c, of "drive demo_sys_env", folded s_def]
  have fr: "alive (pipe s)" "called s = 0" "emitted (drv (pipe s)) = []" "pointIndex (drv (pipe s)) = 0"
    "queue_ok (packetsBuffer (recv (pipe s)))" "queued (recv (pipe s)) = []"
    and "\<exists>q. ros s = new_node q" using l(1) by (simp_all add: fresh_system_def)
  then obtain q n where n: "ros s = new_node q" "take_cloud ECall (ros s) = Some n"
    by (auto simp: take_cloud_def new_node_def mb_init_def Let_def)
  have "getPacket (io_poll demo_io) (io_recvfrom demo_io) (io_time demo_io) (io_packet demo_io) (udp demo_sys_env) = Some (Some p)"
    using demo_sockets by (simp add: getPacket_def demo_io_def p_def Let_def ETHERNET_MTU_def demo_length)
  then have rc: "receive_step demo_sys_env demo_io s = Done (s\<lparr>pipe := (pipe s)\<lparr>recv := PushLiDARData p (recv (pipe s))\<rparr>\<rparr>)"
    by (simp add: receive_step_def RecvTask_turn_def p_def GPS_PACKET_SIZE_def)
  let ?r = "PushLiDARData p (recv (pipe s))"
  have q1: "queue_ok (packetsBuffer ?r)" "queued ?r = [p]"
    using PushLiDARData_ok [OF fr(5), of p] fr(6) by (simp_all add: MAX_PACKET_BACKLOG_def)
  obtain b where b: "try_pop PACKET_BUFFER_STORAGE_SIZE (packetsBuffer ?r) = (Some p, b)"
    using pop_ok [OF q1(1)] q1(2) by (cases "try_pop PACKET_BUFFER_STORAGE_SIZE (packetsBuffer ?r)") (force split: option.splits)
  have cfg: "d_cfg (drv (pipe s)) = d_cfg (driver_of demo_os_node demo_launch)" "d_tbl (drv (pipe s)) = d_tbl (driver_of demo_os_node demo_launch)"
    using l(4) by (simp_all add: ctx_of_def)
  have sh: "xt_driver (drv (pipe s))"
    using cfg l(2,5) demo_params_ok(1) Init_xt_tables [of "lidar_type demo_launch"]
    by (auto simp: xt_driver_def xt_params_def driver_of_def new_driver_def)
  have rm: "room (drv (pipe s))" using fr(4) by (simp add: room_def MAX_POINT_CLOUD_NUM_def)
  have "fp_of_fmt binary64 (Fin False 1)" by code_simp
  then have ps: "packet_safe p"
    by (simp add: packet_safe_def packet_time_ok_def p_def demo_length other_format_def is_40p_size_def is_l64_size_def is_qt_size_def layout_defs)
  have "times_ok (all_points (drv (pipe s)))" using fresh_points(1) [OF l(1)] by (simp add: times_ok_def)
  then obtain d' where d': "process_packet demo_env p (drv (pipe s)) = Some (Next, d')"
    using process_packet_safe [OF sh rm ps, of demo_env] demo_ros_time by blast
  have dr: "drive demo_sys_env = demo_env" by (simp add: demo_sys_env_def)
  show "\<exists>s. sys_run demo_sys_env demo_events (launch (drive demo_sys_env) c) = Done s \<and> alive (pipe s)"
    unfolding s_def [symmetric] using b d' fr n rc dr
    by (simp add: demo_events_def publisher_step_def publisher_event_def process_step_def)
  show "\<exists>s. sys_run demo_sys_env [Receive demo_io, Publisher NWait] (launch (drive demo_sys_env) c) = Done s \<and>
      drv (pipe s) = drv (pipe (launch (drive demo_sys_env) c))"
    unfolding s_def [symmetric] using rc n by (simp add: publisher_step_def publisher_event_def)
  show "room (drv (pipe (launch (drive demo_sys_env) c)))"
    unfolding s_def [symmetric] by (rule rm)
qed

theorem node_end_to_end_witness:
  "\<exists>c s kp. new_HesaiLidarClient demo_os_node demo_launch = Inr (Done c) \<and>
     sys_run demo_sys_env demo_events (launch (drive demo_sys_env) c) = Done s \<and>
     subseq (map contents kp) [(Fin False 1, encode_xt demo_msg)] \<and>
     subseq (map view (nd_published (ros s))) (map (view_of_cloud \<circ> em_cloud) (emitted (drv (pipe s))))"
proof -
  obtain c where c: "new_HesaiLidarClient demo_os_node demo_launch = Inr (Done c)" using demo_constructed by blast
  obtain s where s: "sys_run demo_sys_env demo_events (launch (drive demo_sys_env) c) = Done s" "alive (pipe s)"
    using demo_execution(1) [OF c] by blast
  have "arrivals (udp demo_sys_env) demo_events = [(Fin False 1, encode_xt demo_msg)]"
    using demo_sockets by (simp add: demo_events_def datagram_def demo_io_def demo_length ETHERNET_MTU_def)
  with node_end_to_end [OF demo_params_ok(2) c s demo_events_safe(2) demo_nans] c s show ?thesis by auto
qed


definition gps_bytes :: "byte list" where
  "gps_bytes = encode_gps 0xFFEE [39, 1, 1, 0, 0, 0] 7 (replicate 494 0)"

theorem gps_callback_range_witness:
  "\<forall>s. receive_step (demo_sys_env\<lparr>drive := demo_env\<lparr>base := (base demo_env)\<lparr>mktime_fn := (\<lambda>t. (2177452800, t))\<rparr>\<rparr>\<rparr>)
     (demo_io\<lparr>io_recvfrom := (\<lambda>k. Datagram gps_bytes)\<rparr>) s = Undef"
proof
  fix s
  let ?E = "demo_sys_env\<lparr>drive := demo_env\<lparr>base := (base demo_env)\<lparr>mktime_fn := (\<lambda>t. (2177452800, t))\<rparr>\<rparr>\<rparr>"
  let ?io = "demo_io\<lparr>io_recvfrom := (\<lambda>k. Datagram gps_bytes)\<rparr>"
  let ?p = "\<lparr>pp_stamp = Fin False 1, pp_data = gps_bytes @ replicate 988 0, pp_size = 512\<rparr> :: PandarPacket"
  have len: "length gps_bytes = 512" by (simp add: gps_bytes_def encode_gps_def enc_item_def)
  have u: "udp ?E = udp demo_sys_env" "has_gps_callback ?E" by (simp_all add: demo_sys_env_def)
  have 1: "getPacket (io_poll ?io) (io_recvfrom ?io) (io_time ?io) (io_packet ?io) (udp ?E) = Some (Some ?p)"
    unfolding u(1) using demo_sockets by (simp add: getPacket_def demo_io_def Let_def ETHERNET_MTU_def len)
  have 2: "pp_size ?p = GPS_PACKET_SIZE" by (simp add: GPS_PACKET_SIZE_def)
  have 3: "pp_data ?p = encode_gps 0xFFEE [39, 1, 1, 0, 0, 0] 7 (replicate 494 0 @ replicate 988 0)"
    by (simp add: gps_bytes_def encode_gps_def)
  from gps_callback_range [OF 1 2 3 _ u(2) refl, of s] show "receive_step ?E ?io s = Undef" by (simp add: demo_sys_env_def)
qed

end
