(* ===== verification/Spec2Isabelle.thy ===== *)
theory Spec2Isabelle
  imports Spsc_Concurrency Node_System
begin

text \<open>
  \<^bold>\<open>Verification of the Hesai LiDAR driver for the Go2-W.\<close>

  \<^bold>\<open>The program.\<close> A ROS 2 node (\<^verbatim>\<open>src/main_ros2.cc\<close>) drives a Hesai LiDAR through a vendor
  library (\<^verbatim>\<open>src/HesaiLidar_General_SDK\<close>). A receiving thread takes UDP datagrams from the
  sensor (\<^verbatim>\<open>input.cc\<close>), or a reader thread takes them from a capture file
  (\<^verbatim>\<open>pcap_reader.cpp\<close>), and pushes them into a bounded single-producer/single-consumer ring
  (\<^verbatim>\<open>bounded_spsc_queue.h\<close>). The processing thread (\<^verbatim>\<open>ProcessLiarPacket\<close> in
  \<^verbatim>\<open>pandarGeneral_internal.cc\<close>) pops them, drops those that are out of order
  (\<^verbatim>\<open>packet_defenses.h\<close>), parses them, computes points, and at the start angle hands a cloud
  and the raw scan to a callback. The callback guards the order of the clouds, converts them
  (\<^verbatim>\<open>compact_pointcloud2.h\<close>) and puts them into a one-slot mailbox
  (\<^verbatim>\<open>latest_value_mailbox.h\<close>), from which the publishing thread publishes. A fourth thread
  fetches the calibration from the sensor over TCP (\<^verbatim>\<open>tcp_command_client.c\<close>, \<^verbatim>\<open>util.c\<close>)
  or from a file. \<^verbatim>\<open>PandarGeneralSDK\<close> (\<^verbatim>\<open>pandarGeneral_sdk.cc\<close>) ties the library
  together.

  \<^bold>\<open>Conventions.\<close> A class or struct is a record of its members, an operation a function
  on it. Machine integers are words where they may wrap. \<^verbatim>\<open>float\<close> and \<^verbatim>\<open>double\<close> are the
  type \<open>fp\<close> of theory \<open>Ieee_Floats\<close>: exact rationals rounded after every operation.
  Undefined behaviour is a value: \<^term>\<open>None\<close> of an option, or \<^const>\<open>Undef\<close> of the type
  \<open>run\<close>, which also has \<^const>\<open>Blocked\<close> for a call that never returns. Exceptions and error
  codes are values of sums and numbers, as in the code. An element that was never assigned is
  \<^term>\<open>None\<close> in its table.

  \<^bold>\<open>Theories.\<close>

  \<^item> \<open>Prelude\<close>, \<open>Ieee_Floats\<close>: bytes, byte order, guarded reads; IEEE 754 arithmetic, with
    the locale \<open>rounding\<close> interpreted for both formats. \<open>Float_Bits\<close>: the bits of a number in
    memory.
  \<^item> \<open>Packet_Defenses\<close> (\<^verbatim>\<open>packet_defenses.h\<close>): the sequence tracker and the timestamp guard.
    Both are a \<open>stream_guard\<close>; over a whole stream no replayed or reordered packet is
    accepted, and a time is accepted exactly when it is finite and within the tolerance of every
    accepted one.
  \<^item> \<open>Spsc_Queue\<close>, \<open>Spsc_Concurrency\<close> (\<^verbatim>\<open>bounded_spsc_queue.h\<close>): the ring call by call, a
    \<open>bounded_fifo\<close> that refines a bounded list; then access by access under release/acquire
    memory, where no slot is raced on, pops are a prefix of pushes and calls are wait-free; alone, a
    call does what its one-step version does.
  \<^item> \<open>Latest_Value_Mailbox\<close> (\<^verbatim>\<open>latest_value_mailbox.h\<close>): the slot, a \<open>handoff\<close>, and the
    condition variable as a step function: latest value wins and no wake-up is lost.
  \<^item> \<open>Compact_PointCloud2\<close> (\<^verbatim>\<open>compact_pointcloud2.h\<close>, \<^verbatim>\<open>point_types.h\<close>): the conversion, its
    exceptions and the round trip on either byte order. \<open>Cloud_View\<close>: a cloud of computed points
    as the memory the conversion copies, and the points a subscriber reads from the message.
  \<^item> \<open>Packet_Parsers\<close>, \<open>Packet_Roundtrip\<close> (\<^verbatim>\<open>Parse...\<close> of \<^verbatim>\<open>pandarGeneral_internal.cc\<close>,
    \<^verbatim>\<open>pandarXT.h\<close>, \<^verbatim>\<open>pandarQT.h\<close>): five datagram formats and GPS; the XT parser is safe on
    every datagram and inverts an encoder; where the others are not safe.
  \<^item> \<open>Lidar_Tables\<close>, \<open>Point_Calc\<close>, \<open>Point_Props\<close> (\<^verbatim>\<open>Init\<close>, \<^verbatim>\<open>Calc...PointXYZIT\<close>): the
    calibration tables and the point computation with all roundings; the azimuth index is in
    range for every sensor; reads of elements that were never assigned.
  \<^item> \<open>Driver\<close>, \<open>Driver_Props\<close>, \<open>Frame_Props\<close>, \<open>Pipeline\<close> (the rest of
    \<^verbatim>\<open>pandarGeneral_internal.cc\<close>): the processing of a packet up to the callback refines an
    abstract collector of points; refused packets leave no trace; the XT path has no undefined
    behaviour on packets that are neither empty nor of another product, with complete tables and room
    for the points; for every interleaving of receiver and processor no packet is lost without being
    counted.
  \<^item> \<open>Correction_File\<close>, \<open>Correction_Props\<close> (\<^verbatim>\<open>LoadCorrectionFile\<close>, \<^verbatim>\<open>PushScanPacket\<close>): the
    calibration text and the replay of recorded scans: saving and loading, and the inputs on
    which loading goes wrong.
  \<^item> \<open>Posix_Io\<close>, \<open>Tcp_Command\<close>, \<open>Tcp_Props\<close> (\<^verbatim>\<open>util.c\<close>, \<^verbatim>\<open>tcp_command_client.c\<close>): the
    command client over a heap, a descriptor table, a mutex and a scripted connection. Calls are
    balanced whatever the network does, and the getters are a \<open>calibration_getter\<close>, on which
    the facade rests. The client itself is a block of the heap, which is never freed.
  \<^item> \<open>Udp_Input\<close> (\<^verbatim>\<open>input.cc\<close>), \<open>Pcap_Reader\<close> (\<^verbatim>\<open>pcap_reader.cpp\<close>): the two sources of
    packets. Which datagram, from which socket, \<^verbatim>\<open>getPacket\<close> returns; and the replay of a
    capture, with the exact times it sleeps, for any value of the counter that the code leaves
    unassigned.
  \<^item> \<open>Pandar_General\<close> (\<^verbatim>\<open>pandarGeneral.cc\<close>; \<^verbatim>\<open>Start\<close>, \<^verbatim>\<open>Stop\<close>, the destructor and
    \<^verbatim>\<open>SetEnvironmentVariableTZ\<close> of \<^verbatim>\<open>PandarGeneral_Internal\<close>): the driver as an object with
    its threads, and the class that forwards to it; a constructed object never meets the null
    pointer its methods test for.
  \<^item> \<open>Sdk\<close> (\<^verbatim>\<open>pandarGeneral_sdk.cc\<close>): the facade and the calibration thread.
  \<^item> \<open>Ros_Node\<close>, \<open>Node_Props\<close>, \<open>Node_Lifecycle\<close> (\<^verbatim>\<open>main_ros2.cc\<close>): the callback and the
    publishing thread, whose counters account for every cloud and which ends after the stop; and the
    node from its constructor to the end of its destructor, which joins that thread.
  \<^item> \<open>System\<close>, \<open>System_Safety\<close>, \<open>Node_System\<close>: all of it composed. The state is the driver with
    its queue, the receiver and the node; an event is a datagram that arrives, a turn of the
    processing thread, its callback, or a step of the publisher, in any order. From the node as
    \<^verbatim>\<open>main\<close> constructs it: what is published are clouds of an abstract collector over the
    datagrams that arrived, point for point, every datagram is accounted for, and the threads
    of an XT node meet no undefined behaviour under the conditions of \<open>event_safe\<close> and \<open>room\<close>,
    whenever the calibration replaces the tables by complete ones.

  \<^bold>\<open>Parameters of the model.\<close> Code outside the repository is an argument: \<^verbatim>\<open>sinf\<close>,
  \<^verbatim>\<open>cosf\<close>, \<^verbatim>\<open>sqrt\<close>, \<^verbatim>\<open>mktime\<close>, the printing of a \<^verbatim>\<open>float\<close>, \<^verbatim>\<open>tf2\<close>, the clocks,
  \<^verbatim>\<open>pcl::toROSMsg\<close>, \<^verbatim>\<open>rclcpp::Time\<close>, \<^verbatim>\<open>malloc\<close>, the size of the command client, the files,
  the frames \<^verbatim>\<open>libpcap\<close> delivers and the answers of the system calls. What a theorem needs of
  them is a named hypothesis (\<open>prints_ok\<close>, \<open>alloc_ok\<close>, \<open>net_ok\<close>, \<open>ros_time_ok\<close>), shown to hold of a
  concrete instance by the theorem's witness. The one operation of the point cloud library written
  out is \<^verbatim>\<open>push_back\<close>, which appends and keeps \<^verbatim>\<open>width\<close> and \<^verbatim>\<open>height\<close> in step
  (\<open>cloud_append\<close>); only a \<^verbatim>\<open>pcl_type\<close> other than 0 uses it.

  \<^bold>\<open>Loops and bounds.\<close> No definition has fuel. Loops over a packet, a file or a script of
  answers recurse on it; \<open>load_lines\<close> and the loops of \<^verbatim>\<open>util.c\<close> have termination proofs. A
  script that has run out is a call that blocks. The unbounded loops of the threads are step
  functions or folds over an arbitrary list of turns, over which the theorems quantify.

  \<^bold>\<open>Assumptions.\<close> Floating-point operations are evaluated in their own format and not
  contracted. The queue's atomics follow release/acquire rules; everything else that threads
  share is under a mutex or handed over by thread creation and join, except for the angle tables
  (and the flag and text of the calibration), which the calibration thread writes while the
  processing thread may read them. That is a data race; the theorems on one turn of the
  processing thread are about tables that do not change during the turn, and \<open>calibrated_run\<close> lets
  them change between any two turns. \<open>node_end_to_end\<close> is about the tables of the constructor.
  Joining a driver thread waits for the turn that is under way, which is taken to end: it has no
  waiting call but a poll of one second and a sleep of the replay. A join of a thread whose flag is
  still set never returns, and the joins of the calibration thread and of the publishing thread run
  their functions to the end. Copying no bytes from or to a null pointer is taken as harmless.

  \<^bold>\<open>Not modelled.\<close> Log output and the version banner (no effect on the state, but the
  calibration getters begin with a \<^verbatim>\<open>printf\<close> that is given a \<^verbatim>\<open>char **\<close> for a string, which is
  undefined); C++ objects made with \<^verbatim>\<open>new\<close>, which are not on the modelled heap of C blocks; scheduling
  priorities; allocation and thread creation failing, except for \<^verbatim>\<open>malloc\<close> in the command
  client and \<^verbatim>\<open>SetEnvironmentVariableTZ\<close>; what the library does with the \<^verbatim>\<open>TZ\<close> variable,
  which is in the argument \<open>mktime\<close>; signals other than interrupted calls, so also
  \<^verbatim>\<open>SIGPIPE\<close> on a write to a closed connection; the executor behind \<^verbatim>\<open>main\<close>, whose loop is the
  list of events.
\<close>

end
